(* ===== verification/Prelude.thy ===== *)
theory Prelude
  imports Main "HOL-Library.Word" "HOL-Library.Code_Target_Numeral"
begin

text \<open>
  Shared vocabulary of the development: Python exceptions as values, the result type of every
  modelled function, the two combinators that sequence checks and calls, Python strings as
  lists of Unicode code points, bytes, the fact collections the component proofs use, and the
  interfaces (locales) that several components share.
\<close>

section \<open>Results and exceptions\<close>

text \<open>
  \<open>AitpError code retryable\<close> is \<open>aitp_verifier/errors.py\<close>; its message text is not
  modelled. The other constructors are the Python exceptions that can leave a modelled function.
  \<open>JcsError\<close>, \<open>JSONDecodeError\<close>, \<open>UnicodeError\<close> and \<open>BinasciiError\<close> are subclasses
  of Python's \<open>ValueError\<close>, which is what \<open>except ValueError\<close> clauses catch;
  \<open>UnsupportedAlgorithm\<close> and \<open>DuplicateExtension\<close> are the \<open>cryptography\<close> package's;
  \<open>MalformedRequest\<close>, \<open>FixtureError\<close>, \<open>MinterError\<close>, \<open>KatKeysError\<close> and
  \<open>ReportError\<close> are the conformance tools'. \<open>OutOfFuel\<close>
  is the model's own: a recursion given too little fuel, which \<open>Json\<close> proves never happens.
\<close>

datatype exn =
    AitpError string bool
  | ValueError
  | JcsError
  | JSONDecodeError
  | UnicodeError
  | BinasciiError
  | TypeError
  | KeyError
  | AttributeError
  | OverflowError
  | AssertionError
  | IndexError
  | UnsupportedAlgorithm
  | DuplicateExtension
  | MalformedRequest
  | FixtureError
  | MinterError
  | KatKeysError
  | ReportError
  | OutOfFuel

type_synonym 'a res = "exn + 'a"

fun is_aitp :: "exn \<Rightarrow> bool" where
  "is_aitp (AitpError c r) = True"
| "is_aitp _ = False"

fun is_value_error :: "exn \<Rightarrow> bool" where
  "is_value_error ValueError = True"
| "is_value_error JcsError = True"
| "is_value_error JSONDecodeError = True"
| "is_value_error UnicodeError = True"
| "is_value_error BinasciiError = True"
| "is_value_error _ = False"

definition raise :: "string \<Rightarrow> 'a res" where
  "raise c = Inl (AitpError c False)"

definition raise_retryable :: "string \<Rightarrow> 'a res" where
  "raise_retryable c = Inl (AitpError c True)"

definition bindE :: "'a res \<Rightarrow> ('a \<Rightarrow> 'b res) \<Rightarrow> 'b res" where
  "bindE m f = (case m of Inl e \<Rightarrow> Inl e | Inr x \<Rightarrow> f x)"

text \<open>\<open>ensure c m k\<close> is \<open>if not c: <m>\<close> followed by the rest \<open>k\<close> of the body.\<close>

definition ensure :: "bool \<Rightarrow> 'a res \<Rightarrow> 'a res \<Rightarrow> 'a res" where
  "ensure c m k = (if c then k else m)"

text \<open>\<open>catchE p m h\<close> is \<open>try: m  except <p>: h\<close>.\<close>

definition catchE :: "(exn \<Rightarrow> bool) \<Rightarrow> 'a res \<Rightarrow> (exn \<Rightarrow> 'a res) \<Rightarrow> 'a res" where
  "catchE p m h = (case m of Inl e \<Rightarrow> if p e then h e else Inl e | Inr x \<Rightarrow> Inr x)"

fun mapE :: "('a \<Rightarrow> 'b res) \<Rightarrow> 'a list \<Rightarrow> 'b list res" where
  "mapE f [] = Inr []"
| "mapE f (x # xs) = bindE (f x) (\<lambda>y. bindE (mapE f xs) (\<lambda>ys. Inr (y # ys)))"

fun eachE :: "('a \<Rightarrow> unit res) \<Rightarrow> 'a list \<Rightarrow> unit res" where
  "eachE f [] = Inr ()"
| "eachE f (x # xs) = bindE (f x) (\<lambda>_. eachE f xs)"

text \<open>A loop that threads a state\<close>

fun foldE :: "('s \<Rightarrow> 'a \<Rightarrow> 's res) \<Rightarrow> 's \<Rightarrow> 'a list \<Rightarrow> 's res" where
  "foldE f s [] = Inr s"
| "foldE f s (x # xs) = bindE (f s x) (\<lambda>s. foldE f s xs)"

named_theorems ok_simps \<open>what a successful run of a combinator or operation means\<close>
named_theorems err_simps \<open>what a failing run of a combinator means\<close>
named_theorems aitp_intros \<open>a computation that fails only with an AITP error\<close>

lemma bindE_Inl [simp]: "bindE (Inl e) f = Inl e"
  by (simp add: bindE_def)

lemma bindE_Inr [simp]: "bindE (Inr x) f = f x"
  by (simp add: bindE_def)

lemma bindE_raise [simp]: "bindE (raise c) f = raise c"
  by (simp add: raise_def)

lemma bindE_return [simp]: "bindE m Inr = m"
  by (simp add: bindE_def split: sum.splits)

lemma bindE_assoc: "bindE (bindE m f) g = bindE m (\<lambda>x. bindE (f x) g)"
  by (simp add: bindE_def split: sum.splits)

lemma bindE_ok [ok_simps]: "bindE m f = Inr y \<longleftrightarrow> (\<exists>x. m = Inr x \<and> f x = Inr y)"
  by (simp add: bindE_def split: sum.splits)

lemma bindE_err [err_simps]:
  "bindE m f = Inl e \<longleftrightarrow> m = Inl e \<or> (\<exists>x. m = Inr x \<and> f x = Inl e)"
  by (auto simp: bindE_def split: sum.splits)

lemma bindE_cong [fundef_cong]:
  "m = m' \<Longrightarrow> (\<And>x. m' = Inr x \<Longrightarrow> f x = f' x) \<Longrightarrow> bindE m f = bindE m' f'"
  by (simp add: bindE_def split: sum.splits)

lemma ensure_True [simp]: "ensure True m k = k"
  by (simp add: ensure_def)

lemma ensure_False [simp]: "ensure False m k = m"
  by (simp add: ensure_def)

lemma ensure_cong [fundef_cong]:
  "c = c' \<Longrightarrow> (\<not> c' \<Longrightarrow> m = m') \<Longrightarrow> (c' \<Longrightarrow> k = k') \<Longrightarrow> ensure c m k = ensure c' m' k'"
  by (simp add: ensure_def)

lemma raise_not_ok [simp]: "raise c \<noteq> Inr x" "Inr x \<noteq> raise c"
  by (simp_all add: raise_def)

lemma raise_retryable_not_ok [simp]: "raise_retryable c \<noteq> Inr x" "Inr x \<noteq> raise_retryable c"
  by (simp_all add: raise_retryable_def)

lemma raise_eq [simp]: "raise c = raise d \<longleftrightarrow> c = d" "raise c = Inl e \<longleftrightarrow> e = AitpError c False"
  by (auto simp: raise_def)

lemma ensure_raise_ok [ok_simps]: "ensure c (raise e) k = Inr y \<longleftrightarrow> c \<and> k = Inr y"
  by (simp add: ensure_def)

lemma ensure_retryable_ok [ok_simps]: "ensure c (raise_retryable e) k = Inr y \<longleftrightarrow> c \<and> k = Inr y"
  by (simp add: ensure_def)

lemma ensure_Inl_ok [ok_simps]: "ensure c (Inl e) k = Inr y \<longleftrightarrow> c \<and> k = Inr y"
  by (simp add: ensure_def)

lemma ensure_err [err_simps]: "ensure c m k = Inl e \<longleftrightarrow> (\<not> c \<and> m = Inl e) \<or> (c \<and> k = Inl e)"
  by (simp add: ensure_def)

lemma catchE_Inr [simp]: "catchE p (Inr x) h = Inr x"
  by (simp add: catchE_def)

lemma catchE_Inl [simp]: "catchE p (Inl e) h = (if p e then h e else Inl e)"
  by (simp add: catchE_def)

lemma catchE_raise_ok [ok_simps]: "catchE p m (\<lambda>_. raise c) = Inr y \<longleftrightarrow> m = Inr y"
  by (cases m) (auto simp: catchE_def)

lemma catchE_retryable_ok [ok_simps]: "catchE p m (\<lambda>_. raise_retryable c) = Inr y \<longleftrightarrow> m = Inr y"
  by (cases m) (auto simp: catchE_def)

lemma mapE_ok_length: "mapE f xs = Inr ys \<Longrightarrow> length ys = length xs"
  by (induction xs arbitrary: ys) (auto simp: ok_simps)

lemma mapE_ok_set: "mapE f xs = Inr ys \<Longrightarrow> y \<in> set ys \<Longrightarrow> \<exists>x \<in> set xs. f x = Inr y"
  by (induction xs arbitrary: ys) (auto simp: ok_simps)

lemma mapE_ok_elem: "mapE f xs = Inr ys \<Longrightarrow> x \<in> set xs \<Longrightarrow> \<exists>y \<in> set ys. f x = Inr y"
  by (induction xs arbitrary: ys) (auto simp: ok_simps)

lemma mapE_all_Inr: "(\<And>x. x \<in> set xs \<Longrightarrow> f x = Inr (g x)) \<Longrightarrow> mapE f xs = Inr (map g xs)"
  by (induction xs) auto

lemma mapE_cong [fundef_cong]:
  "xs = ys \<Longrightarrow> (\<And>x. x \<in> set ys \<Longrightarrow> f x = g x) \<Longrightarrow> mapE f xs = mapE g ys"
  by (induction xs arbitrary: ys) auto

lemma eachE_ok [ok_simps]: "eachE f xs = Inr u \<longleftrightarrow> (\<forall>x \<in> set xs. f x = Inr ())"
  by (induction xs) (auto simp: ok_simps)

lemma foldE_invariant:
  "foldE f s xs = Inr t \<Longrightarrow> P s \<Longrightarrow> (\<And>s x t. x \<in> set xs \<Longrightarrow> P s \<Longrightarrow> f s x = Inr t \<Longrightarrow> P t) \<Longrightarrow> P t"
  by (induction xs arbitrary: s) (auto simp: ok_simps)

lemma foldE_agree:
  assumes "P s" and "\<And>s x. P s \<Longrightarrow> f s x = g s x" and "\<And>s x t. P s \<Longrightarrow> f s x = Inr t \<Longrightarrow> P t"
  shows "foldE f s xs = foldE g s xs"
  using assms(1)
proof (induction xs arbitrary: s)
  case (Cons x xs)
  then show ?case using assms(2,3) by (cases "g s x") auto
qed simp

text \<open>
  Reading a successful run: each step becomes an equation, a check its condition. \<open>runs\<close> turns the
  success of a whole body into one existential statement about its intermediate results.
\<close>

lemma ex_unit: "(\<exists>x :: unit. P x) \<longleftrightarrow> P ()"
  by auto

lemma ex_true: "(\<exists>b. m = Inr b \<and> b \<and> k) \<longleftrightarrow> m = Inr True \<and> k"
  by auto

lemma Inr_inject: "Inr x = Inr y \<longleftrightarrow> x = y"
  by simp

lemmas runs = bindE_ok ensure_raise_ok ensure_Inl_ok ensure_retryable_ok catchE_raise_ok catchE_retryable_ok
  ex_unit ex_true split_paired_Ex prod.case Inr_inject

section \<open>The boundary contract\<close>

text \<open>
  The contract of every verifier entry point is "return a verdict or raise \<open>AitpError\<close>".
\<close>

definition aitp_or :: "exn list \<Rightarrow> 'a res \<Rightarrow> bool" where
  "aitp_or es m = (case m of Inl e \<Rightarrow> is_aitp e \<or> e \<in> set es | Inr _ \<Rightarrow> True)"

text \<open>\<open>aitp_or es m\<close> allows the exceptions \<open>es\<close> beside AITP's; the contract itself allows none.\<close>

abbreviation aitp_only :: "'a res \<Rightarrow> bool" where
  "aitp_only \<equiv> aitp_or []"

lemma aitp_or_Inr [aitp_intros, simp]: "aitp_or es (Inr x)"
  by (simp add: aitp_or_def)

lemma aitp_or_raise [aitp_intros, simp]: "aitp_or es (raise c)"
  by (simp add: aitp_or_def raise_def)

lemma aitp_or_raise_retryable [aitp_intros, simp]: "aitp_or es (raise_retryable c)"
  by (simp add: aitp_or_def raise_retryable_def)

lemma aitp_or_Inl [simp]: "aitp_or es (Inl e) \<longleftrightarrow> is_aitp e \<or> e \<in> set es"
  by (simp add: aitp_or_def)

lemma aitp_or_bindE [aitp_intros]:
  "aitp_or es m \<Longrightarrow> (\<And>x. m = Inr x \<Longrightarrow> aitp_or es (f x)) \<Longrightarrow> aitp_or es (bindE m f)"
  by (simp add: aitp_or_def bindE_def split: sum.splits)

lemma aitp_or_ensure [aitp_intros]:
  "(\<not> c \<Longrightarrow> aitp_or es m) \<Longrightarrow> (c \<Longrightarrow> aitp_or es k) \<Longrightarrow> aitp_or es (ensure c m k)"
  by (simp add: ensure_def)

lemma aitp_or_if [aitp_intros]:
  "(c \<Longrightarrow> aitp_or es m) \<Longrightarrow> (\<not> c \<Longrightarrow> aitp_or es k) \<Longrightarrow> aitp_or es (if c then m else k)"
  by simp

lemma aitp_or_eachE [aitp_intros]:
  "(\<And>x. x \<in> set xs \<Longrightarrow> aitp_or es (f x)) \<Longrightarrow> aitp_or es (eachE f xs)"
  by (induction xs) (auto intro!: aitp_intros)

lemma aitp_or_catchE:
  "(\<And>e. m = Inl e \<Longrightarrow> p e \<or> is_aitp e \<or> e \<in> set es) \<Longrightarrow> (\<And>e. aitp_or es (h e)) \<Longrightarrow>
   aitp_or es (catchE p m h)"
  by (cases m) (auto simp: catchE_def)

lemma aitp_or_errD: "aitp_or es m \<Longrightarrow> m = Inl e \<Longrightarrow> is_aitp e \<or> e \<in> set es"
  by simp

text \<open>\<open>fails_in P m\<close>: every exception of \<open>m\<close> satisfies \<open>P\<close>.\<close>

definition fails_in :: "(exn \<Rightarrow> bool) \<Rightarrow> 'a res \<Rightarrow> bool" where
  "fails_in P m = (case m of Inl e \<Rightarrow> P e | Inr _ \<Rightarrow> True)"

named_theorems fails_intros \<open>a computation whose exceptions all satisfy a predicate\<close>

lemma fails_inI: "(\<And>e. m = Inl e \<Longrightarrow> P e) \<Longrightarrow> fails_in P m"
  by (cases m) (auto simp: fails_in_def)

lemma fails_inD: "fails_in P m \<Longrightarrow> m = Inl e \<Longrightarrow> P e"
  by (simp add: fails_in_def)

lemma fails_in_Inr [fails_intros, simp]: "fails_in P (Inr x)"
  by (simp add: fails_in_def)

lemma fails_in_Inl [simp]: "fails_in P (Inl e) \<longleftrightarrow> P e"
  by (simp add: fails_in_def)

lemma fails_in_raise [simp]: "fails_in P (raise c) \<longleftrightarrow> P (AitpError c False)"
  by (simp add: fails_in_def raise_def)

lemma fails_in_bindE [fails_intros]:
  "fails_in P m \<Longrightarrow> (\<And>x. m = Inr x \<Longrightarrow> fails_in P (f x)) \<Longrightarrow> fails_in P (bindE m f)"
  by (simp add: fails_in_def bindE_def split: sum.splits)

lemma fails_in_ensure [fails_intros]:
  "(\<not> c \<Longrightarrow> fails_in P m) \<Longrightarrow> (c \<Longrightarrow> fails_in P k) \<Longrightarrow> fails_in P (ensure c m k)"
  by (simp add: ensure_def)

lemma fails_in_if [fails_intros]:
  "(c \<Longrightarrow> fails_in P m) \<Longrightarrow> (\<not> c \<Longrightarrow> fails_in P k) \<Longrightarrow> fails_in P (if c then m else k)"
  by simp

lemma fails_in_mapE [fails_intros]:
  "(\<And>x. x \<in> set xs \<Longrightarrow> fails_in P (f x)) \<Longrightarrow> fails_in P (mapE f xs)"
  by (induction xs) (auto intro!: fails_intros)

lemma fails_in_eachE [fails_intros]:
  "(\<And>x. x \<in> set xs \<Longrightarrow> fails_in P (f x)) \<Longrightarrow> fails_in P (eachE f xs)"
  by (induction xs) (auto intro!: fails_intros)

lemma fails_in_catchE:
  "fails_in (\<lambda>e. p e \<or> P e) m \<Longrightarrow> (\<And>e. fails_in P (h e)) \<Longrightarrow> fails_in P (catchE p m h)"
  by (cases m) (auto simp: catchE_def)

lemma fails_in_weaken: "fails_in P m \<Longrightarrow> (\<And>e. P e \<Longrightarrow> Q e) \<Longrightarrow> fails_in Q m"
  by (cases m) auto

lemma aitp_or_fails_in: "aitp_or es m \<longleftrightarrow> fails_in (\<lambda>e. is_aitp e \<or> e \<in> set es) m"
  by (simp add: aitp_or_def fails_in_def)

text \<open>
  Reading a failing run: when no step before it can raise \<open>e\<close>, a run that raises \<open>e\<close> got that far.
  \<open>never e m\<close> says a step cannot raise \<open>e\<close>.
\<close>

definition never :: "exn \<Rightarrow> 'a res \<Rightarrow> bool" where
  "never e m \<longleftrightarrow> m \<noteq> Inl e"

named_theorems never_intros \<open>a step that cannot raise an exception\<close>

lemma never_simps [simp]:
  "never e (Inr x)" "never e (raise c) \<longleftrightarrow> e \<noteq> AitpError c False"
  "never e (raise_retryable c) \<longleftrightarrow> e \<noteq> AitpError c True" "never e (Inl e') \<longleftrightarrow> e \<noteq> e'"
  by (auto simp: never_def raise_def raise_retryable_def)

lemma never_fails: "fails_in P m \<Longrightarrow> \<not> P e \<Longrightarrow> never e m"
  by (auto simp: never_def)

lemma never_bindE [never_intros]: "never e m \<Longrightarrow> (\<And>x. m = Inr x \<Longrightarrow> never e (f x)) \<Longrightarrow> never e (bindE m f)"
  by (auto simp: never_def bindE_def split: sum.splits)

lemma never_ensure [never_intros]: "(\<not> c \<Longrightarrow> never e m) \<Longrightarrow> (c \<Longrightarrow> never e k) \<Longrightarrow> never e (ensure c m k)"
  by (simp add: ensure_def)

lemma never_if [never_intros]: "(c \<Longrightarrow> never e m) \<Longrightarrow> (\<not> c \<Longrightarrow> never e k) \<Longrightarrow> never e (if c then m else k)"
  by simp

lemma never_eachE [never_intros]: "(\<And>x. x \<in> set xs \<Longrightarrow> never e (f x)) \<Longrightarrow> never e (eachE f xs)"
  by (induction xs) (auto intro!: never_intros)

lemma never_mapE [never_intros]: "(\<And>x. x \<in> set xs \<Longrightarrow> never e (f x)) \<Longrightarrow> never e (mapE f xs)"
  by (induction xs) (auto intro!: never_intros)

lemma never_catchE [never_intros]:
  "(\<not> p e \<Longrightarrow> never e m) \<Longrightarrow> (\<And>x. never e (h x)) \<Longrightarrow> never e (catchE p m h)"
  by (cases m) (auto simp: never_def)

lemma never_foldE:
  assumes "\<And>s x. x \<in> set xs \<Longrightarrow> never e (f s x)"
  shows "never e (foldE f s xs)"
  using assms by (induction xs arbitrary: s) (auto intro!: never_intros)

lemma late_bindE: "never e m \<Longrightarrow> bindE m f = Inl e \<longleftrightarrow> (\<exists>x. m = Inr x \<and> f x = Inl e)"
  by (auto simp: never_def bindE_err)

lemma late_ensure: "never e m \<Longrightarrow> ensure c m k = Inl e \<longleftrightarrow> c \<and> k = Inl e"
  by (auto simp: never_def ensure_err)

section \<open>Python strings and bytes\<close>

text \<open>
  A Python \<open>str\<close> is a sequence of code points (lone surrogates included), so it is a list
  of numbers. \<open>u ''abc''\<close> writes an ASCII literal. \<open>byte\<close> is an 8-bit word.
\<close>

type_synonym ustr = "nat list"
type_synonym byte = "8 word"
type_synonym bytes = "byte list"

lemma unat_byte_lt [simp]: "unat (b :: byte) < 256"
  using unsigned_less [of b] by simp

definition u :: "string \<Rightarrow> ustr" where
  "u s = map of_char s"

lemma u_eq_iff [simp]: "u s = u t \<longleftrightarrow> s = t"
proof
  assume "u s = u t"
  then show "s = t"
    unfolding u_def by (rule inj_mapD [THEN injD, rotated -1]) (simp_all add: inj_on_def inj_def)
qed simp

lemma u_Nil [simp]: "u [] = []"
  by (simp add: u_def)

lemma u_Cons: "u (c # s) = of_char c # u s"
  by (simp add: u_def)

lemma u_eq_Nil_iff [simp]: "u s = [] \<longleftrightarrow> s = []" "[] = u s \<longleftrightarrow> s = []"
  by (auto simp: u_def)

lemma u_append [simp]: "u (s @ t) = u s @ u t"
  by (simp add: u_def)

definition ub :: "string \<Rightarrow> bytes" where
  "ub s = map of_char s"

text \<open>\<open>s.startswith(p)\<close> followed by \<open>s[len(p):]\<close>.\<close>

fun strip_prefix :: "'a list \<Rightarrow> 'a list \<Rightarrow> 'a list option" where
  "strip_prefix [] xs = Some xs"
| "strip_prefix (p # ps) [] = None"
| "strip_prefix (p # ps) (x # xs) = (if p = x then strip_prefix ps xs else None)"

lemma strip_prefix_Some [simp]: "strip_prefix p s = Some r \<longleftrightarrow> s = p @ r"
  by (induction p s rule: strip_prefix.induct) auto

lemma strip_prefix_append [simp]: "strip_prefix p (p @ r) = Some r"
  by simp

lemma strip_prefix_None: "strip_prefix p s = None \<longleftrightarrow> (\<forall>r. s \<noteq> p @ r)"
  by (metis not_Some_eq strip_prefix_Some)

text \<open>\<open>s.split(sep)\<close> for a one-character separator.\<close>

fun split_on :: "'a \<Rightarrow> 'a list \<Rightarrow> 'a list list" where
  "split_on c [] = [[]]"
| "split_on c (x # xs) =
     (if x = c then [] # split_on c xs
      else case split_on c xs of [] \<Rightarrow> [[x]] | p # ps \<Rightarrow> (x # p) # ps)"

fun join_with :: "'a list \<Rightarrow> 'a list list \<Rightarrow> 'a list" where
  "join_with sep [] = []"
| "join_with sep [p] = p"
| "join_with sep (p # q # ps) = p @ sep @ join_with sep (q # ps)"

lemma split_on_not_Nil [simp]: "split_on c s \<noteq> []"
  by (induction s) (auto split: list.splits)

lemma join_split_on: "join_with [c] (split_on c s) = s"
proof (induction s)
  case (Cons x s)
  then show ?case
    by (cases "split_on c s"; cases "tl (split_on c s)") auto
qed simp

lemma split_on_no_sep: "p \<in> set (split_on c s) \<Longrightarrow> c \<notin> set p"
proof (induction s arbitrary: p)
  case (Cons x s)
  then show ?case
    by (cases "split_on c s") (fastforce split: if_splits)+
qed simp

lemma split_on_append: "c \<notin> set p \<Longrightarrow> split_on c (p @ c # s) = p # split_on c s"
  by (induction p) auto

lemma split_on_single: "c \<notin> set p \<Longrightarrow> split_on c p = [p]"
  by (induction p) auto

section \<open>Interfaces\<close>

text \<open>
  An encoder and its decoder. The provider promises that decoding inverts encoding; a client
  learns that encodings are unambiguous.
\<close>

locale codec =
  fixes enc :: "'a \<Rightarrow> 'b"
    and dec :: "'b \<Rightarrow> 'a res"
    and valid :: "'a \<Rightarrow> bool"
  assumes dec_enc: "valid x \<Longrightarrow> dec (enc x) = Inr x"
begin

lemma enc_inj: "valid x \<Longrightarrow> valid y \<Longrightarrow> enc x = enc y \<longleftrightarrow> x = y"
  by (metis dec_enc sum.inject(2))

end

text \<open>
  An authority order along a chain of tokens: every hop may hold at most what its
  predecessor holds. A client learns that the last holder has at most what the first had.
\<close>

locale attenuation =
  fixes below :: "'a \<Rightarrow> 'a \<Rightarrow> bool"
  assumes below_refl: "below x x"
    and below_trans: "below x y \<Longrightarrow> below y z \<Longrightarrow> below x z"
begin

lemma chain_below: "successively (\<lambda>p h. below h p) (x # xs) \<Longrightarrow> y \<in> set (x # xs) \<Longrightarrow> below y x"
proof (induction xs arbitrary: x)
  case Nil
  then show ?case by (simp add: below_refl)
next
  case (Cons z zs)
  then show ?case
    by (auto intro: below_refl below_trans)
qed

end

text \<open>A state machine whose every step keeps an invariant keeps it over every run.\<close>

locale invariant_machine =
  fixes step :: "'s \<Rightarrow> 'e \<Rightarrow> 's"
    and inv :: "'s \<Rightarrow> bool"
  assumes step_inv: "inv s \<Longrightarrow> inv (step s e)"
begin

lemma run_inv: "inv s \<Longrightarrow> inv (foldl step s es)"
  by (induction es arbitrary: s) (auto intro: step_inv)

end

end
