(* ===== verification/Py_Float.thy ===== *)
theory Py_Float
  imports Prelude
begin

text \<open>
  The part of Python's numbers the verifier reaches: binary64 floats as values
  \<open>m * 2 ^ e\<close>, \<open>float(int)\<close> and the float of a decimal literal (round half to even),
  \<open>int(float)\<close>, comparison by value, decimal digits, and \<open>repr(float)\<close> with the shortest
  digits that read back as the same float.
\<close>

section \<open>Bit length and decimal digits\<close>

fun bit_length :: "nat \<Rightarrow> nat" where
  "bit_length n = (if n = 0 then 0 else Suc (bit_length (n div 2)))"

declare bit_length.simps [simp del]

lemma bit_length_0 [simp]: "bit_length 0 = 0"
  by (simp add: bit_length.simps)

lemma bit_length_upper: "n < 2 ^ bit_length n"
proof (induction n rule: bit_length.induct)
  case (1 n)
  show ?case
  proof (cases "n = 0")
    case False
    with 1 have "n div 2 < 2 ^ bit_length (n div 2)" by simp
    with False show ?thesis by (simp add: bit_length.simps [of n])
  qed simp
qed

lemma bit_length_lower: "0 < n \<Longrightarrow> 2 ^ (bit_length n - 1) \<le> n"
proof (induction n rule: bit_length.induct)
  case (1 n)
  show ?case
  proof (cases "n div 2 = 0")
    case True
    with 1 show ?thesis by (simp add: bit_length.simps [of n])
  next
    case False
    with 1 have "2 ^ (bit_length (n div 2) - 1) \<le> n div 2" by simp
    moreover obtain k where "bit_length (n div 2) = Suc k"
      using False by (simp add: bit_length.simps [of "n div 2"])
    ultimately show ?thesis using 1 by (simp add: bit_length.simps [of n])
  qed
qed

lemma bit_length_le_iff: "bit_length n \<le> k \<longleftrightarrow> n < 2 ^ k"
proof
  assume "bit_length n \<le> k"
  then have "(2::nat) ^ bit_length n \<le> 2 ^ k" by simp
  with bit_length_upper [of n] show "n < 2 ^ k" by linarith
next
  assume l: "n < 2 ^ k"
  show "bit_length n \<le> k"
  proof (rule ccontr)
    assume c: "\<not> bit_length n \<le> k"
    then have "0 < n" by (cases "n = 0") auto
    moreover have "(2::nat) ^ k \<le> 2 ^ (bit_length n - 1)"
      using c by (intro power_increasing) auto
    ultimately show False using bit_length_lower [of n] l by linarith
  qed
qed

text \<open>The decimal digits of a number, most significant first; none for \<open>0\<close>.\<close>

fun digits :: "nat \<Rightarrow> nat list" where
  "digits n = (if n = 0 then [] else digits (n div 10) @ [n mod 10])"

declare digits.simps [simp del]

definition digits_value :: "nat list \<Rightarrow> nat" where
  "digits_value ds = foldl (\<lambda>a d. 10 * a + d) 0 ds"

lemma digits_0 [simp]: "digits 0 = []"
  by (simp add: digits.simps)

lemma digits_eq_Nil [simp]: "digits n = [] \<longleftrightarrow> n = 0"
  by (simp add: digits.simps)

lemma digits_value_Nil [simp]: "digits_value [] = 0"
  by (simp add: digits_value_def)

lemma digits_value_snoc: "digits_value (ds @ [d]) = 10 * digits_value ds + d"
  by (simp add: digits_value_def)

lemma digits_value_append: "digits_value (ds @ es) = 10 ^ length es * digits_value ds + digits_value es"
proof (induction es rule: rev_induct)
  case (snoc x xs)
  then show ?case
    by (simp add: digits_value_snoc append_assoc [symmetric] algebra_simps del: append_assoc)
qed simp

lemma digits_value_digits [simp]: "digits_value (digits n) = n"
proof (induction n rule: digits.induct)
  case (1 n)
  then show ?case by (cases "n = 0") (simp_all add: digits.simps [of n] digits_value_snoc)
qed

lemma digits_lt_10: "d \<in> set (digits n) \<Longrightarrow> d < 10"
proof (induction n rule: digits.induct)
  case (1 n)
  then show ?case by (cases "n = 0") (auto simp: digits.simps [of n])
qed

lemma hd_digits: "0 < n \<Longrightarrow> hd (digits n) \<noteq> 0"
proof (induction n rule: digits.induct)
  case (1 n)
  show ?case
  proof (cases "n div 10 = 0")
    case True
    with 1 show ?thesis by (simp add: digits.simps [of n])
  next
    case False
    with 1 show ?thesis by (simp add: digits.simps [of n])
  qed
qed

lemma digits_upper: "n < 10 ^ length (digits n)"
proof (induction n rule: digits.induct)
  case (1 n)
  show ?case
  proof (cases "n = 0")
    case False
    with 1 have "n div 10 < 10 ^ length (digits (n div 10))" by simp
    with False show ?thesis by (simp add: digits.simps [of n])
  qed simp
qed

lemma digits_inj: "digits m = digits n \<longleftrightarrow> m = n"
  by (metis digits_value_digits)

section \<open>Floats\<close>

text \<open>\<open>FFin neg m e\<close> is \<open>(-1) ^ neg * m * 2 ^ e\<close>.\<close>

datatype pyfloat = FNan | FInf bool | FFin bool nat int

text \<open>
  The binary64 number nearest to \<open>num / den\<close> (both positive), as mantissa and exponent;
  \<open>None\<close> on overflow. \<open>53\<close> bits of mantissa, exponents from \<open>-1074\<close> to \<open>971\<close>.
\<close>

definition scaled :: "nat \<Rightarrow> nat \<Rightarrow> int \<Rightarrow> nat \<times> nat" where
  "scaled num den e = (num * 2 ^ nat (- e), den * 2 ^ nat e)"

definition round_ratio :: "nat \<Rightarrow> nat \<Rightarrow> (nat \<times> int) option" where
  "round_ratio num den =
     (let e0 = int (bit_length num) - int (bit_length den) - 53;
          (a0, b0) = scaled num den e0;
          e1 = (if 2 ^ 53 \<le> a0 div b0 then e0 + 1 else e0);
          e = max e1 (- 1074);
          (a, b) = scaled num den e;
          q = a div b; r = a mod b;
          m = (if 2 * r < b \<or> (2 * r = b \<and> even q) then q else q + 1);
          (m', e') = (if m = 2 ^ 53 then (2 ^ 52, e + 1) else (m, e))
      in if 971 < e' then None else Some (m', e'))"

text \<open>\<open>float(i)\<close> for a Python int.\<close>

definition float_of_int :: "int \<Rightarrow> pyfloat res" where
  "float_of_int i =
     (if i = 0 then Inr (FFin False 0 0)
      else case round_ratio (nat \<bar>i\<bar>) 1 of
        None \<Rightarrow> Inl OverflowError
      | Some (m, e) \<Rightarrow> Inr (FFin (i < 0) m e))"

text \<open>The float of the literal \<open>ds * 10 ^ x\<close>, as \<open>float(str)\<close> reads it.\<close>

definition float_of_decimal :: "bool \<Rightarrow> nat \<Rightarrow> int \<Rightarrow> pyfloat" where
  "float_of_decimal neg d x =
     (if d = 0 then FFin neg 0 0
      else case (if 0 \<le> x then round_ratio (d * 10 ^ nat x) 1 else round_ratio d (10 ^ nat (- x))) of
        None \<Rightarrow> FInf neg
      | Some (m, e) \<Rightarrow> FFin neg m e)"

definition float_is_integer :: "pyfloat \<Rightarrow> bool" where
  "float_is_integer f = (case f of FFin s m e \<Rightarrow> 0 \<le> e \<or> m mod 2 ^ nat (- e) = 0 | _ \<Rightarrow> False)"

text \<open>\<open>int(f)\<close>: truncation towards zero.\<close>

definition int_of_float :: "pyfloat \<Rightarrow> int res" where
  "int_of_float f =
     (case f of
        FNan \<Rightarrow> Inl ValueError
      | FInf s \<Rightarrow> Inl OverflowError
      | FFin s m e \<Rightarrow>
          (let n = (if 0 \<le> e then int m * 2 ^ nat e else int m div 2 ^ nat (- e))
           in Inr (if s then - n else n)))"

text \<open>Sign and numerator over a power of two, for comparisons by value.\<close>

definition float_cmp_key :: "pyfloat \<Rightarrow> int \<Rightarrow> int" where
  "float_cmp_key f k = (case f of FFin s m e \<Rightarrow> (if s then - 1 else 1) * int m * 2 ^ nat (e + k) | _ \<Rightarrow> 0)"

definition float_eq :: "pyfloat \<Rightarrow> pyfloat \<Rightarrow> bool" where
  "float_eq f g =
     (case (f, g) of
        (FInf s, FInf t) \<Rightarrow> s = t
      | (FFin s m e, FFin t n x) \<Rightarrow>
          (let k = max 0 (max (- e) (- x)) in float_cmp_key f k = float_cmp_key g k)
      | _ \<Rightarrow> False)"

definition float_eq_int :: "pyfloat \<Rightarrow> int \<Rightarrow> bool" where
  "float_eq_int f i = float_eq f (FFin (i < 0) (nat \<bar>i\<bar>) 0)"

section \<open>repr(float)\<close>

text \<open>
  The magnitude \<open>m * 2 ^ e\<close> as a ratio, the position \<open>n\<close> of its decimal point
  (\<open>10 ^ (n - 1) \<le> m * 2 ^ e < 10 ^ n\<close>), and the interval of numbers that round to it.
\<close>

definition ratio_of :: "nat \<Rightarrow> int \<Rightarrow> nat \<times> nat" where
  "ratio_of m e = (m * 2 ^ nat e, 2 ^ nat (- e))"

definition decimal_point :: "nat \<times> nat \<Rightarrow> int" where
  "decimal_point r =
     (case r of (a, b) \<Rightarrow>
        if b \<le> a then int (length (digits (a div b)))
        else 1 - int (length (digits ((b - 1) div a))))"

text \<open>
  Four times the bounds of the rounding interval, over the same denominator as the value:
  half a unit in the last place above; below also, except a quarter at a power of two.
\<close>

definition rounds_back :: "nat \<Rightarrow> int \<Rightarrow> nat \<Rightarrow> nat \<Rightarrow> bool" where
  "rounds_back m e c d =
     (let (a, b) = ratio_of 1 e;
          lo = (if m = 2 ^ 52 \<and> - 1074 < e then 4 * m - 1 else 4 * m - 2);
          hi = 4 * m + 2
      in if even m then lo * a * d \<le> 4 * c * b \<and> 4 * c * b \<le> hi * a * d
         else lo * a * d < 4 * c * b \<and> 4 * c * b < hi * a * d)"

text \<open>
  The best \<open>k\<close>-digit candidate: the two \<open>k\<close>-digit decimals around the value that round
  back to it, the nearer one first, the even one on a tie.
\<close>

definition candidate :: "nat \<Rightarrow> int \<Rightarrow> int \<Rightarrow> nat \<Rightarrow> nat option" where
  "candidate m e n k =
     (let (a, b) = ratio_of m e;
          up = 10 ^ nat (int k - n); dn = 10 ^ nat (n - int k);
          q = (a * up) div (b * dn); r = (a * up) mod (b * dn);
          ok = (\<lambda>c. rounds_back m e (c * dn) up)
      in if ok q \<and> ok (q + 1)
           then Some (if 2 * r < b * dn \<or> (2 * r = b * dn \<and> even q) then q else q + 1)
         else if ok q then Some q
         else if ok (q + 1) then Some (q + 1)
         else None)"

fun first_candidate :: "nat \<Rightarrow> int \<Rightarrow> int \<Rightarrow> nat list \<Rightarrow> (nat \<times> nat) option" where
  "first_candidate m e n [] = None"
| "first_candidate m e n (k # ks) =
     (case candidate m e n k of Some c \<Rightarrow> Some (c, k) | None \<Rightarrow> first_candidate m e n ks)"

definition strip_zeros :: "nat list \<Rightarrow> nat list" where
  "strip_zeros ds = rev (dropWhile (\<lambda>d. d = 0) (rev ds))"

text \<open>Shortest digits and decimal point of a positive float (17 digits always suffice).\<close>

definition shortest_repr :: "nat \<Rightarrow> int \<Rightarrow> nat list \<times> int" where
  "shortest_repr m e =
     (let n = decimal_point (ratio_of m e)
      in case first_candidate m e n [1..<18] of
           None \<Rightarrow> ([], n)
         | Some (c, k) \<Rightarrow>
             (let ds = digits c in (strip_zeros ds, n + (int (length ds) - int k))))"

definition digit_chars :: "nat list \<Rightarrow> ustr" where
  "digit_chars ds = map (\<lambda>d. d + 48) ds"

text \<open>\<open>str(i)\<close> for a Python int.\<close>

definition str_nat :: "nat \<Rightarrow> ustr" where
  "str_nat n = (if n = 0 then u ''0'' else digit_chars (digits n))"

definition str_int :: "int \<Rightarrow> ustr" where
  "str_int i = (if i < 0 then u ''-'' @ str_nat (nat (- i)) else str_nat (nat i))"

text \<open>CPython's \<open>repr\<close> layout: plain for \<open>-4 < n \<le> 16\<close>, else with an exponent of two digits.\<close>

definition repr_layout :: "nat list \<Rightarrow> int \<Rightarrow> ustr" where
  "repr_layout ds n =
     (let k = length ds; cs = digit_chars ds in
      if - 4 < n \<and> n \<le> 16 then
        (if n \<le> 0 then u ''0.'' @ replicate (nat (- n)) 48 @ cs
         else if int k \<le> n then cs @ replicate (nat n - k) 48 @ u ''.0''
         else take (nat n) cs @ u ''.'' @ drop (nat n) cs)
      else
        (let x = n - 1;
             xs = str_nat (nat \<bar>x\<bar>);
             pad = (if length xs < 2 then u ''0'' @ xs else xs)
         in take 1 cs @ (if k = 1 then [] else u ''.'' @ drop 1 cs)
            @ u ''e'' @ (if x < 0 then u ''-'' else u ''+'') @ pad))"

definition repr_float :: "nat \<Rightarrow> int \<Rightarrow> ustr" where
  "repr_float m e =
     (if m = 0 then u ''0.0'' else case shortest_repr m e of (ds, n) \<Rightarrow> repr_layout ds n)"

end
