(* ===== verification/Py_Value.thy ===== *)
theory Py_Value
  imports Py_Float
begin

text \<open>
  The Python values the verifier receives: what JSON decodes to. A \<open>dict\<close> keeps its
  insertion order, so it is an association list with distinct string keys (\<open>wf_val\<close>).
  With them: \<open>dict.get\<close> and \<open>in\<close>, Python's \<open>==\<close> (numbers by value, \<open>True == 1\<close>,
  dicts without order), truth testing, \<open>int(...)\<close> and \<open>str(...)\<close>.
\<close>

datatype pyval =
    PNone
  | PBool bool
  | PInt int
  | PFloat pyfloat
  | PStr ustr
  | PList "pyval list"
  | PDict "(ustr \<times> pyval) list"

type_synonym dict = "(ustr \<times> pyval) list"

section \<open>Dictionaries\<close>

definition has :: "dict \<Rightarrow> ustr \<Rightarrow> bool" where
  "has d k \<longleftrightarrow> k \<in> fst ` set d"

definition get_or :: "pyval \<Rightarrow> dict \<Rightarrow> ustr \<Rightarrow> pyval" where
  "get_or v d k = (case map_of d k of Some w \<Rightarrow> w | None \<Rightarrow> v)"

text \<open>\<open>d.get(k)\<close>\<close>

abbreviation get :: "dict \<Rightarrow> ustr \<Rightarrow> pyval" where
  "get \<equiv> get_or PNone"

text \<open>\<open>d[k]\<close>\<close>

definition item :: "dict \<Rightarrow> ustr \<Rightarrow> pyval res" where
  "item d k = (case map_of d k of Some w \<Rightarrow> Inr w | None \<Rightarrow> Inl KeyError)"

definition without :: "ustr \<Rightarrow> dict \<Rightarrow> dict" where
  "without k d = filter (\<lambda>(k', v). k' \<noteq> k) d"

lemma has_Nil [simp]: "\<not> has [] k"
  by (simp add: has_def)

lemma has_Cons [simp]: "has ((k', v) # d) k \<longleftrightarrow> k = k' \<or> has d k"
  by (auto simp: has_def)

lemma get_or_Nil [simp]: "get_or v [] k = v"
  by (simp add: get_or_def)

lemma get_or_Cons [simp]: "get_or v ((k', w) # d) k = (if k = k' then w else get_or v d k)"
  by (simp add: get_or_def)

lemma item_Nil [simp]: "item [] k = Inl KeyError"
  by (simp add: item_def)

lemma item_Cons [simp]: "item ((k', w) # d) k = (if k = k' then Inr w else item d k)"
  by (simp add: item_def)

lemma without_Nil [simp]: "without k [] = []"
  by (simp add: without_def)

lemma without_Cons [simp]:
  "without k ((k', v) # d) = (if k' = k then without k d else (k', v) # without k d)"
  by (simp add: without_def)

lemma not_has_get_or [simp]: "\<not> has d k \<Longrightarrow> get_or v d k = v"
  by (induction d) auto

lemma has_item: "has d k \<Longrightarrow> item d k = Inr (get d k)"
  by (induction d) auto

lemma item_ok [ok_simps]: "item d k = Inr v \<longleftrightarrow> has d k \<and> get d k = v"
  by (induction d) (auto split: if_splits)

lemma item_bind_ok: "bindE (item d k) f = Inr y \<longleftrightarrow> has d k \<and> f (get d k) = Inr y"
  by (auto simp: bindE_ok item_ok)

lemma has_get_in_set: "has d k \<Longrightarrow> (k, get d k) \<in> set d"
  by (induction d) (auto split: if_splits)

lemma has_without [simp]: "has (without k d) k' \<longleftrightarrow> k' \<noteq> k \<and> has d k'"
  by (induction d) (auto split: if_splits)

lemma get_or_without [simp]: "k \<noteq> k' \<Longrightarrow> get_or v (without k d) k' = get_or v d k'"
  by (induction d) auto

lemma get_or_has: "get_or v d k = (if has d k then get d k else v)"
  by (induction d) auto

lemma get_not_PNone_has: "get d k \<noteq> PNone \<Longrightarrow> has d k"
  by (rule ccontr) simp

section \<open>Well-formed values\<close>

fun wf_val :: "pyval \<Rightarrow> bool" where
  "wf_val (PList xs) = (\<forall>x \<in> set xs. wf_val x)"
| "wf_val (PDict d) = (distinct (map fst d) \<and> (\<forall>p \<in> set d. wf_val (snd p)))"
| "wf_val _ = True"

lemma wf_val_get: "wf_val (PDict d) \<Longrightarrow> wf_val (get d k)"
  by (induction d) auto

section \<open>Equality, truth, conversions\<close>

fun py_num :: "pyval \<Rightarrow> pyfloat option" where
  "py_num (PBool b) = Some (FFin False (if b then 1 else 0) 0)"
| "py_num (PInt i) = Some (FFin (i < 0) (nat \<bar>i\<bar>) 0)"
| "py_num (PFloat f) = Some f"
| "py_num _ = None"

fun py_eq :: "pyval \<Rightarrow> pyval \<Rightarrow> bool" where
  "py_eq PNone w = (w = PNone)"
| "py_eq (PStr s) w = (w = PStr s)"
| "py_eq (PList xs) w =
     (case w of PList ys \<Rightarrow> list_all2 py_eq xs ys | _ \<Rightarrow> False)"
| "py_eq (PDict d) w =
     (case w of
        PDict d' \<Rightarrow> length d = length d' \<and>
          list_all (\<lambda>p. case map_of d' (fst p) of None \<Rightarrow> False | Some x \<Rightarrow> py_eq (snd p) x) d
      | _ \<Rightarrow> False)"
| "py_eq v w = (case (py_num v, py_num w) of (Some f, Some g) \<Rightarrow> float_eq f g | _ \<Rightarrow> False)"

lemma float_cmp_key_int [simp]: "float_cmp_key (FFin (i < 0) (nat \<bar>i\<bar>) 0) 0 = i"
  by (simp add: float_cmp_key_def)

lemma py_eq_Int [simp]: "py_eq (PInt i) (PInt j) \<longleftrightarrow> i = j"
  by (simp add: float_eq_def Let_def)

lemma py_eq_PStr_right: "py_eq v (PStr s) \<longleftrightarrow> v = PStr s"
  by (cases v) auto

lemma py_eq_PStr_left: "py_eq (PStr s) v \<longleftrightarrow> v = PStr s"
  by simp

lemma py_eq_PNone_right: "py_eq v PNone \<longleftrightarrow> v = PNone"
  by (cases v) auto

fun truthy :: "pyval \<Rightarrow> bool" where
  "truthy PNone = False"
| "truthy (PBool b) = b"
| "truthy (PInt i) = (i \<noteq> 0)"
| "truthy (PFloat f) = (case f of FFin s m e \<Rightarrow> m \<noteq> 0 | _ \<Rightarrow> True)"
| "truthy (PStr s) = (s \<noteq> [])"
| "truthy (PList xs) = (xs \<noteq> [])"
| "truthy (PDict d) = (d \<noteq> [])"

fun is_str :: "pyval \<Rightarrow> bool" where
  "is_str (PStr s) = True"
| "is_str _ = False"

fun is_dict :: "pyval \<Rightarrow> bool" where
  "is_dict (PDict d) = True"
| "is_dict _ = False"

fun is_list :: "pyval \<Rightarrow> bool" where
  "is_list (PList xs) = True"
| "is_list _ = False"

text \<open>\<open>isinstance(v, int) and not isinstance(v, bool)\<close>\<close>

fun is_int :: "pyval \<Rightarrow> bool" where
  "is_int (PInt i) = True"
| "is_int _ = False"

fun the_str :: "pyval \<Rightarrow> ustr" where
  "the_str (PStr s) = s"
| "the_str _ = []"

fun the_dict :: "pyval \<Rightarrow> dict" where
  "the_dict (PDict d) = d"
| "the_dict _ = []"

fun the_list :: "pyval \<Rightarrow> pyval list" where
  "the_list (PList xs) = xs"
| "the_list _ = []"

fun the_int :: "pyval \<Rightarrow> int" where
  "the_int (PInt i) = i"
| "the_int _ = 0"

lemma is_str_iff: "is_str v \<longleftrightarrow> (\<exists>s. v = PStr s)"
  by (cases v) auto

lemma is_dict_iff: "is_dict v \<longleftrightarrow> (\<exists>d. v = PDict d)"
  by (cases v) auto

lemma is_list_iff: "is_list v \<longleftrightarrow> (\<exists>xs. v = PList xs)"
  by (cases v) auto

lemma is_int_iff: "is_int v \<longleftrightarrow> (\<exists>i. v = PInt i)"
  by (cases v) auto

text \<open>
  \<open>int(v)\<close>. A text is an optional sign and ASCII digits, single underscores between digits, ASCII
  white space around it; \<open>py_int\<close> adds the limit of 4300 digits. (Python also reads the digits
  and spaces of other scripts; a text with such a character is taken as refused.)
\<close>

definition is_digit :: "nat \<Rightarrow> bool" where
  "is_digit c \<longleftrightarrow> 48 \<le> c \<and> c \<le> 57"

definition parse_nat :: "ustr \<Rightarrow> nat" where
  "parse_nat s = digits_value (map (\<lambda>c. c - 48) s)"

definition max_str_digits :: nat where
  "max_str_digits = 4300"

definition strip_space :: "ustr \<Rightarrow> ustr" where
  "strip_space s =
     (let space = (\<lambda>c. c = 32 \<or> 9 \<le> c \<and> c \<le> 13) in rev (dropWhile space (rev (dropWhile space s))))"

definition int_of_str :: "ustr \<Rightarrow> int res" where
  "int_of_str s =
     (let (neg, t) = (case strip_space s of c # cs \<Rightarrow> (if c = 45 then (True, cs) else if c = 43 then (False, cs) else (False, c # cs))
                       | [] \<Rightarrow> (False, []));
          groups = split_on 95 t; ds = concat groups
      in if list_all (\<lambda>g. g \<noteq> [] \<and> list_all is_digit g) groups
           then Inr (if neg then - int (parse_nat ds) else int (parse_nat ds))
         else Inl ValueError)"

fun py_int :: "pyval \<Rightarrow> int res" where
  "py_int (PInt i) = Inr i"
| "py_int (PBool b) = Inr (if b then 1 else 0)"
| "py_int (PFloat f) = int_of_float f"
| "py_int (PStr s) = ensure (length (filter is_digit s) \<le> max_str_digits) (Inl ValueError) (int_of_str s)"
| "py_int _ = Inl TypeError"

text \<open>
  \<open>str(v)\<close>. Inside containers strings are rendered by \<open>repr\<close>; every code point above
  \<open>~\<close> is taken as printable there.
\<close>

definition hex_digit :: "nat \<Rightarrow> nat" where
  "hex_digit d = (if d < 10 then d + 48 else d + 87)"

definition repr_char :: "nat \<Rightarrow> nat \<Rightarrow> ustr" where
  "repr_char q c =
     (if c = q \<or> c = 92 then [92, c]
      else if c = 9 then [92, 116]
      else if c = 10 then [92, 110]
      else if c = 13 then [92, 114]
      else if c < 32 \<or> c = 127 then [92, 120, hex_digit (c div 16), hex_digit (c mod 16)]
      else [c])"

definition repr_str :: "ustr \<Rightarrow> ustr" where
  "repr_str s =
     (let q = (if 39 \<in> set s \<and> 34 \<notin> set s then 34 else 39)
      in [q] @ concat (map (repr_char q) s) @ [q])"

definition str_float :: "pyfloat \<Rightarrow> ustr" where
  "str_float f =
     (case f of
        FNan \<Rightarrow> u ''nan''
      | FInf s \<Rightarrow> (if s then u ''-inf'' else u ''inf'')
      | FFin s m e \<Rightarrow> (if s then u ''-'' else []) @ repr_float m e)"

fun py_repr :: "pyval \<Rightarrow> ustr" where
  "py_repr PNone = u ''None''"
| "py_repr (PBool b) = (if b then u ''True'' else u ''False'')"
| "py_repr (PInt i) = str_int i"
| "py_repr (PFloat f) = str_float f"
| "py_repr (PStr s) = repr_str s"
| "py_repr (PList xs) = [91] @ join_with (u '', '') (map py_repr xs) @ [93]"
| "py_repr (PDict d) =
     [123] @ join_with (u '', '') (map (\<lambda>p. repr_str (fst p) @ u '': '' @ py_repr (snd p)) d) @ [125]"

definition py_str :: "pyval \<Rightarrow> ustr" where
  "py_str v = (case v of PStr s \<Rightarrow> s | _ \<Rightarrow> py_repr v)"

lemma py_str_PStr [simp]: "py_str (PStr s) = s"
  by (simp add: py_str_def)

text \<open>
  \<open>x in c\<close>: membership in a list, substring of a string, key of a dictionary (an unhashable
  \<open>x\<close> raises there); nothing else is a container.
\<close>

fun contains_sub :: "ustr \<Rightarrow> ustr \<Rightarrow> bool" where
  "contains_sub x [] = (x = [])"
| "contains_sub x (c # s) = (strip_prefix x (c # s) \<noteq> None \<or> contains_sub x s)"

definition py_in :: "pyval \<Rightarrow> pyval \<Rightarrow> bool res" where
  "py_in x c =
     (case c of
        PList ys \<Rightarrow> Inr (list_ex (py_eq x) ys)
      | PStr s \<Rightarrow> (case x of PStr t \<Rightarrow> Inr (contains_sub t s) | _ \<Rightarrow> Inl TypeError)
      | PDict d \<Rightarrow>
          (case x of
             PStr k \<Rightarrow> Inr (has d k)
           | PList xs \<Rightarrow> Inl TypeError
           | PDict d' \<Rightarrow> Inl TypeError
           | _ \<Rightarrow> Inr False)
      | _ \<Rightarrow> Inl TypeError)"

lemma list_ex_py_eq_PStr [simp]: "list_ex (py_eq (PStr s)) xs \<longleftrightarrow> PStr s \<in> set xs"
  by (auto simp: list_ex_iff)

lemma py_in_list [simp]: "py_in (PStr s) (PList xs) = Inr (PStr s \<in> set xs)"
  by (simp add: py_in_def)

text \<open>
  \<open>x in {...}\<close> for a set of strings: an unhashable \<open>x\<close> raises. \<open>v[k]\<close> with a string key,
  \<open>v.get(k)\<close>, a method of \<open>str\<close> applied to \<open>v\<close>, and the elements \<open>for x in v\<close> visits.
\<close>

definition hashable :: "pyval \<Rightarrow> bool" where
  "hashable v \<longleftrightarrow> \<not> is_list v \<and> \<not> is_dict v"

definition in_str_set :: "pyval \<Rightarrow> ustr list \<Rightarrow> bool res" where
  "in_str_set v xs = ensure (hashable v) (Inl TypeError) (Inr (is_str v \<and> the_str v \<in> set xs))"

definition subscript :: "pyval \<Rightarrow> ustr \<Rightarrow> pyval res" where
  "subscript v k = (case v of PDict d \<Rightarrow> item d k | _ \<Rightarrow> Inl TypeError)"

definition dict_get :: "pyval \<Rightarrow> ustr \<Rightarrow> pyval res" where
  "dict_get v k = (case v of PDict d \<Rightarrow> Inr (get d k) | _ \<Rightarrow> Inl AttributeError)"

definition str_of :: "pyval \<Rightarrow> ustr res" where
  "str_of v = (case v of PStr s \<Rightarrow> Inr s | _ \<Rightarrow> Inl AttributeError)"

definition py_iter :: "pyval \<Rightarrow> pyval list res" where
  "py_iter v =
     (case v of
        PList xs \<Rightarrow> Inr xs
      | PDict d \<Rightarrow> Inr (map (PStr \<circ> fst) d)
      | PStr s \<Rightarrow> Inr (map (\<lambda>c. PStr [c]) s)
      | _ \<Rightarrow> Inl TypeError)"

text \<open>\<open>v or w\<close>\<close>

definition py_or :: "pyval \<Rightarrow> pyval \<Rightarrow> pyval" where
  "py_or v w = (if truthy v then v else w)"

text \<open>\<open>set(xs)\<close> of a value, and \<open><=\<close> of two sets of hashable values.\<close>

definition py_set :: "pyval \<Rightarrow> pyval list res" where
  "py_set v = bindE (py_iter v) (\<lambda>xs. ensure (list_all hashable xs) (Inl TypeError) (Inr xs))"

definition py_subset :: "pyval list \<Rightarrow> pyval list \<Rightarrow> bool" where
  "py_subset xs ys = list_all (\<lambda>x. list_ex (py_eq x) ys) xs"

lemma subscript_PDict [simp]: "subscript (PDict d) k = item d k"
  by (simp add: subscript_def)

lemma dict_get_PDict [simp]: "dict_get (PDict d) k = Inr (get d k)"
  by (simp add: dict_get_def)

lemma str_of_PStr [simp]: "str_of (PStr s) = Inr s"
  by (simp add: str_of_def)

lemma str_of_ok [ok_simps]: "str_of v = Inr s \<longleftrightarrow> v = PStr s"
  by (cases v) (auto simp: str_of_def)

lemma in_str_set_PStr [simp]: "in_str_set (PStr s) xs = Inr (s \<in> set xs)"
  by (simp add: in_str_set_def hashable_def)

lemma in_str_set_True [ok_simps]: "in_str_set v xs = Inr True \<longleftrightarrow> (\<exists>s \<in> set xs. v = PStr s)"
  by (cases v) (auto simp: in_str_set_def hashable_def)

lemma py_iter_PList [simp]: "py_iter (PList xs) = Inr xs"
  by (simp add: py_iter_def)

lemma py_set_strs: "list_all is_str xs \<Longrightarrow> py_set (PList xs) = Inr xs"
proof -
  assume "list_all is_str xs"
  then have "list_all hashable xs" by (auto simp: list_all_iff hashable_def is_str_iff)
  then show ?thesis by (simp add: py_set_def)
qed

lemma py_subset_strs: "list_all is_str xs \<Longrightarrow> py_subset xs ys \<longleftrightarrow> set xs \<subseteq> set ys"
proof -
  assume strs: "list_all is_str xs"
  have "list_ex (py_eq x) ys \<longleftrightarrow> x \<in> set ys" if "x \<in> set xs" for x
  proof -
    obtain s where "x = PStr s" using strs \<open>x \<in> set xs\<close> by (auto simp: list_all_iff is_str_iff)
    then show ?thesis by simp
  qed
  then show ?thesis by (auto simp: py_subset_def list_all_iff)
qed

text \<open>\<open>v < 0\<close> for a number\<close>

fun py_negative :: "pyval \<Rightarrow> bool" where
  "py_negative (PInt i) = (i < 0)"
| "py_negative (PFloat f) = (case f of FNan \<Rightarrow> False | FInf s \<Rightarrow> s | FFin s m e \<Rightarrow> s \<and> m \<noteq> 0)"
| "py_negative _ = False"

lemma py_int_err: "py_int v = Inl e \<Longrightarrow> e = TypeError \<or> e = ValueError \<or> e = OverflowError"
  by (cases v) (auto simp: int_of_float_def int_of_str_def Let_def ensure_def split: pyfloat.splits if_splits list.splits prod.splits)

end
