(* ===== verification/Utf.thy ===== *)
theory Utf
  imports Prelude
begin

text \<open>
  \<open>str.encode("utf-8")\<close>, \<open>bytes.decode("utf-8")\<close>, \<open>str.encode("ascii")\<close> and the UTF-16
  code units of \<open>str.encode("utf-16-be")\<close>. A lone surrogate has no encoding: Python raises
  \<open>UnicodeEncodeError\<close>, a \<open>ValueError\<close>.
\<close>

definition surrogate :: "nat \<Rightarrow> bool" where
  "surrogate c \<longleftrightarrow> 0xD800 \<le> c \<and> c < 0xE000"

definition scalar :: "nat \<Rightarrow> bool" where
  "scalar c \<longleftrightarrow> \<not> surrogate c \<and> c < 0x110000"

definition utf8_char :: "nat \<Rightarrow> nat list" where
  "utf8_char c =
     (if c < 0x80 then [c]
      else if c < 0x800 then [0xC0 + c div 64, 0x80 + c mod 64]
      else if c < 0x10000 then [0xE0 + c div 4096, 0x80 + c div 64 mod 64, 0x80 + c mod 64]
      else [0xF0 + c div 262144, 0x80 + c div 4096 mod 64, 0x80 + c div 64 mod 64, 0x80 + c mod 64])"

definition utf8_encode :: "ustr \<Rightarrow> bytes res" where
  "utf8_encode s =
     (if list_all scalar s then Inr (map word_of_nat (concat (map utf8_char s)))
      else Inl UnicodeError)"

definition ascii_encode :: "ustr \<Rightarrow> bytes res" where
  "ascii_encode s = (if list_all (\<lambda>c. c < 128) s then Inr (map word_of_nat s) else Inl UnicodeError)"

definition cont :: "nat \<Rightarrow> bool" where
  "cont b \<longleftrightarrow> 0x80 \<le> b \<and> b < 0xC0"

text \<open>Strict decoding: no overlong form, no surrogate, nothing above U+10FFFF.\<close>

fun utf8_decode_nat :: "nat list \<Rightarrow> ustr res" where
  "utf8_decode_nat [] = Inr []"
| "utf8_decode_nat (a # bs) =
     (if a < 0x80 then bindE (utf8_decode_nat bs) (\<lambda>r. Inr (a # r))
      else if 0xC2 \<le> a \<and> a < 0xE0 then
        (case bs of b # cs \<Rightarrow>
           if cont b then bindE (utf8_decode_nat cs) (\<lambda>r. Inr (((a - 0xC0) * 64 + (b - 0x80)) # r))
           else Inl UnicodeError
         | [] \<Rightarrow> Inl UnicodeError)
      else if 0xE0 \<le> a \<and> a < 0xF0 then
        (case bs of b # c # cs \<Rightarrow>
           (let p = (a - 0xE0) * 4096 + (b - 0x80) * 64 + (c - 0x80)
            in if cont b \<and> cont c \<and> 0x800 \<le> p \<and> scalar p
               then bindE (utf8_decode_nat cs) (\<lambda>r. Inr (p # r)) else Inl UnicodeError)
         | _ \<Rightarrow> Inl UnicodeError)
      else if 0xF0 \<le> a \<and> a < 0xF5 then
        (case bs of b # c # d # cs \<Rightarrow>
           (let p = (a - 0xF0) * 262144 + (b - 0x80) * 4096 + (c - 0x80) * 64 + (d - 0x80)
            in if cont b \<and> cont c \<and> cont d \<and> 0x10000 \<le> p \<and> scalar p
               then bindE (utf8_decode_nat cs) (\<lambda>r. Inr (p # r)) else Inl UnicodeError)
         | _ \<Rightarrow> Inl UnicodeError)
      else Inl UnicodeError)"

declare utf8_decode_nat.simps(2) [simp del]

definition utf8_decode :: "bytes \<Rightarrow> ustr res" where
  "utf8_decode b = utf8_decode_nat (map unat b)"

definition utf16_char :: "nat \<Rightarrow> nat list" where
  "utf16_char c =
     (if c < 0x10000 then [c]
      else [0xD800 + (c - 0x10000) div 1024, 0xDC00 + (c - 0x10000) mod 1024])"

definition utf16_units :: "ustr \<Rightarrow> nat list res" where
  "utf16_units s = (if list_all scalar s then Inr (concat (map utf16_char s)) else Inl UnicodeError)"

lemma utf8_char_lt: "c < 0x110000 \<Longrightarrow> b \<in> set (utf8_char c) \<Longrightarrow> b < 256"
  by (auto simp: utf8_char_def split: if_splits)

lemma decode_1: "a < 0x80 \<Longrightarrow> utf8_decode_nat (a # bs) = bindE (utf8_decode_nat bs) (\<lambda>r. Inr (a # r))"
  by (simp add: utf8_decode_nat.simps(2))

lemma decode_2:
  "2 \<le> x \<Longrightarrow> x < 32 \<Longrightarrow> y < 64 \<Longrightarrow>
   utf8_decode_nat ((0xC0 + x) # (0x80 + y) # cs) = bindE (utf8_decode_nat cs) (\<lambda>r. Inr ((x * 64 + y) # r))"
  by (simp add: utf8_decode_nat.simps(2) [of "0xC0 + x"] cont_def)

lemma decode_3:
  "x < 16 \<Longrightarrow> y < 64 \<Longrightarrow> z < 64 \<Longrightarrow> p = x * 4096 + y * 64 + z \<Longrightarrow> 0x800 \<le> p \<Longrightarrow> scalar p \<Longrightarrow>
   utf8_decode_nat ((0xE0 + x) # (0x80 + y) # (0x80 + z) # cs) = bindE (utf8_decode_nat cs) (\<lambda>r. Inr (p # r))"
  by (simp add: utf8_decode_nat.simps(2) [of "0xE0 + x"] cont_def)

lemma decode_4:
  "x < 5 \<Longrightarrow> y < 64 \<Longrightarrow> z < 64 \<Longrightarrow> w < 64 \<Longrightarrow> p = x * 262144 + y * 4096 + z * 64 + w \<Longrightarrow>
   0x10000 \<le> p \<Longrightarrow> scalar p \<Longrightarrow>
   utf8_decode_nat ((0xF0 + x) # (0x80 + y) # (0x80 + z) # (0x80 + w) # cs)
     = bindE (utf8_decode_nat cs) (\<lambda>r. Inr (p # r))"
  by (simp add: utf8_decode_nat.simps(2) [of "0xF0 + x"] cont_def)

lemma base64_step: "x * 64 + y mod 64 = y" if "x = y div 64" for x y :: nat
  using that by simp

lemma base64_digits:
  fixes c :: nat
  shows "c div 4096 * 4096 + c div 64 mod 64 * 64 + c mod 64 = c"
    and "c div 262144 * 262144 + c div 4096 mod 64 * 4096 + c div 64 mod 64 * 64 + c mod 64 = c"
proof -
  have a: "c div 64 * 64 + c mod 64 = c" by simp
  have b: "c div 4096 * 64 + c div 64 mod 64 = c div 64"
    by (rule base64_step) (simp add: div_mult2_eq [symmetric])
  have d: "c div 262144 * 64 + c div 4096 mod 64 = c div 4096"
    by (rule base64_step) (simp add: div_mult2_eq [symmetric])
  have "c div 4096 * 4096 + c div 64 mod 64 * 64 = (c div 4096 * 64 + c div 64 mod 64) * 64"
    by (simp add: distrib_right)
  then show e: "c div 4096 * 4096 + c div 64 mod 64 * 64 + c mod 64 = c"
    by (simp only: a b)
  have "c div 262144 * 262144 + c div 4096 mod 64 * 4096 = (c div 262144 * 64 + c div 4096 mod 64) * 4096"
    by (simp add: distrib_right)
  then show "c div 262144 * 262144 + c div 4096 mod 64 * 4096 + c div 64 mod 64 * 64 + c mod 64 = c"
    by (simp only: d e)
qed

lemma utf8_decode_char:
  assumes "scalar c"
  shows "utf8_decode_nat (utf8_char c @ r) = bindE (utf8_decode_nat r) (\<lambda>s. Inr (c # s))"
proof -
  consider "c < 0x80" | "0x80 \<le> c" "c < 0x800" | "0x800 \<le> c" "c < 0x10000" | "0x10000 \<le> c" "c < 0x110000"
    using assms unfolding scalar_def by linarith
  then show ?thesis
  proof cases
    case 1
    then show ?thesis by (simp add: utf8_char_def decode_1)
  next
    case 2
    then have "2 \<le> c div 64" "c div 64 < 32" by auto
    from decode_2 [OF this, of "c mod 64" r] show ?thesis using 2
      by (simp add: utf8_char_def)
  next
    case 3
    then have "c div 4096 < 16" by auto
    from decode_3 [OF this, of "c div 64 mod 64" "c mod 64" c r] show ?thesis
      using 3 assms base64_digits(1) [of c] by (simp add: utf8_char_def)
  next
    case 4
    then have "c div 262144 < 5" by auto
    from decode_4 [OF this, of "c div 4096 mod 64" "c div 64 mod 64" "c mod 64" c r] show ?thesis
      using 4 assms base64_digits(2) [of c] by (simp add: utf8_char_def)
  qed
qed

lemma utf8_decode_chars: "list_all scalar s \<Longrightarrow> utf8_decode_nat (concat (map utf8_char s)) = Inr s"
  by (induction s) (auto simp: utf8_decode_char)

lemma unat_utf8_bytes:
  assumes "list_all scalar s"
  shows "map unat (map word_of_nat (concat (map utf8_char s)) :: bytes) = concat (map utf8_char s)"
proof -
  have "b < 256" if "b \<in> set (concat (map utf8_char s))" for b
    using that assms by (auto simp: list_all_iff scalar_def dest: utf8_char_lt)
  then show ?thesis
    unfolding map_map by (intro map_idI) (simp add: unat_of_nat take_bit_eq_mod)
qed

lemma utf8_decode_encode:
  assumes "utf8_encode s = Inr b"
  shows "utf8_decode b = Inr s"
proof -
  from assms have s: "list_all scalar s" and b: "b = map word_of_nat (concat (map utf8_char s))"
    by (simp_all add: utf8_encode_def split: if_splits)
  show ?thesis
    unfolding utf8_decode_def b unat_utf8_bytes [OF s] by (rule utf8_decode_chars [OF s])
qed

lemma utf8_encode_ok: "list_all scalar s \<Longrightarrow> \<exists>b. utf8_encode s = Inr b"
  by (simp add: utf8_encode_def)

lemma utf8_encode_err: "\<not> list_all scalar s \<Longrightarrow> utf8_encode s = Inl UnicodeError"
  by (simp add: utf8_encode_def)

lemma ascii_scalar: "c < 128 \<Longrightarrow> scalar c"
  by (simp add: scalar_def surrogate_def)

interpretation utf8: codec "\<lambda>s. projr (utf8_encode s)" utf8_decode "list_all scalar"
proof
  fix s
  assume "list_all scalar s"
  then show "utf8_decode (projr (utf8_encode s)) = Inr s"
    using utf8_encode_ok [of s] utf8_decode_encode by force
qed

end
