(* ===== verification/Json.thy ===== *)
theory Json
  imports Py_Value Utf
begin

text \<open>
  Python's \<open>json.loads\<close> as the code calls it: strict mode, with an \<open>object_pairs_hook\<close>
  (called on the member list of every object) and a \<open>parse_constant\<close> hook (called on
  \<open>NaN\<close>, \<open>Infinity\<close> and \<open>-Infinity\<close>). The parser is a recursive descent over the
  code points; its fuel is twice the text's length, and \<open>json_loads_total\<close> proves that
  enough. Python's recursion limit is not modelled.
\<close>

type_synonym pairs_hook = "dict \<Rightarrow> dict res"
type_synonym const_hook = "ustr \<Rightarrow> pyval res"

section \<open>Tokens\<close>

definition is_ws :: "nat \<Rightarrow> bool" where
  "is_ws c \<longleftrightarrow> c = 32 \<or> c = 9 \<or> c = 10 \<or> c = 13"

definition skip_ws :: "ustr \<Rightarrow> ustr" where
  "skip_ws s = dropWhile is_ws s"

definition hex_val :: "nat \<Rightarrow> nat option" where
  "hex_val c =
     (if 48 \<le> c \<and> c \<le> 57 then Some (c - 48)
      else if 97 \<le> c \<and> c \<le> 102 then Some (c - 87)
      else if 65 \<le> c \<and> c \<le> 70 then Some (c - 55)
      else None)"

definition hex4 :: "ustr \<Rightarrow> (nat \<times> ustr) option" where
  "hex4 s =
     (case s of
        a # b # c # d # r \<Rightarrow>
          (case (hex_val a, hex_val b, hex_val c, hex_val d) of
             (Some w, Some x, Some y, Some z) \<Rightarrow> Some (w * 4096 + x * 256 + y * 16 + z, r)
           | _ \<Rightarrow> None)
      | _ \<Rightarrow> None)"

definition simple_escape :: "nat \<Rightarrow> nat option" where
  "simple_escape c =
     (if c = 34 \<or> c = 92 \<or> c = 47 then Some c
      else if c = 98 then Some 8
      else if c = 102 then Some 12
      else if c = 110 then Some 10
      else if c = 114 then Some 13
      else if c = 116 then Some 9
      else None)"

text \<open>One character of a string body: its code point and the rest, or the end of the body.\<close>

datatype str_item = Char nat ustr | Close ustr | Bad

text \<open>A \<open>backslash u\<close> escape; a high surrogate followed by an escaped low one is one code point.\<close>

definition unicode_escape :: "ustr \<Rightarrow> str_item" where
  "unicode_escape s =
     (case hex4 s of
        None \<Rightarrow> Bad
      | Some (h, r) \<Rightarrow>
          (if 0xD800 \<le> h \<and> h < 0xDC00 then
             (case r of
                a # b # r' \<Rightarrow>
                  (if a = 92 \<and> b = 117 then
                     (case hex4 r' of
                        None \<Rightarrow> Bad
                      | Some (l, r'') \<Rightarrow>
                          (if 0xDC00 \<le> l \<and> l < 0xE000
                           then Char (0x10000 + (h - 0xD800) * 1024 + (l - 0xDC00)) r''
                           else Char h r))
                   else Char h r)
              | _ \<Rightarrow> Char h r)
           else Char h r))"

definition str_next :: "ustr \<Rightarrow> str_item" where
  "str_next s =
     (case s of
        [] \<Rightarrow> Bad
      | c # r \<Rightarrow>
          (if c = 34 then Close r
           else if c = 92 then
             (case r of
                [] \<Rightarrow> Bad
              | d # r' \<Rightarrow>
                  (if d = 117 then unicode_escape r'
                   else case simple_escape d of None \<Rightarrow> Bad | Some x \<Rightarrow> Char x r'))
           else if c < 32 then Bad
           else Char c r))"

lemma hex4_length: "hex4 s = Some (h, r) \<Longrightarrow> length r < length s"
  by (auto simp: hex4_def split: list.splits option.splits)

lemma unicode_escape_length: "unicode_escape s = Char c r \<Longrightarrow> length r < length s"
  by (auto simp: unicode_escape_def dest!: hex4_length split: list.splits option.splits if_splits)

lemma str_next_Char_length: "str_next s = Char c r \<Longrightarrow> length r < length s"
  by (auto simp: str_next_def dest!: unicode_escape_length split: list.splits option.splits if_splits)

lemma str_next_Close_length: "str_next s = Close r \<Longrightarrow> length r < length s"
  by (auto simp: str_next_def unicode_escape_def split: list.splits option.splits if_splits)

text \<open>The body of a string, after its opening quote.\<close>

function scan_str :: "ustr \<Rightarrow> (ustr \<times> ustr) res" where
  "scan_str s =
     (case str_next s of
        Bad \<Rightarrow> Inl JSONDecodeError
      | Close r \<Rightarrow> Inr ([], r)
      | Char c r \<Rightarrow> bindE (scan_str r) (\<lambda>(cs, r'). Inr (c # cs, r')))"
  by pat_completeness auto
termination
  by (relation "measure length") (auto dest: str_next_Char_length)

declare scan_str.simps [simp del]

text \<open>A number: integer part, then an optional fraction and exponent.\<close>

definition int_digits :: "ustr \<Rightarrow> (ustr \<times> ustr) option" where
  "int_digits s =
     (case s of
        [] \<Rightarrow> None
      | c # r \<Rightarrow>
          (if c = 48 then Some ([48], r)
           else if is_digit c then Some (takeWhile is_digit s, dropWhile is_digit s)
           else None))"

definition frac_digits :: "ustr \<Rightarrow> ustr \<times> ustr" where
  "frac_digits s =
     (case s of
        a # b # r \<Rightarrow>
          (if a = 46 \<and> is_digit b then (takeWhile is_digit (b # r), dropWhile is_digit (b # r)) else ([], s))
      | _ \<Rightarrow> ([], s))"

definition exp_part :: "ustr \<Rightarrow> int option \<times> ustr" where
  "exp_part s =
     (case s of
        a # r \<Rightarrow>
          (if a = 101 \<or> a = 69 then
             (let (neg, t) = (case r of b # r' \<Rightarrow> (if b = 45 then (True, r') else if b = 43 then (False, r') else (False, r))
                              | [] \<Rightarrow> (False, []));
                  ds = takeWhile is_digit t
              in if ds = [] then (None, s)
                 else (Some (if neg then - int (parse_nat ds) else int (parse_nat ds)), dropWhile is_digit t))
           else (None, s))
      | [] \<Rightarrow> (None, s))"

definition scan_number :: "bool \<Rightarrow> ustr \<Rightarrow> (pyval \<times> ustr) res" where
  "scan_number neg s =
     (case int_digits s of
        None \<Rightarrow> Inl JSONDecodeError
      | Some (ds, r) \<Rightarrow>
          (let (fs, r1) = frac_digits r; (x, r2) = exp_part r1
           in if fs = [] \<and> x = None then
                (if max_str_digits < length ds then Inl ValueError
                 else Inr (PInt (if neg then - int (parse_nat ds) else int (parse_nat ds)), r2))
              else
                Inr (PFloat (float_of_decimal neg (parse_nat (ds @ fs))
                       ((case x of None \<Rightarrow> 0 | Some e \<Rightarrow> e) - int (length fs))), r2)))"

text \<open>The six literal names: three of JSON and three that go through the \<open>parse_constant\<close> hook.\<close>

fun first_match :: "(ustr \<times> pyval res) list \<Rightarrow> ustr \<Rightarrow> (pyval \<times> ustr) res option" where
  "first_match [] s = None"
| "first_match ((p, m) # ps) s =
     (case strip_prefix p s of
        Some r \<Rightarrow> Some (bindE m (\<lambda>v. Inr (v, r)))
      | None \<Rightarrow> first_match ps s)"

definition scan_const :: "const_hook \<Rightarrow> ustr \<Rightarrow> (pyval \<times> ustr) res option" where
  "scan_const ch =
     first_match
       [(u ''null'', Inr PNone), (u ''true'', Inr (PBool True)), (u ''false'', Inr (PBool False)),
        (u ''NaN'', ch (u ''NaN'')), (u ''Infinity'', ch (u ''Infinity'')),
        (u ''-Infinity'', ch (u ''-Infinity''))]"

section \<open>Values\<close>

definition uncons :: "ustr \<Rightarrow> (nat \<times> ustr) res" where
  "uncons s = (case s of [] \<Rightarrow> Inl JSONDecodeError | c # r \<Rightarrow> Inr (c, r))"

definition next_tok :: "ustr \<Rightarrow> (nat \<times> ustr) res" where
  "next_tok s = uncons (skip_ws s)"

definition scan_scalar :: "const_hook \<Rightarrow> nat \<Rightarrow> ustr \<Rightarrow> (pyval \<times> ustr) res" where
  "scan_scalar ch c r =
     (case scan_const ch (c # r) of
        Some m \<Rightarrow> m
      | None \<Rightarrow> (if c = 45 then scan_number True r else scan_number False (c # r)))"

fun parse_value :: "nat \<Rightarrow> pairs_hook \<Rightarrow> const_hook \<Rightarrow> ustr \<Rightarrow> (pyval \<times> ustr) res"
  and parse_members :: "nat \<Rightarrow> pairs_hook \<Rightarrow> const_hook \<Rightarrow> dict \<Rightarrow> ustr \<Rightarrow> (pyval \<times> ustr) res"
  and parse_elements :: "nat \<Rightarrow> pairs_hook \<Rightarrow> const_hook \<Rightarrow> pyval list \<Rightarrow> ustr \<Rightarrow> (pyval \<times> ustr) res"
where
  "parse_value 0 ph ch s = Inl OutOfFuel"
| "parse_value (Suc f) ph ch s =
     bindE (uncons s) (\<lambda>(c, r).
       if c = 34 then bindE (scan_str r) (\<lambda>(k, r'). Inr (PStr k, r'))
       else if c = 123 then
         bindE (next_tok r) (\<lambda>(d, r').
           if d = 125 then bindE (ph []) (\<lambda>m. Inr (PDict m, r'))
           else parse_members f ph ch [] (d # r'))
       else if c = 91 then
         bindE (next_tok r) (\<lambda>(d, r').
           if d = 93 then Inr (PList [], r') else parse_elements f ph ch [] (d # r'))
       else scan_scalar ch c r)"
| "parse_members 0 ph ch acc s = Inl OutOfFuel"
| "parse_members (Suc f) ph ch acc s =
     bindE (uncons s) (\<lambda>(c, r).
       ensure (c = 34) (Inl JSONDecodeError) (
       bindE (scan_str r) (\<lambda>(k, r1).
       bindE (next_tok r1) (\<lambda>(d, r2).
       ensure (d = 58) (Inl JSONDecodeError) (
       bindE (parse_value f ph ch (skip_ws r2)) (\<lambda>(v, r3).
       bindE (next_tok r3) (\<lambda>(e, r4).
         if e = 125 then bindE (ph (acc @ [(k, v)])) (\<lambda>m. Inr (PDict m, r4))
         else ensure (e = 44) (Inl JSONDecodeError)
                (parse_members f ph ch (acc @ [(k, v)]) (skip_ws r4)))))))))"
| "parse_elements 0 ph ch acc s = Inl OutOfFuel"
| "parse_elements (Suc f) ph ch acc s =
     bindE (parse_value f ph ch s) (\<lambda>(v, r).
     bindE (next_tok r) (\<lambda>(e, r').
       if e = 93 then Inr (PList (acc @ [v]), r')
       else ensure (e = 44) (Inl JSONDecodeError)
              (parse_elements f ph ch (acc @ [v]) (skip_ws r'))))"

definition json_loads :: "pairs_hook \<Rightarrow> const_hook \<Rightarrow> ustr \<Rightarrow> pyval res" where
  "json_loads ph ch s =
     (let t = skip_ws s in
      bindE (parse_value (2 * length t + 1) ph ch t) (\<lambda>(v, r).
        ensure (skip_ws r = []) (Inl JSONDecodeError) (Inr v)))"

section \<open>Consumption and enough fuel\<close>

lemma skip_ws_length: "length (skip_ws s) \<le> length s"
  by (simp add: skip_ws_def length_dropWhile_le)

lemma skip_ws_Cons_length: "skip_ws s = c # r \<Longrightarrow> length r < length s"
  using skip_ws_length [of s] by simp

lemma scan_str_length: "scan_str s = Inr (k, r) \<Longrightarrow> length r < length s"
proof (induction s arbitrary: k r rule: scan_str.induct)
  case (1 s)
  show ?case
  proof (cases "str_next s")
    case (Char c t)
    with "1.prems" obtain cs where "scan_str t = Inr (cs, r)"
      by (subst (asm) scan_str.simps) (auto simp: ok_simps)
    with "1.IH" [OF Char] str_next_Char_length [OF Char] show ?thesis by fastforce
  next
    case (Close t)
    with "1.prems" have "r = t" by (subst (asm) scan_str.simps) auto
    with str_next_Close_length [OF Close] show ?thesis by simp
  qed (use "1.prems" in \<open>subst (asm) scan_str.simps, simp\<close>)
qed

lemma scan_str_err: "scan_str s = Inl e \<Longrightarrow> e = JSONDecodeError"
proof (induction s rule: scan_str.induct)
  case (1 s)
  then show ?case
    by (subst (asm) (2) scan_str.simps) (auto simp: err_simps split: str_item.splits)
qed

lemma dropWhile_le_Suc [simp]:
  "length (dropWhile P xs) \<le> length xs"
  "length (dropWhile P xs) \<le> Suc (length xs)"
  "length (dropWhile P xs) \<le> Suc (Suc (length xs))"
  using length_dropWhile_le [of P xs] by linarith+

lemma int_digits_length: "int_digits s = Some (ds, r) \<Longrightarrow> length r < length s"
  by (auto simp: int_digits_def length_dropWhile_le le_imp_less_Suc split: list.splits if_splits)

lemma frac_digits_length: "frac_digits s = (fs, r) \<Longrightarrow> length r \<le> length s"
  by (auto simp: frac_digits_def split: list.splits if_splits)

lemma exp_part_length: "exp_part s = (x, r) \<Longrightarrow> length r \<le> length s"
  by (auto simp: exp_part_def Let_def split: list.splits if_splits prod.splits)

lemma scan_number_length: "scan_number neg s = Inr (v, r) \<Longrightarrow> length r < length s"
  by (fastforce simp: scan_number_def Let_def dest!: int_digits_length frac_digits_length exp_part_length
      split: option.splits prod.splits if_splits)

lemma scan_number_err: "scan_number neg s = Inl e \<Longrightarrow> e = JSONDecodeError \<or> e = ValueError"
  by (auto simp: scan_number_def Let_def split: option.splits prod.splits if_splits)

lemma uncons_ok [ok_simps]: "uncons s = Inr (c, r) \<longleftrightarrow> s = c # r"
  by (auto simp: uncons_def split: list.splits)

lemma uncons_err [err_simps]: "uncons s = Inl e \<longleftrightarrow> s = [] \<and> e = JSONDecodeError"
  by (auto simp: uncons_def split: list.splits)

lemma next_tok_length: "next_tok s = Inr (c, r) \<Longrightarrow> length r < length s"
  by (simp add: next_tok_def ok_simps skip_ws_Cons_length)

lemma next_tok_err: "next_tok s = Inl e \<Longrightarrow> e = JSONDecodeError"
  by (simp add: next_tok_def err_simps)

lemma scan_const_length: "scan_const ch s = Some (Inr (v, r)) \<Longrightarrow> length r < length s"
  by (auto simp: scan_const_def ok_simps u_def split: option.splits)

lemma scan_const_err: "scan_const ch s = Some (Inl e) \<Longrightarrow> \<exists>c. ch c = Inl e"
  by (auto simp: scan_const_def err_simps split: option.splits if_splits)

lemma scan_scalar_length: "scan_scalar ch c s = Inr (v, r) \<Longrightarrow> length r < Suc (length s)"
  by (auto simp: scan_scalar_def dest!: scan_const_length scan_number_length split: option.splits if_splits)

lemma scan_scalar_err:
  "scan_scalar ch c s = Inl e \<Longrightarrow> e = JSONDecodeError \<or> e = ValueError \<or> (\<exists>c. ch c = Inl e)"
  by (auto simp: scan_scalar_def dest!: scan_const_err scan_number_err split: option.splits if_splits)

text \<open>Every production consumes input.\<close>

lemma less_skip_ws: "n < length (skip_ws s) \<Longrightarrow> n < length s"
  using skip_ws_length [of s] by simp

lemma parse_length_all:
  "(\<forall>s v r. parse_value f ph ch s = Inr (v, r) \<longrightarrow> length r < length s) \<and>
   (\<forall>acc s v r. parse_members f ph ch acc s = Inr (v, r) \<longrightarrow> length r < length s) \<and>
   (\<forall>acc s v r. parse_elements f ph ch acc s = Inr (v, r) \<longrightarrow> length r < length s)"
proof (induction f)
  case (Suc f)
  then have IH:
    "\<And>s v r. parse_value f ph ch s = Inr (v, r) \<Longrightarrow> length r < length s"
    "\<And>acc s v r. parse_members f ph ch acc s = Inr (v, r) \<Longrightarrow> length r < length s"
    "\<And>acc s v r. parse_elements f ph ch acc s = Inr (v, r) \<Longrightarrow> length r < length s"
    by blast+
  have "length r < length s" if "parse_value (Suc f) ph ch s = Inr (v, r)" for s v r
    using that
    by (auto simp: ok_simps split: if_splits
        dest!: scan_str_length scan_scalar_length next_tok_length IH(2,3))
  moreover have "length r < length s" if "parse_members (Suc f) ph ch acc s = Inr (v, r)" for acc s v r
    using that
    by (auto simp: ok_simps split: if_splits
        dest!: scan_str_length next_tok_length IH(1,2) less_skip_ws)
  moreover have "length r < length s" if "parse_elements (Suc f) ph ch acc s = Inr (v, r)" for acc s v r
    using that
    by (auto simp: ok_simps split: if_splits
        dest!: next_tok_length IH(1,3) less_skip_ws)
  ultimately show ?case by blast
qed simp

lemmas parse_value_length = parse_length_all [THEN conjunct1, rule_format]

text \<open>What can be raised: a decoding error, or what a hook raised.\<close>

definition json_err :: "pairs_hook \<Rightarrow> const_hook \<Rightarrow> exn \<Rightarrow> bool" where
  "json_err ph ch e \<longleftrightarrow>
     e = JSONDecodeError \<or> e = ValueError \<or> (\<exists>m. ph m = Inl e) \<or> (\<exists>c. ch c = Inl e)"

lemma json_errI [intro]:
  "json_err ph ch JSONDecodeError" "json_err ph ch ValueError"
  "ph m = Inl e \<Longrightarrow> json_err ph ch e" "ch c = Inl e \<Longrightarrow> json_err ph ch e"
  by (auto simp: json_err_def)

lemma skip_ws_fuel:
  "Suc (2 * length s) \<le> f \<Longrightarrow> Suc (2 * length (skip_ws s)) \<le> f"
  "Suc (Suc (2 * length s)) \<le> f \<Longrightarrow> Suc (Suc (2 * length (skip_ws s))) \<le> f"
  using skip_ws_length [of s] by linarith+

lemma parse_err_all:
  "(\<forall>s e. 2 * length s + 1 \<le> f \<longrightarrow> parse_value f ph ch s = Inl e \<longrightarrow> json_err ph ch e) \<and>
   (\<forall>acc s e. 2 * length s + 2 \<le> f \<longrightarrow> parse_members f ph ch acc s = Inl e \<longrightarrow> json_err ph ch e) \<and>
   (\<forall>acc s e. 2 * length s + 2 \<le> f \<longrightarrow> parse_elements f ph ch acc s = Inl e \<longrightarrow> json_err ph ch e)"
proof (induction f)
  case (Suc f)
  then have IH:
    "\<And>s e. parse_value f ph ch s = Inl e \<Longrightarrow> 2 * length s + 1 \<le> f \<Longrightarrow> json_err ph ch e"
    "\<And>acc s e. parse_members f ph ch acc s = Inl e \<Longrightarrow> 2 * length s + 2 \<le> f \<Longrightarrow> json_err ph ch e"
    "\<And>acc s e. parse_elements f ph ch acc s = Inl e \<Longrightarrow> 2 * length s + 2 \<le> f \<Longrightarrow> json_err ph ch e"
    by blast+
  have "json_err ph ch e"
    if "2 * length s + 1 \<le> Suc f" "parse_value (Suc f) ph ch s = Inl e" for s e
    using that
    by (auto simp: err_simps ok_simps split: if_splits
        dest!: scan_str_err scan_scalar_err next_tok_err next_tok_length IH(2,3))
  moreover have "json_err ph ch e"
    if "2 * length s + 2 \<le> Suc f" "parse_members (Suc f) ph ch acc s = Inl e" for acc s e
    using that
    by (auto simp: err_simps ok_simps split: if_splits
        dest!: scan_str_err next_tok_err scan_str_length next_tok_length parse_value_length less_skip_ws
        intro!: skip_ws_fuel elim!: IH(1,2) [elim_format])
  moreover have "json_err ph ch e"
    if "2 * length s + 2 \<le> Suc f" "parse_elements (Suc f) ph ch acc s = Inl e" for acc s e
    using that
    by (auto simp: err_simps ok_simps split: if_splits
        intro!: skip_ws_fuel dest!: next_tok_err next_tok_length parse_value_length less_skip_ws IH(1,3))
  ultimately show ?case by blast
qed simp

text \<open>The fuel \<open>json_loads\<close> starts with is enough, whatever the text.\<close>

lemma json_loads_err: "json_loads ph ch s = Inl e \<Longrightarrow> json_err ph ch e"
  using parse_err_all [of "2 * length (skip_ws s) + 1" ph ch]
  by (auto simp: json_loads_def Let_def err_simps)

text \<open>Evaluation on a numeral fuel.\<close>

lemma parse_numeral [simp]:
  "parse_value (numeral n) ph ch s = parse_value (Suc (pred_numeral n)) ph ch s"
  "parse_members (numeral n) ph ch acc s = parse_members (Suc (pred_numeral n)) ph ch acc s"
  "parse_elements (numeral n) ph ch vs s = parse_elements (Suc (pred_numeral n)) ph ch vs s"
  by (simp_all only: numeral_eq_Suc)

text \<open>Concrete JSON texts are written with a backquote for the double quote.\<close>

definition jtext :: "string \<Rightarrow> ustr" where
  "jtext s = map (\<lambda>c. if c = CHR 0x60 then 34 else of_char c) s"

end
