(* ===== verification/Jcs.thy ===== *)
theory Jcs
  imports Json "HOL-Library.List_Lexorder" "HOL-Library.Multiset"
begin

text \<open>
  \<open>aitp_verifier/jcs.py\<close>: strict JSON parsing and the RFC 8785 canonical form. The
  serializer's two bounds (nesting depth and visited nodes) are the code's constants; the
  visit counter that the code keeps in a one-element list is passed and returned. The output
  list the code appends to is the returned text.
\<close>

section \<open>Strict parsing\<close>

fun reject_duplicate_keys_loop :: "dict \<Rightarrow> dict \<Rightarrow> dict res" where
  "reject_duplicate_keys_loop obj [] = Inr obj"
| "reject_duplicate_keys_loop obj ((key, value) # ps) =
     ensure (\<not> has obj key) (Inl JcsError) (reject_duplicate_keys_loop (obj @ [(key, value)]) ps)"

definition reject_duplicate_keys :: pairs_hook where
  "reject_duplicate_keys pairs = reject_duplicate_keys_loop [] pairs"

definition reject_constant :: const_hook where
  "reject_constant name = Inl JcsError"

definition loads_str :: "ustr \<Rightarrow> pyval res" where
  "loads_str data =
     catchE (\<lambda>e. e = JSONDecodeError)
       (json_loads reject_duplicate_keys reject_constant data)
       (\<lambda>_. Inl JcsError)"

definition loads_bytes :: "bytes \<Rightarrow> pyval res" where
  "loads_bytes data =
     bindE (catchE (\<lambda>e. e = UnicodeError) (utf8_decode data) (\<lambda>_. Inl JcsError)) loads_str"

section \<open>Numbers\<close>

text \<open>\<open>s.partition(c)\<close> without its middle component.\<close>

definition partition_at :: "nat \<Rightarrow> ustr \<Rightarrow> ustr \<times> ustr" where
  "partition_at c s = (takeWhile (\<lambda>x. x \<noteq> c) s, drop 1 (dropWhile (\<lambda>x. x \<noteq> c) s))"

definition lstrip_zeros :: "ustr \<Rightarrow> ustr" where
  "lstrip_zeros s = dropWhile (\<lambda>c. c = 48) s"

definition rstrip_zeros :: "ustr \<Rightarrow> ustr" where
  "rstrip_zeros s = rev (dropWhile (\<lambda>c. c = 48) (rev s))"

text \<open>\<open>_shortest_digits\<close> on the text of \<open>repr\<close>.\<close>

definition shortest_digits :: "ustr \<Rightarrow> (ustr \<times> int) res" where
  "shortest_digits text =
     bindE (if 101 \<in> set text
            then (case partition_at 101 text of
                    (mantissa, exp_text) \<Rightarrow> bindE (int_of_str exp_text) (\<lambda>x. Inr (mantissa, x)))
            else Inr (text, 0))
       (\<lambda>(mantissa, x).
         let (int_part, frac_part) = partition_at 46 mantissa;
             all_digits = int_part @ frac_part;
             n = int (length int_part) + x;
             stripped = lstrip_zeros all_digits;
             n' = n - (int (length all_digits) - int (length stripped));
             ds = rstrip_zeros stripped
         in ensure (ds \<noteq> []) (Inl JcsError) (Inr (ds, n')))"

text \<open>The ECMAScript layout bands for digits \<open>ds\<close> and decimal point \<open>n\<close>.\<close>

definition number_body :: "ustr \<Rightarrow> int \<Rightarrow> ustr" where
  "number_body ds n =
     (let k = int (length ds) in
      if k \<le> n \<and> n \<le> 21 then ds @ replicate (nat (n - k)) 48
      else if 0 < n \<and> n \<le> 21 then take (nat n) ds @ u ''.'' @ drop (nat n) ds
      else if - 6 < n \<and> n \<le> 0 then u ''0.'' @ replicate (nat (- n)) 48 @ ds
      else
        (let x = n - 1;
             exp_str = (if 0 \<le> x then u ''e+'' @ str_int x else u ''e-'' @ str_int (- x))
         in if k = 1 then ds @ exp_str
            else take 1 ds @ u ''.'' @ drop 1 ds @ exp_str))"

definition format_float :: "pyfloat \<Rightarrow> ustr res" where
  "format_float f =
     (case f of
        FNan \<Rightarrow> Inl JcsError
      | FInf s \<Rightarrow> Inl JcsError
      | FFin negative m e \<Rightarrow>
          (if m = 0 then Inr (u ''0'')
           else bindE (shortest_digits (repr_float m e)) (\<lambda>(ds, n).
             Inr ((if negative then u ''-'' else []) @ number_body ds n))))"

definition format_number :: "pyval \<Rightarrow> ustr res" where
  "format_number value =
     (case value of
        PInt i \<Rightarrow>
          bindE (catchE (\<lambda>e. e = OverflowError) (float_of_int i) (\<lambda>_. Inl JcsError)) format_float
      | PFloat f \<Rightarrow> format_float f
      | _ \<Rightarrow> Inl JcsError)"

section \<open>Strings\<close>

definition named_escape :: "nat \<Rightarrow> ustr option" where
  "named_escape c =
     (if c = 8 then Some [92, 98]
      else if c = 9 then Some [92, 116]
      else if c = 10 then Some [92, 110]
      else if c = 12 then Some [92, 102]
      else if c = 13 then Some [92, 114]
      else if c = 34 then Some [92, 34]
      else if c = 92 then Some [92, 92]
      else None)"

definition format_char :: "nat \<Rightarrow> ustr" where
  "format_char code =
     (case named_escape code of
        Some e \<Rightarrow> e
      | None \<Rightarrow>
          (if code < 0x20 then [92, 117, 48, 48, hex_digit (code div 16), hex_digit (code mod 16)]
           else [code]))"

definition format_string :: "ustr \<Rightarrow> ustr" where
  "format_string value = [34] @ concat (map format_char value) @ [34]"

section \<open>Serialization\<close>

definition max_depth :: nat where
  "max_depth = 256"

definition max_nodes_visited :: nat where
  "max_nodes_visited = 200000"

definition visit :: "nat \<Rightarrow> nat res" where
  "visit visits = ensure (Suc visits \<le> max_nodes_visited) (Inl JcsError) (Inr (Suc visits))"

text \<open>Member names sorted by UTF-16 code units; a lone surrogate has none.\<close>

definition utf16_key :: "ustr \<Rightarrow> nat list" where
  "utf16_key k = concat (map utf16_char k)"

definition sorted_members :: "dict \<Rightarrow> dict res" where
  "sorted_members d =
     bindE (mapE (\<lambda>p. utf16_units (fst p)) d) (\<lambda>_. Inr (sort_key (\<lambda>p. utf16_key (fst p)) d))"

function serialize :: "nat \<Rightarrow> nat \<Rightarrow> pyval \<Rightarrow> (ustr \<times> nat) res"
  and serialize_items :: "nat \<Rightarrow> nat \<Rightarrow> bool \<Rightarrow> pyval list \<Rightarrow> (ustr \<times> nat) res"
  and serialize_members :: "nat \<Rightarrow> nat \<Rightarrow> bool \<Rightarrow> dict \<Rightarrow> (ustr \<times> nat) res"
where
  "serialize depth visits value =
     bindE (visit visits) (\<lambda>visits.
     ensure (depth \<le> max_depth) (Inl JcsError) (
       case value of
         PNone \<Rightarrow> Inr (u ''null'', visits)
       | PBool b \<Rightarrow> Inr (if b then u ''true'' else u ''false'', visits)
       | PStr s \<Rightarrow> Inr (format_string s, visits)
       | PInt i \<Rightarrow> bindE (format_number value) (\<lambda>t. Inr (t, visits))
       | PFloat f \<Rightarrow> bindE (format_number value) (\<lambda>t. Inr (t, visits))
       | PList xs \<Rightarrow>
           bindE (serialize_items (Suc depth) visits True xs) (\<lambda>(t, visits).
             Inr (u ''['' @ t @ u '']'', visits))
       | PDict d \<Rightarrow>
           bindE (sorted_members d) (\<lambda>members.
           bindE (serialize_members (Suc depth) visits True members) (\<lambda>(t, visits).
             Inr ([123] @ t @ [125], visits)))))"
| "serialize_items depth visits first [] = Inr ([], visits)"
| "serialize_items depth visits first (x # xs) =
     bindE (serialize depth visits x) (\<lambda>(t, visits).
     bindE (serialize_items depth visits False xs) (\<lambda>(t', visits).
       Inr ((if first then [] else u '','') @ t @ t', visits)))"
| "serialize_members depth visits first [] = Inr ([], visits)"
| "serialize_members depth visits first ((key, value) # members) =
     bindE (serialize depth visits value) (\<lambda>(t, visits).
     bindE (serialize_members depth visits False members) (\<lambda>(t', visits).
       Inr ((if first then [] else u '','') @ format_string key @ u '':'' @ t @ t', visits)))"
  by pat_completeness auto
termination
  by (relation "measures
        [\<lambda>x. case x of Inl (depth, _) \<Rightarrow> max_depth + 2 - depth
              | Inr (Inl (depth, _)) \<Rightarrow> max_depth + 2 - depth
              | Inr (Inr (depth, _)) \<Rightarrow> max_depth + 2 - depth,
         \<lambda>x. case x of Inl _ \<Rightarrow> 0
              | Inr (Inl (_, _, _, xs)) \<Rightarrow> Suc (length xs)
              | Inr (Inr (_, _, _, ms)) \<Rightarrow> Suc (length ms)]") auto

declare serialize.simps [simp del]

definition dumps :: "pyval \<Rightarrow> ustr res" where
  "dumps value = bindE (serialize 0 0 value) (\<lambda>(t, _). Inr t)"

definition canonicalize :: "pyval \<Rightarrow> bytes res" where
  "canonicalize value = bindE (dumps value) utf8_encode"

section \<open>Digits and decimal point of a float\<close>

lemma digit_chars_range: "list_all (\<lambda>d. d < 10) ds \<Longrightarrow> c \<in> set (digit_chars ds) \<Longrightarrow> 48 \<le> c \<and> c < 58"
  by (auto simp: digit_chars_def list_all_iff)

lemma digits_all_lt: "list_all (\<lambda>d. d < 10) (digits n)"
  by (simp add: list_all_iff digits_lt_10)

lemma partition_at_append: "c \<notin> set p \<Longrightarrow> partition_at c (p @ c # s) = (p, s)"
  by (subst partition_at_def, subst takeWhile_append2, blast, subst dropWhile_append2, blast) simp

lemma partition_at_absent: "c \<notin> set p \<Longrightarrow> partition_at c p = (p, [])"
  by (induction p) (auto simp: partition_at_def)

lemma parse_nat_digit_chars: "list_all (\<lambda>d. d < 10) ds \<Longrightarrow> parse_nat (digit_chars ds) = digits_value ds"
  by (simp add: parse_nat_def digit_chars_def comp_def)

lemma str_nat_range: "c \<in> set (str_nat n) \<Longrightarrow> 48 \<le> c \<and> c < 58"
  using digit_chars_range [OF digits_all_lt] by (auto simp: str_nat_def u_def split: if_splits)

lemma parse_nat_str_nat [simp]: "parse_nat (str_nat n) = n"
  by (simp add: str_nat_def parse_nat_digit_chars digits_all_lt)
     (simp add: parse_nat_def u_def digits_value_def)

lemma str_nat_not_Nil [simp]: "str_nat n \<noteq> []"
  by (simp add: str_nat_def digit_chars_def)

lemma parse_nat_zero [simp]: "parse_nat (48 # s) = parse_nat s"
  by (simp add: parse_nat_def digits_value_def)

text \<open>The exponent \<open>repr\<close> writes: a sign and at least two digits.\<close>

definition exp_text :: "int \<Rightarrow> ustr" where
  "exp_text x =
     (let xs = str_nat (nat \<bar>x\<bar>); pad = (if length xs < 2 then u ''0'' @ xs else xs)
      in (if x < 0 then u ''-'' else u ''+'') @ pad)"

lemma is_digit_str_nat [simp]: "list_all is_digit (str_nat n)"
  using str_nat_range [of _ n] by (fastforce simp: list_all_iff is_digit_def)

lemma strip_space_none:
  assumes s: "s \<noteq> []" "list_all (\<lambda>c. 33 \<le> c) s"
  shows "strip_space s = s"
proof -
  have "33 \<le> hd s" "33 \<le> hd (rev s)" using s by (simp_all add: list_all_iff hd_rev)
  then show ?thesis by (simp add: strip_space_def dropWhile_eq_self_iff [THEN iffD2])
qed

lemma int_of_str_digits:
  assumes "ds \<noteq> []" and "list_all is_digit ds"
  shows "int_of_str (45 # ds) = Inr (- int (parse_nat ds))" and "int_of_str (43 # ds) = Inr (int (parse_nat ds))"
proof -
  have r: "list_all (\<lambda>c. 33 \<le> c) ds" and n: "95 \<notin> set ds"
    using assms(2) by (auto simp: list_all_iff is_digit_def)
  then show "int_of_str (45 # ds) = Inr (- int (parse_nat ds))" "int_of_str (43 # ds) = Inr (int (parse_nat ds))"
    using assms by (simp_all add: int_of_str_def Let_def strip_space_none split_on_single)
qed

lemma int_of_str_exp_text [simp]: "int_of_str (exp_text x) = Inr x"
proof -
  let ?ds = "if length (str_nat (nat \<bar>x\<bar>)) < 2 then u ''0'' @ str_nat (nat \<bar>x\<bar>) else str_nat (nat \<bar>x\<bar>)"
  have "?ds \<noteq> []" "list_all is_digit ?ds" "parse_nat ?ds = nat \<bar>x\<bar>" by (auto simp: u_Cons is_digit_def)
  from int_of_str_digits [OF this(1,2)] this(3) show ?thesis
    by (cases "x < 0") (simp_all add: exp_text_def Let_def u_Cons split: if_splits)
qed

lemma exp_text_no_e: "101 \<notin> set (exp_text x)"
  by (auto simp: exp_text_def Let_def u_Cons dest: str_nat_range)

lemma repr_layout_exp:
  assumes "\<not> (- 4 < n \<and> n \<le> 16)"
  shows "repr_layout ds n =
     (take 1 (digit_chars ds) @ (if length ds = 1 then [] else u ''.'' @ drop 1 (digit_chars ds)))
       @ 101 # exp_text (n - 1)"
  unfolding repr_layout_def Let_def if_not_P [OF assms]
  by (simp add: Let_def exp_text_def u_Cons digit_chars_def)

lemma repr_layout_plain_no_e:
  "- 4 < n \<Longrightarrow> n \<le> 16 \<Longrightarrow> list_all (\<lambda>d. d < 10) ds \<Longrightarrow> 101 \<notin> set (repr_layout ds n)"
  by (auto simp: repr_layout_def Let_def u_Cons
      dest!: digit_chars_range in_set_takeD in_set_dropD split: if_splits)

lemma mantissa_no_e:
  "list_all (\<lambda>d. d < 10) ds \<Longrightarrow>
   101 \<notin> set (take 1 (digit_chars ds) @ (if length ds = 1 then [] else u ''.'' @ drop 1 (digit_chars ds)))"
  by (auto simp: u_Cons dest!: digit_chars_range in_set_takeD in_set_dropD split: if_splits)

text \<open>The digits read back from a mantissa, with the exponent already taken off.\<close>

definition mantissa_digits :: "ustr \<Rightarrow> int \<Rightarrow> (ustr \<times> int) res" where
  "mantissa_digits mantissa x =
     (let (int_part, frac_part) = partition_at 46 mantissa;
          all_digits = int_part @ frac_part;
          n = int (length int_part) + x;
          stripped = lstrip_zeros all_digits;
          n' = n - (int (length all_digits) - int (length stripped));
          ds = rstrip_zeros stripped
      in ensure (ds \<noteq> []) (Inl JcsError) (Inr (ds, n')))"

lemma shortest_digits_plain: "101 \<notin> set text \<Longrightarrow> shortest_digits text = mantissa_digits text 0"
  by (simp add: shortest_digits_def mantissa_digits_def)

lemma shortest_digits_exp:
  "101 \<notin> set m \<Longrightarrow> shortest_digits (m @ 101 # exp_text x) = mantissa_digits m x"
  by (simp add: shortest_digits_def mantissa_digits_def partition_at_append)

lemma mantissa_digits_err: "mantissa_digits m x = Inl e \<Longrightarrow> e = JcsError"
  by (auto simp: mantissa_digits_def Let_def err_simps split: prod.splits)

lemma shortest_digits_layout_err:
  assumes "list_all (\<lambda>d. d < 10) ds" and "shortest_digits (repr_layout ds n) = Inl e"
  shows "e = JcsError"
proof (cases "- 4 < n \<and> n \<le> 16")
  case True
  with assms show ?thesis
    by (auto simp: shortest_digits_plain repr_layout_plain_no_e dest: mantissa_digits_err)
next
  case False
  show ?thesis
    using assms(2)
    unfolding repr_layout_exp [OF False] shortest_digits_exp [OF mantissa_no_e [OF assms(1)]]
    by (rule mantissa_digits_err)
qed

lemma lstrip_zeros_digit_chars:
  "ds \<noteq> [] \<Longrightarrow> hd ds \<noteq> 0 \<Longrightarrow> lstrip_zeros (digit_chars ds @ s) = digit_chars ds @ s"
  by (cases ds) (auto simp: lstrip_zeros_def digit_chars_def)

lemma lstrip_zeros_replicate: "lstrip_zeros (replicate k 48 @ s) = lstrip_zeros s"
  by (induction k) (auto simp: lstrip_zeros_def)

lemma rstrip_zeros_digit_chars:
  assumes "ds \<noteq> []" and "last ds \<noteq> 0"
  shows "rstrip_zeros (digit_chars ds @ replicate k 48) = digit_chars ds"
  using assms lstrip_zeros_digit_chars [of "rev ds" "[]"] lstrip_zeros_replicate [of k "rev (digit_chars ds)"]
  by (simp add: rstrip_zeros_def lstrip_zeros_def hd_rev digit_chars_def rev_map)

lemma mantissa_digits_split:
  assumes ds: "ds \<noteq> []" "hd ds \<noteq> 0" "last ds \<noteq> 0" and i: "46 \<notin> set i"
    and split: "i @ f = replicate j 48 @ digit_chars ds @ replicate k 48"
  shows "mantissa_digits (i @ 46 # f) x = Inr (digit_chars ds, int (length i) + x - int j)"
    and "f = [] \<Longrightarrow> mantissa_digits i x = Inr (digit_chars ds, int (length i) + x - int j)"
proof -
  have l: "length i + length f = j + length ds + k"
    using arg_cong [OF split, of length] by (simp add: digit_chars_def)
  have st: "lstrip_zeros (i @ f) = digit_chars ds @ replicate k 48"
    unfolding split lstrip_zeros_replicate by (rule lstrip_zeros_digit_chars [OF ds(1,2)])
  have ne: "digit_chars ds \<noteq> []" using ds by (simp add: digit_chars_def)
  have len: "length (digit_chars ds) = length ds" by (simp add: digit_chars_def)
  show "mantissa_digits (i @ 46 # f) x = Inr (digit_chars ds, int (length i) + x - int j)"
    using ds l ne
    by (simp add: mantissa_digits_def Let_def partition_at_append [OF i] st len rstrip_zeros_digit_chars)
  show "mantissa_digits i x = Inr (digit_chars ds, int (length i) + x - int j)" if "f = []"
    using ds l ne st that
    by (simp add: mantissa_digits_def Let_def partition_at_absent [OF i] len rstrip_zeros_digit_chars)
qed

lemma digit_chars_no_dot: "46 \<notin> set (digit_chars ds)"
  by (auto simp: digit_chars_def)

lemma shortest_digits_layout:
  assumes ds: "ds \<noteq> []" "hd ds \<noteq> 0" "last ds \<noteq> 0" and lt: "list_all (\<lambda>d. d < 10) ds"
  shows "shortest_digits (repr_layout ds n) = Inr (digit_chars ds, n)"
proof -
  note split = mantissa_digits_split [OF ds]
  let ?cs = "digit_chars ds"
  have len: "length ?cs = length ds" by (simp add: digit_chars_def)
  consider "- 4 < n" "n \<le> 0" | "0 < n" "n \<le> 16" "int (length ds) \<le> n"
    | "0 < n" "n \<le> 16" "n < int (length ds)" | "\<not> (- 4 < n \<and> n \<le> 16)" "length ds = 1"
    | "\<not> (- 4 < n \<and> n \<le> 16)" "length ds \<noteq> 1"
    by linarith
  then show ?thesis
  proof cases
    case 1
    then have "repr_layout ds n = [48] @ 46 # (replicate (nat (- n)) 48 @ ?cs)"
      by (simp add: repr_layout_def Let_def u_Cons)
    with 1 show ?thesis
      using split(1) [of "[48]" "replicate (nat (- n)) 48 @ ?cs" "Suc (nat (- n))" 0 0]
        repr_layout_plain_no_e [OF _ _ lt, of n]
      by (simp add: shortest_digits_plain)
  next
    case 2
    then have "repr_layout ds n = (?cs @ replicate (nat n - length ds) 48) @ 46 # [48]"
      by (simp add: repr_layout_def Let_def u_Cons)
    with 2 show ?thesis
      using split(1) [of "?cs @ replicate (nat n - length ds) 48" "[48]" 0 "Suc (nat n - length ds)" 0]
        repr_layout_plain_no_e [OF _ _ lt, of n] digit_chars_no_dot [of ds]
      by (simp add: shortest_digits_plain len replicate_append_same)
  next
    case 3
    then have "repr_layout ds n = take (nat n) ?cs @ 46 # drop (nat n) ?cs"
      by (simp add: repr_layout_def Let_def u_Cons)
    with 3 show ?thesis
      using split(1) [of "take (nat n) ?cs" "drop (nat n) ?cs" 0 0 0]
        repr_layout_plain_no_e [OF _ _ lt, of n] digit_chars_no_dot [of ds]
      by (auto simp: shortest_digits_plain len dest: in_set_takeD)
  next
    case 4
    then show ?thesis
      using split(2) [of ?cs "[]" 0 0 "n - 1"] mantissa_no_e [OF lt] digit_chars_no_dot [of ds]
      by (simp add: repr_layout_exp [OF 4(1)] shortest_digits_exp len)
  next
    case 5
    let ?m = "take 1 ?cs @ 46 # drop 1 ?cs"
    have "repr_layout ds n = ?m @ 101 # exp_text (n - 1)" and "101 \<notin> set ?m"
      using mantissa_no_e [OF lt] by (simp_all only: repr_layout_exp [OF 5(1)] 5(2) if_False) (simp_all add: u_Cons)
    moreover have "46 \<notin> set (take 1 ?cs)" and "length (take 1 ?cs) = 1"
      using digit_chars_no_dot [of ds] ds(1) len by (auto dest: in_set_takeD simp: Suc_le_eq)
    ultimately show ?thesis
      using split(1) [of "take 1 ?cs" "drop 1 ?cs" 0 0 "n - 1"]
      by (simp add: shortest_digits_exp del: append_assoc)
  qed
qed


section \<open>Errors of the serializer\<close>

lemma candidate_digits: "first_candidate m e n ks = Some (c, k) \<Longrightarrow> list_all (\<lambda>d. d < 10) (strip_zeros (digits c))"
  using digits_all_lt by (auto simp: strip_zeros_def list_all_iff dest: set_dropWhileD)

lemma shortest_repr_digits: "shortest_repr m e = (ds, n) \<Longrightarrow> list_all (\<lambda>d. d < 10) ds"
  by (auto simp: shortest_repr_def Let_def dest: candidate_digits split: option.splits prod.splits)

lemma format_float_err: "format_float f = Inl e \<Longrightarrow> e = JcsError"
  by (auto simp: format_float_def repr_float_def err_simps
      dest: shortest_repr_digits shortest_digits_layout_err split: pyfloat.splits if_splits prod.splits)

lemma float_of_int_err: "float_of_int i = Inl e \<Longrightarrow> e = OverflowError"
  by (auto simp: float_of_int_def split: if_splits option.splits prod.splits)

lemma format_number_err: "format_number v = Inl e \<Longrightarrow> e = JcsError"
  by (auto simp: format_number_def catchE_def err_simps
      dest: format_float_err float_of_int_err split: pyval.splits sum.splits if_splits)

lemma visit_err: "visit v = Inl e \<Longrightarrow> e = JcsError"
  by (auto simp: visit_def err_simps)

lemma visit_ok [ok_simps]: "visit v = Inr w \<longleftrightarrow> w = Suc v \<and> w \<le> max_nodes_visited"
  by (auto simp: visit_def ok_simps)

lemma utf16_units_err: "utf16_units s = Inl e \<Longrightarrow> e = UnicodeError"
  by (auto simp: utf16_units_def split: if_splits)

lemma mapE_err: "mapE f xs = Inl e \<Longrightarrow> \<exists>x \<in> set xs. f x = Inl e"
  by (induction xs) (auto simp: err_simps)

lemma sorted_members_err: "sorted_members d = Inl e \<Longrightarrow> e = UnicodeError"
  by (auto simp: sorted_members_def err_simps dest!: mapE_err utf16_units_err)

lemma sorted_members_ok [ok_simps]:
  "sorted_members d = Inr m \<longleftrightarrow>
     (\<forall>p \<in> set d. list_all scalar (fst p)) \<and> m = sort_key (\<lambda>p. utf16_key (fst p)) d"
proof -
  have "(\<exists>ys. mapE (\<lambda>p. utf16_units (fst p)) d = Inr ys) \<longleftrightarrow> (\<forall>p \<in> set d. list_all scalar (fst p))"
    by (induction d) (auto simp: ok_simps utf16_units_def split: if_splits)
  then show ?thesis
    by (auto simp: sorted_members_def ok_simps)
qed

text \<open>One step of the walk, by kind of value, and the induction that follows it.\<close>

definition scalar_text :: "pyval \<Rightarrow> ustr res" where
  "scalar_text x =
     (case x of
        PNone \<Rightarrow> Inr (u ''null'')
      | PBool b \<Rightarrow> Inr (if b then u ''true'' else u ''false'')
      | PStr s \<Rightarrow> Inr (format_string s)
      | _ \<Rightarrow> format_number x)"

lemma serialize_scalar:
  "\<not> is_list x \<Longrightarrow> \<not> is_dict x \<Longrightarrow>
   serialize d v x = ensure (Suc v \<le> max_nodes_visited \<and> d \<le> max_depth) (Inl JcsError)
     (bindE (scalar_text x) (\<lambda>t. Inr (t, Suc v)))"
  by (subst serialize.simps) (cases x; simp add: visit_def ensure_def scalar_text_def)

lemma serialize_PList:
  "serialize d v (PList xs) = ensure (Suc v \<le> max_nodes_visited \<and> d \<le> max_depth) (Inl JcsError)
     (bindE (serialize_items (Suc d) (Suc v) True xs) (\<lambda>(t, w). Inr (u ''['' @ t @ u '']'', w)))"
  by (subst serialize.simps) (simp add: visit_def ensure_def)

lemma serialize_PDict:
  "serialize d v (PDict m) = ensure (Suc v \<le> max_nodes_visited \<and> d \<le> max_depth) (Inl JcsError)
     (bindE (sorted_members m) (\<lambda>ms. bindE (serialize_members (Suc d) (Suc v) True ms) (\<lambda>(t, w).
        Inr ([123] @ t @ [125], w))))"
  by (subst serialize.simps) (simp add: visit_def ensure_def)

lemmas serialize_walk = serialize_PList serialize_PDict serialize_scalar

lemma serialize_induct [case_names scalar list dict Nil Cons MNil MCons]:
  assumes scalar: "\<And>d v x. \<not> is_list x \<Longrightarrow> \<not> is_dict x \<Longrightarrow> P d v x"
    and list: "\<And>d v xs. (Suc v \<le> max_nodes_visited \<Longrightarrow> d \<le> max_depth \<Longrightarrow> Q (Suc d) (Suc v) True xs)
                 \<Longrightarrow> P d v (PList xs)"
    and dict: "\<And>d v m. (\<And>ms. Suc v \<le> max_nodes_visited \<Longrightarrow> d \<le> max_depth \<Longrightarrow>
                   sorted_members m = Inr ms \<Longrightarrow> R (Suc d) (Suc v) True ms) \<Longrightarrow> P d v (PDict m)"
    and Nil: "\<And>d v b. Q d v b []"
    and Cons: "\<And>d v b x xs. P d v x \<Longrightarrow> (\<And>t w. serialize d v x = Inr (t, w) \<Longrightarrow> Q d w False xs)
                 \<Longrightarrow> Q d v b (x # xs)"
    and MNil: "\<And>d v b. R d v b []"
    and MCons: "\<And>d v b k x ms. P d v x \<Longrightarrow> (\<And>t w. serialize d v x = Inr (t, w) \<Longrightarrow> R d w False ms)
                 \<Longrightarrow> R d v b ((k, x) # ms)"
  shows "P d v x" and "Q d v b xs" and "R d v b ms"
proof (induction d v x and d v b xs and d v b ms rule: serialize_serialize_items_serialize_members.induct)
  case (1 depth visits val)
  show ?case
  proof (cases val)
    case (PList xs)
    show ?thesis unfolding PList by (rule list, rule "1.IH"(1) [OF _ _ PList]) (simp_all add: visit_def)
  next
    case (PDict m)
    show ?thesis unfolding PDict by (rule dict, rule "1.IH"(2) [OF _ _ PDict]) (simp_all add: visit_def)
  qed (auto intro: scalar)
qed (auto intro: Nil Cons MNil MCons)

text \<open>
  Nothing but a \<open>JcsError\<close> or the \<open>UnicodeEncodeError\<close> of a lone surrogate leaves the serializer.
\<close>

lemma scalar_text_err: "scalar_text x = Inl e \<Longrightarrow> e = JcsError"
  by (auto simp: scalar_text_def split: pyval.splits dest: format_number_err)

lemma serialize_err:
  "serialize d v x = Inl e \<Longrightarrow> e = JcsError \<or> e = UnicodeError"
  "serialize_items d v b xs = Inl e \<Longrightarrow> e = JcsError \<or> e = UnicodeError"
  "serialize_members d v b ms = Inl e \<Longrightarrow> e = JcsError \<or> e = UnicodeError"
  by (induction d v x and d v b xs and d v b ms rule: serialize_induct)
     (auto simp: err_simps serialize_walk dest: scalar_text_err sorted_members_err)

lemma canonicalize_err: "canonicalize v = Inl e \<Longrightarrow> e = JcsError \<or> e = UnicodeError"
  by (auto simp: canonicalize_def dumps_def err_simps utf8_encode_def dest: serialize_err split: if_splits)

section \<open>Bounds and member order\<close>

fun nodes :: "pyval \<Rightarrow> nat" where
  "nodes (PList xs) = Suc (sum_list (map nodes xs))"
| "nodes (PDict d) = Suc (sum_list (map (\<lambda>p. nodes (snd p)) d))"
| "nodes _ = 1"

fun nesting :: "pyval \<Rightarrow> nat" where
  "nesting (PList xs) = foldr max (map (\<lambda>x. Suc (nesting x)) xs) 0"
| "nesting (PDict d) = foldr max (map (\<lambda>p. Suc (nesting (snd p))) d) 0"
| "nesting _ = 0"

lemma foldr_max_le: "d + foldr max xs (0::nat) \<le> n \<longleftrightarrow> d \<le> n \<and> (\<forall>x \<in> set xs. d + x \<le> n)"
  by (induction xs) auto

text \<open>A successful walk visits every node once and never goes below the depth cap.\<close>

lemma sum_list_mset: "mset xs = mset ys \<Longrightarrow> sum_list (map f xs) = (sum_list (map f ys) :: nat)"
  by (metis mset_map sum_mset_sum_list)

lemma serialize_bounds:
  "serialize d v x = Inr (t, w) \<Longrightarrow> w = v + nodes x \<and> w \<le> max_nodes_visited \<and> d + nesting x \<le> max_depth"
  "serialize_items d v b xs = Inr (t, w) \<Longrightarrow> v \<le> max_nodes_visited \<Longrightarrow>
     w = v + sum_list (map nodes xs) \<and> w \<le> max_nodes_visited \<and> (\<forall>x \<in> set xs. d + nesting x \<le> max_depth)"
  "serialize_members d v b ms = Inr (t, w) \<Longrightarrow> v \<le> max_nodes_visited \<Longrightarrow>
     w = v + sum_list (map (\<lambda>p. nodes (snd p)) ms) \<and> w \<le> max_nodes_visited \<and>
     (\<forall>p \<in> set ms. d + nesting (snd p) \<le> max_depth)"
proof (induction d v x and d v b xs and d v b ms arbitrary: t w and t w and t w rule: serialize_induct)
  case (scalar d v x)
  moreover from this have "nodes x = 1" and "nesting x = 0"
    by (cases x; simp)+
  ultimately show ?case by (auto simp: serialize_scalar ok_simps)
next
  case (list d v xs)
  from list.prems obtain t' where v: "Suc v \<le> max_nodes_visited" and d: "d \<le> max_depth"
    and ser: "serialize_items (Suc d) (Suc v) True xs = Inr (t', w)"
    by (auto simp: serialize_PList ok_simps)
  from list.IH [OF v d ser v] d show ?case by (simp add: foldr_max_le)
next
  case (dict d v m)
  from dict.prems obtain t' ms where v: "Suc v \<le> max_nodes_visited" and d: "d \<le> max_depth"
    and ms: "sorted_members m = Inr ms" and ser: "serialize_members (Suc d) (Suc v) True ms = Inr (t', w)"
    by (auto simp: serialize_PDict ok_simps)
  have "mset ms = mset m" using ms by (simp add: ok_simps)
  then have "set ms = set m" and "sum_list (map (\<lambda>p. nodes (snd p)) ms) = sum_list (map (\<lambda>p. nodes (snd p)) m)"
    by (rule mset_eq_setD, rule sum_list_mset)
  with dict.IH [OF v d ms ser v] d show ?case by (simp add: foldr_max_le)
next
  case (Cons d v b x xs)
  from Cons.prems obtain t1 w1 t2 where x: "serialize d v x = Inr (t1, w1)"
    and xs: "serialize_items d w1 False xs = Inr (t2, w)"
    by (auto simp: ok_simps)
  from Cons.IH(1) [OF x] Cons.IH(2) [OF x xs] show ?case by auto
next
  case (MCons d v b k x ms)
  from MCons.prems obtain t1 w1 t2 where x: "serialize d v x = Inr (t1, w1)"
    and xs: "serialize_members d w1 False ms = Inr (t2, w)"
    by (auto simp: ok_simps)
  from MCons.IH(1) [OF x] MCons.IH(2) [OF x xs] show ?case by auto
qed simp_all


lemma dumps_bounds: "dumps v = Inr t \<Longrightarrow> nesting v \<le> max_depth \<and> nodes v \<le> max_nodes_visited"
  using serialize_bounds(1) [of 0 0 v] by (auto simp: dumps_def ok_simps)

text \<open>Two dictionaries with the same members in another order have the same members in canonical order.\<close>

lemma utf16_char_inj:
  assumes "scalar c" and "scalar d" and "utf16_char c @ s = utf16_char d @ t"
  shows "c = d \<and> s = t"
proof -
  have "c = d" if "(c - 0x10000) div 1024 = (d - 0x10000) div 1024" "(c - 0x10000) mod 1024 = (d - 0x10000) mod 1024"
    "0x10000 \<le> c" "0x10000 \<le> d"
    using that by (metis div_mult_mod_eq le_add_diff_inverse)
  then show ?thesis
    using assms by (auto simp: utf16_char_def scalar_def surrogate_def split: if_splits)
qed

lemma utf16_key_inj: "list_all scalar s \<Longrightarrow> list_all scalar t \<Longrightarrow> utf16_key s = utf16_key t \<Longrightarrow> s = t"
proof (induction s arbitrary: t)
  case Nil
  then show ?case
    by (cases t) (auto simp: utf16_key_def utf16_char_def split: if_splits)
next
  case (Cons c s)
  show ?case
  proof (cases t)
    case Nil
    with Cons.prems show ?thesis by (auto simp: utf16_key_def utf16_char_def split: if_splits)
  next
    case (Cons d t')
    with Cons.prems have "c = d \<and> utf16_key s = utf16_key t'"
      by (intro utf16_char_inj) (auto simp: utf16_key_def)
    with Cons.IH [of t'] Cons.prems Cons show ?thesis by simp
  qed
qed

lemma sorted_members_perm:
  assumes "mset d = mset d'" and "distinct (map fst d)"
  shows "sorted_members d = sorted_members d'"
proof (cases "\<forall>p \<in> set d. list_all scalar (fst p)")
  case True
  let ?k = "\<lambda>p :: ustr \<times> pyval. utf16_key (fst p)"
  have "inj_on ?k (set d)"
  proof (rule inj_onI)
    fix p q assume "p \<in> set d" "q \<in> set d" "?k p = ?k q"
    with True have "fst p = fst q" by (metis utf16_key_inj)
    with assms(2) \<open>p \<in> set d\<close> \<open>q \<in> set d\<close> show "p = q"
      by (auto simp: distinct_map dest: inj_onD)
  qed
  then have "sort_key ?k d = sort_key ?k d'"
    using assms(1) by (metis sort_key_inj_key_eq mset_sort sorted_sort_key)
  moreover have "set d = set d'" using assms(1) by (rule mset_eq_setD)
  ultimately show ?thesis
    using True by (auto simp: sorted_members_ok [THEN iffD2])
next
  case False
  moreover have "set d = set d'" using assms(1) by (rule mset_eq_setD)
  ultimately have "\<nexists>m. sorted_members d = Inr m" "\<nexists>m. sorted_members d' = Inr m"
    by (auto simp: sorted_members_ok)
  then show ?thesis
    by (metis sorted_members_err sum.exhaust)
qed

end
