(* ===== verification/Jcs_Numbers.thy ===== *)
theory Jcs_Numbers
  imports Jcs
begin

text \<open>
  The canonical form of integers: every Python int of magnitude below \<open>2 ^ 53\<close> is printed as
  its plain decimal digits, although \<open>_format_number\<close> goes through a float, the float's
  shortest \<open>repr\<close> and the digits read back from it.
\<close>

section \<open>Decimal digits and trailing zeros\<close>

lemma digits_mult_10: "0 < c \<Longrightarrow> digits (c * 10) = digits c @ [0]"
  by (simp add: digits.simps [of "c * 10"])

lemma digits_mult_pow: "0 < c \<Longrightarrow> digits (c * 10 ^ j) = digits c @ replicate j 0"
proof (induction j)
  case (Suc j)
  have "digits (c * 10 ^ Suc j) = digits (c * 10 ^ j * 10)" by (simp add: ac_simps)
  also have "\<dots> = digits c @ replicate j 0 @ [0]" using Suc by (simp add: digits_mult_10)
  finally show ?case by (simp add: replicate_append_same)
qed simp

lemma strip_zeros_append: "strip_zeros ds @ replicate (length ds - length (strip_zeros ds)) 0 = ds"
proof (induction ds rule: rev_induct)
  case (snoc d ds)
  show ?case
  proof (cases "d = 0")
    case True
    have "length (strip_zeros ds) \<le> length ds"
      unfolding strip_zeros_def by (metis length_dropWhile_le length_rev)
    then have "replicate (Suc (length ds) - length (strip_zeros ds)) (0::nat) =
        replicate (length ds - length (strip_zeros ds)) 0 @ [0]"
      by (simp add: Suc_diff_le replicate_append_same)
    moreover have "strip_zeros (ds @ [d]) = strip_zeros ds" using True by (simp add: strip_zeros_def)
    ultimately show ?thesis using snoc True by simp
  qed (simp add: strip_zeros_def)
qed (simp add: strip_zeros_def)

lemma strip_zeros_last: "strip_zeros ds \<noteq> [] \<Longrightarrow> last (strip_zeros ds) \<noteq> 0"
  by (induction ds rule: rev_induct) (auto simp: strip_zeros_def split: if_splits)

lemma strip_zeros_head:
  assumes "ds \<noteq> []" and "hd ds \<noteq> 0"
  shows "strip_zeros ds \<noteq> [] \<and> hd (strip_zeros ds) = hd ds"
proof -
  have "strip_zeros ds \<noteq> []"
  proof
    assume "strip_zeros ds = []"
    then have "\<forall>x \<in> set ds. x = 0" by (simp add: strip_zeros_def)
    with assms show False by simp
  qed
  then show ?thesis using strip_zeros_append [of ds] by (metis hd_append2)
qed

section \<open>The float of an integer\<close>

lemma float_of_small_int:
  assumes "0 < x" and "x < 2 ^ 53"
  shows "round_ratio x 1 = Some (x * 2 ^ (53 - bit_length x), int (bit_length x) - 53)"
proof -
  let ?L = "bit_length x"
  have L: "1 \<le> ?L" "?L \<le> 53"
    using assms bit_length_le_iff [of x 53] bit_length_le_iff [of x 0] by auto
  have one: "bit_length 1 = 1" by (simp add: bit_length.simps [of "Suc 0"])
  have "2 ^ 53 = 2 ^ (?L - 1) * (2 ^ (54 - ?L) :: nat)"
    using L by (simp add: power_add [symmetric])
  also have "\<dots> \<le> x * 2 ^ (54 - ?L)"
    using bit_length_lower [OF assms(1)] by simp
  finally have low: "2 ^ 53 \<le> x * 2 ^ (54 - ?L)" .
  have "x * 2 ^ (53 - ?L) < 2 ^ ?L * 2 ^ (53 - ?L)"
    using bit_length_upper [of x] by simp
  also have "\<dots> = (2 ^ 53 :: nat)" using L by (simp add: power_add [symmetric])
  finally have up: "x * 2 ^ (53 - ?L) < 2 ^ 53" .
  have sc0: "scaled x 1 (int ?L - int 1 - 53) = (x * 2 ^ (54 - ?L), 1)"
    and sc1: "scaled x 1 (int ?L - 53) = (x * 2 ^ (53 - ?L), 1)"
    using L by (simp_all add: scaled_def nat_diff_distrib)
  have e: "int ?L - int 1 - 53 + 1 = int ?L - 53" "max (int ?L - 53) (- 1074) = int ?L - 53"
    "\<not> 971 < int ?L - 53" using L by simp_all
  have "\<not> x * 2 ^ (53 - ?L) = 2 ^ 53" using up by (rule less_imp_neq)
  then show ?thesis
    unfolding round_ratio_def one Let_def sc0 prod.case div_by_1 if_P [OF low] e sc1
    by (simp only: mod_by_1 mult_0_right zero_less_one if_True if_False div_by_1 simp_thms prod.case e)
qed

text \<open>The decimals that read back as an integer's float: the integer itself, and no shorter one.\<close>

lemma rounds_back_unit:
  "rounds_back M (- int s) c 1 \<longleftrightarrow>
     (let lo = (if M = 2 ^ 52 \<and> s < 1074 then 4 * M - 1 else 4 * M - 2); hi = 4 * M + 2; v = 4 * (c * 2 ^ s)
      in if even M then lo \<le> v \<and> v \<le> hi else lo < v \<and> v < hi)"
proof -
  have "nat (- int s) = 0" "nat (- (- int s)) = s" "- 1074 < - int s \<longleftrightarrow> s < 1074"
    by simp_all
  then show ?thesis
    by (simp only: rounds_back_def ratio_of_def Let_def prod.case power_0 mult_1 mult_1_right mult.assoc)
qed

lemma rounds_back_int:
  assumes "0 < x"
  shows "rounds_back (x * 2 ^ s) (- int s) c 1 \<longleftrightarrow> c = x"
proof -
  define M where "M = x * 2 ^ s"
  define N where "N = c * 2 ^ s"
  have "0 < M" using assms by (simp add: M_def)
  then have "rounds_back M (- int s) c 1 \<longleftrightarrow> N = M"
    unfolding rounds_back_unit Let_def N_def [symmetric] by (cases "even M") (simp_all, linarith+)
  also have "\<dots> \<longleftrightarrow> c = x" by (simp add: M_def N_def)
  finally show ?thesis by (simp add: M_def)
qed

lemma candidate_int:
  assumes "0 < x" and "k \<le> n"
  shows "candidate (x * 2 ^ s) (- int s) (int n) k =
    (if 10 ^ (n - k) dvd x then Some (x div 10 ^ (n - k)) else None)"
proof -
  define D :: nat where "D = 10 ^ (n - k)"
  have D: "0 < D" by (simp add: D_def)
  have nk: "nat (int k - int n) = 0" "nat (int n - int k) = n - k" using assms(2) by auto
  have q: "x * 2 ^ s div (2 ^ s * D) = x div D" by simp
  have "x < (x div D + 1) * D" using D by (simp add: dividend_less_div_times)
  then have no: "\<not> (x div D + 1) * D = x" by linarith
  have "x div D * D = x \<longleftrightarrow> D dvd x" by (metis dvd_div_mult_self dvd_triv_right)
  then show ?thesis
    using no D
    by (simp add: candidate_def ratio_of_def Let_def nk q rounds_back_int [OF assms(1)]
        flip: D_def del: One_nat_def)
qed

lemma first_candidate_int:
  assumes "0 < x" and "1 \<le> j" "j \<le> n" "n \<le> 17"
  shows "\<exists>k. j \<le> k \<and> k \<le> n \<and> 10 ^ (n - k) dvd x \<and>
    first_candidate (x * 2 ^ s) (- int s) (int n) [j..<18] = Some (x div 10 ^ (n - k), k)"
  using assms(2,3)
proof (induction "n - j" arbitrary: j)
  case 0
  then have "j = n" by simp
  with 0 assms show ?case
    by (intro exI [of _ n]) (simp add: upt_conv_Cons candidate_int)
next
  case (Suc d)
  have cons: "[j..<18] = j # [Suc j..<18]" using Suc assms(4) by (simp add: upt_conv_Cons)
  show ?case
  proof (cases "10 ^ (n - j) dvd x")
    case True
    with Suc assms show ?thesis by (intro exI [of _ j]) (simp add: cons candidate_int)
  next
    case False
    have "d = n - Suc j" "1 \<le> Suc j" "Suc j \<le> n" using Suc by simp_all
    from Suc.hyps(1) [OF this] obtain k where "Suc j \<le> k" "k \<le> n" "10 ^ (n - k) dvd x"
      "first_candidate (x * 2 ^ s) (- int s) (int n) [Suc j..<18] = Some (x div 10 ^ (n - k), k)" by blast
    with False Suc assms show ?thesis by (intro exI [of _ k]) (simp add: cons candidate_int)
  qed
qed

lemma length_digits_le: "x < 10 ^ k \<Longrightarrow> length (digits x) \<le> k"
proof (induction k arbitrary: x)
  case (Suc k)
  then have "x div 10 < 10 ^ k" by (simp add: less_mult_imp_div_less mult.commute)
  then show ?case using Suc.IH by (simp add: digits.simps [of x])
qed simp

section \<open>Integers are printed in decimal\<close>

lemma repr_digits_int:
  assumes "0 < x" and "x < 2 ^ 53"
  shows "shortest_digits (repr_float (x * 2 ^ s) (- int s)) =
    Inr (digit_chars (strip_zeros (digits x)), int (length (digits x)))"
proof -
  let ?n = "length (digits x)"
  have "x < 10 ^ 16" using assms(2) by simp
  then have n: "1 \<le> ?n" "?n \<le> 16" using assms(1) length_digits_le [of x 16] by (auto simp: Suc_le_eq)
  obtain k where k: "1 \<le> k" "k \<le> ?n" "10 ^ (?n - k) dvd x"
    and c: "first_candidate (x * 2 ^ s) (- int s) (int ?n) [1..<18] = Some (x div 10 ^ (?n - k), k)"
    using first_candidate_int [OF assms(1), of 1 ?n s] n by auto
  define y where "y = x div 10 ^ (?n - k)"
  have xy: "x = y * 10 ^ (?n - k)" using k(3) by (simp add: y_def)
  with assms(1) have y: "0 < y" by (cases y) auto
  have dx: "digits x = digits y @ replicate (?n - k) 0"
    using digits_mult_pow [OF y, of "?n - k"] xy by simp
  have len: "length (digits y) = k" using arg_cong [OF dx, of length] k(2) by (simp only: length_append length_replicate)
  have sz: "strip_zeros (digits x) = strip_zeros (digits y)"
    by (subst dx) (simp add: strip_zeros_def dropWhile_append)
  have dp: "decimal_point (ratio_of (x * 2 ^ s) (- int s)) = int ?n"
    using assms(1) by (simp add: decimal_point_def ratio_of_def)
  have rep: "shortest_repr (x * 2 ^ s) (- int s) = (strip_zeros (digits x), int ?n)"
    unfolding shortest_repr_def dp Let_def c using len sz by (simp flip: y_def)
  have h: "strip_zeros (digits x) \<noteq> [] \<and> hd (strip_zeros (digits x)) \<noteq> 0"
    using strip_zeros_head [of "digits x"] hd_digits [OF assms(1)] assms(1) by simp
  have lt: "list_all (\<lambda>d. d < 10) (strip_zeros (digits x))"
    using digits_all_lt [of x] by (auto simp: strip_zeros_def list_all_iff dest: set_dropWhileD)
  have "x * 2 ^ s \<noteq> 0" using assms(1) by simp
  then show ?thesis
    unfolding repr_float_def if_not_P [OF \<open>x * 2 ^ s \<noteq> 0\<close>] rep prod.case
    using h lt strip_zeros_last by (intro shortest_digits_layout) auto
qed

lemma number_body_int:
  assumes "0 < x" and "x < 2 ^ 53"
  shows "number_body (digit_chars (strip_zeros (digits x))) (int (length (digits x))) = str_nat x"
proof -
  have "x < 10 ^ 16" using assms(2) by simp
  then have "length (digits x) \<le> 16" by (rule length_digits_le)
  moreover have "length (strip_zeros (digits x)) \<le> length (digits x)"
    using arg_cong [OF strip_zeros_append [of "digits x"], of length] by simp
  moreover have "digit_chars (strip_zeros (digits x)) @
      replicate (length (digits x) - length (strip_zeros (digits x))) 48 = digit_chars (digits x)"
    using arg_cong [OF strip_zeros_append [of "digits x"], of digit_chars]
    by (simp add: digit_chars_def)
  ultimately show ?thesis
    using assms(1) by (simp add: number_body_def Let_def digit_chars_def str_nat_def nat_diff_distrib)
qed

lemma format_number_int:
  assumes "\<bar>i\<bar> < 2 ^ 53"
  shows "format_number (PInt i) = Inr (str_int i)"
proof (cases "i = 0")
  case True
  then show ?thesis by (simp add: format_number_def float_of_int_def format_float_def str_int_def str_nat_def)
next
  case False
  define x where "x = nat \<bar>i\<bar>"
  have x: "0 < x" "x < 2 ^ 53"
    using False assms by (simp_all add: x_def nat_less_iff)
  let ?L = "bit_length x"
  have L: "?L \<le> 53" using bit_length_le_iff [of x 53] x(2) by blast
  have E: "int ?L - 53 = - int (53 - ?L)" using L by simp
  have fl: "float_of_int i = Inr (FFin (i < 0) (x * 2 ^ (53 - ?L)) (- int (53 - ?L)))"
    unfolding float_of_int_def if_not_P [OF False] x_def [symmetric] float_of_small_int [OF x] option.case prod.case E ..
  have nz: "x * 2 ^ (53 - ?L) \<noteq> 0" using x(1) by simp
  have "format_float (FFin (i < 0) (x * 2 ^ (53 - ?L)) (- int (53 - ?L))) =
      Inr ((if i < 0 then u ''-'' else []) @ str_nat x)"
    unfolding format_float_def pyfloat.case if_not_P [OF nz]
      repr_digits_int [OF x] bindE_Inr prod.case number_body_int [OF x] by (rule refl)
  then show ?thesis
    by (auto simp: format_number_def fl str_int_def x_def)
qed

end
