(* ===== verification/Jcs_Roundtrip.thy ===== *)
theory Jcs_Roundtrip
  imports Jcs_Numbers
begin

text \<open>
  The strict parser reads back what the canonicalizer prints. For values whose numbers are
  integers below \<open>2 ^ 53\<close> in magnitude, which is all that AITP bodies use, the bytes of the
  canonical form decode to the same value with its members in canonical order; so two values
  with the same canonical bytes differ only in member order.
\<close>

section \<open>Strings\<close>

lemma hex_val_digit: "d < 16 \<Longrightarrow> hex_val (hex_digit d) = Some d"
  by (auto simp: hex_val_def hex_digit_def)

lemma str_next_format_char: "str_next (format_char c @ r) = Char c r"
proof (cases "named_escape c")
  case None
  show ?thesis
  proof (cases "c < 32")
    case True
    have "hex4 (48 # 48 # hex_digit (c div 16) # hex_digit (c mod 16) # r) = Some (c, r)"
      using True hex_val_digit [of "c div 16"] hex_val_digit [of "c mod 16"]
      by (simp add: hex4_def hex_val_def [of 48] mult.commute)
    with True None show ?thesis
      by (simp add: format_char_def str_next_def unicode_escape_def)
  next
    case False
    with None show ?thesis
      by (auto simp: format_char_def str_next_def named_escape_def split: if_splits)
  qed
next
  case (Some e)
  then show ?thesis
    by (auto simp: format_char_def str_next_def named_escape_def simple_escape_def split: if_splits)
qed

lemma scan_str_body: "scan_str (concat (map format_char s) @ 34 # r) = Inr (s, r)"
proof (induction s)
  case Nil
  show ?case by (simp add: scan_str.simps [of "34 # r"] str_next_def)
next
  case (Cons c s)
  then show ?case
    using str_next_format_char [of c "concat (map format_char s) @ 34 # r"]
    by (subst scan_str.simps) simp
qed

lemma scan_format_string: "scan_str (tl (format_string s) @ r) = Inr (s, r)"
  using scan_str_body [of s r] by (simp add: format_string_def)

lemma format_string_Cons: "format_string s = 34 # tl (format_string s)"
  by (simp add: format_string_def)

section \<open>Numbers\<close>

text \<open>What may follow a value: nothing, a comma or a closing bracket.\<close>

definition ends_value :: "ustr \<Rightarrow> bool" where
  "ends_value r \<longleftrightarrow> r = [] \<or> hd r \<in> {44, 93, 125}"

lemma ends_value_Cons [simp]: "ends_value (c # r) \<longleftrightarrow> c \<in> {44, 93, 125}"
  by (simp add: ends_value_def)

lemma ends_value_digits:
  assumes "ends_value r"
  shows "takeWhile is_digit r = []" "dropWhile is_digit r = r" "frac_digits r = ([], r)" "exp_part r = (None, r)"
  using assms
  by (cases r; auto simp: is_digit_def frac_digits_def exp_part_def split: list.splits)+

lemma str_nat_digits:
  assumes "0 < x"
  shows "\<exists>c s. str_nat x = c # s \<and> c \<noteq> 48 \<and> is_digit c \<and> list_all is_digit s"
proof -
  obtain d ds where d: "digits x = d # ds" using assms by (cases "digits x") auto
  have "0 < d" using hd_digits [OF assms] d by simp
  moreover have "\<forall>e \<in> set (digits x). e < 10" using digits_lt_10 by blast
  ultimately show ?thesis
    using assms by (auto simp: str_nat_def digit_chars_def d is_digit_def list_all_iff)
qed

lemma int_digits_str_nat:
  assumes "ends_value r"
  shows "int_digits (str_nat x @ r) = Some (str_nat x, r)"
proof (cases "x = 0")
  case True
  then show ?thesis by (simp add: str_nat_def u_def int_digits_def)
next
  case False
  then obtain c s where s: "str_nat x = c # s" "c \<noteq> 48" "is_digit c" "list_all is_digit s"
    using str_nat_digits by blast
  then have "takeWhile is_digit ((c # s) @ r) = c # s" "dropWhile is_digit ((c # s) @ r) = r"
    using ends_value_digits [OF assms] by (simp_all add: list_all_iff)
  with s show ?thesis by (simp add: int_digits_def)
qed

lemma scan_number_str_nat:
  assumes "ends_value r" and "length (str_nat x) \<le> max_str_digits"
  shows "scan_number neg (str_nat x @ r) = Inr (PInt (if neg then - int x else int x), r)"
  using assms ends_value_digits [OF assms(1)]
  by (simp add: scan_number_def int_digits_str_nat Let_def)

lemma scan_const_number: "is_digit c \<or> (c = 45 \<and> (s = [] \<or> hd s \<noteq> 73)) \<Longrightarrow> scan_const ch (c # s) = None"
  by (cases s) (auto simp: scan_const_def u_def is_digit_def split: option.splits)

lemma small_int_length: "\<bar>i\<bar> < 2 ^ 53 \<Longrightarrow> length (str_nat (nat \<bar>i\<bar>)) \<le> max_str_digits"
proof -
  assume "\<bar>i\<bar> < 2 ^ 53"
  then have "nat \<bar>i\<bar> < 10 ^ 16" by (simp add: nat_less_iff)
  from length_digits_le [OF this] show ?thesis
    by (simp add: str_nat_def max_str_digits_def digit_chars_def u_def)
qed

lemma parse_int:
  assumes "\<bar>i\<bar> < 2 ^ 53" and "ends_value r"
  shows "parse_value (Suc f) ph ch (str_int i @ r) = Inr (PInt i, r)"
proof -
  have len: "length (str_nat (nat \<bar>i\<bar>)) \<le> max_str_digits" using small_int_length [OF assms(1)] .
  obtain c s where cs: "str_nat (nat \<bar>i\<bar>) = c # s" and c: "is_digit c"
    by (cases "str_nat (nat \<bar>i\<bar>)") (use is_digit_str_nat [of "nat \<bar>i\<bar>"] in auto)
  note num = scan_number_str_nat [OF assms(2) len]
  show ?thesis
  proof (cases "i < 0")
    case True
    then have si: "str_int i = 45 # c # s" using cs by (simp add: str_int_def u_def)
    have "scan_const ch (45 # c # s @ r) = None"
      using c by (intro scan_const_number) (auto simp: is_digit_def)
    then show ?thesis
      using num [of True, unfolded cs] True by (simp add: si uncons_def scan_scalar_def)
  next
    case False
    then have si: "str_int i = c # s" using cs by (simp add: str_int_def)
    have "scan_const ch (c # s @ r) = None" using c by (intro scan_const_number) auto
    then show ?thesis
      using num [of False, unfolded cs] False c by (auto simp: si uncons_def scan_scalar_def is_digit_def)
  qed
qed

section \<open>Values\<close>

text \<open>Values without floats or big integers, with distinct member names and no surrogates.\<close>

fun plain :: "pyval \<Rightarrow> bool" where
  "plain (PInt i) = (\<bar>i\<bar> < 2 ^ 53)"
| "plain (PFloat f) = False"
| "plain (PStr s) = list_all scalar s"
| "plain (PList xs) = (\<forall>x \<in> set xs. plain x)"
| "plain (PDict d) = (distinct (map fst d) \<and> (\<forall>p \<in> set d. list_all scalar (fst p) \<and> plain (snd p)))"
| "plain _ = True"

text \<open>The same value with the members of every object in canonical order.\<close>

fun canon :: "pyval \<Rightarrow> pyval" where
  "canon (PList xs) = PList (map canon xs)"
| "canon (PDict d) = PDict (sort_key (\<lambda>p. utf16_key (fst p)) (map (\<lambda>p. (fst p, canon (snd p))) d))"
| "canon v = v"

lemma sort_key_map_snd:
  "sort_key (\<lambda>p. f (fst p)) (map (\<lambda>p. (fst p, g (snd p))) d) =
   map (\<lambda>p. (fst p, g (snd p))) (sort_key (\<lambda>p. f (fst p)) d)"
proof (induction d)
  case (Cons p d)
  have "insort_key (\<lambda>p. f (fst p)) (fst p, g (snd p)) (map (\<lambda>p. (fst p, g (snd p))) xs) =
      map (\<lambda>p. (fst p, g (snd p))) (insort_key (\<lambda>p. f (fst p)) p xs)" for xs
    by (induction xs) auto
  with Cons show ?case by simp
qed simp

lemma canon_PDict:
  "canon (PDict d) = PDict (map (\<lambda>p. (fst p, canon (snd p))) (sort_key (\<lambda>p. utf16_key (fst p)) d))"
  by (simp add: sort_key_map_snd)

lemma reject_duplicate_keys_distinct:
  "distinct (map fst ps) \<Longrightarrow> reject_duplicate_keys ps = Inr ps"
proof -
  have "reject_duplicate_keys_loop obj ps = Inr (obj @ ps)" if "distinct (map fst (obj @ ps))" for obj
    using that
  proof (induction ps arbitrary: obj)
    case (Cons p ps)
    then have "\<not> has obj (fst p)" by (auto simp: has_def)
    with Cons.IH [of "obj @ [p]"] Cons.prems show ?case by (cases p) simp
  qed simp
  from this [of "[]"] show "distinct (map fst ps) \<Longrightarrow> ?thesis" by (simp add: reject_duplicate_keys_def)
qed

definition value_start :: "ustr \<Rightarrow> bool" where
  "value_start t \<longleftrightarrow> t \<noteq> [] \<and> \<not> is_ws (hd t) \<and> hd t \<noteq> 93"

lemma skip_ws_start: "value_start t \<Longrightarrow> skip_ws (t @ r) = t @ r"
  by (cases t) (auto simp: value_start_def skip_ws_def)

lemma skip_ws_Cons [simp]: "\<not> is_ws c \<Longrightarrow> skip_ws (c # r) = c # r"
  by (simp add: skip_ws_def)

lemma not_ws [simp]: "\<not> is_ws 34" "\<not> is_ws 44" "\<not> is_ws 58" "\<not> is_ws 93" "\<not> is_ws 125" "\<not> is_ws 91" "\<not> is_ws 123"
  by (simp_all add: is_ws_def)

abbreviation "parse_v \<equiv> \<lambda>f. parse_value f reject_duplicate_keys reject_constant"
abbreviation "parse_m \<equiv> \<lambda>f. parse_members f reject_duplicate_keys reject_constant"
abbreviation "parse_e \<equiv> \<lambda>f. parse_elements f reject_duplicate_keys reject_constant"

lemma str_int_start: "value_start (str_int i)"
proof -
  obtain c s where "str_nat (nat \<bar>i\<bar>) = c # s" "is_digit c"
    by (cases "str_nat (nat \<bar>i\<bar>)") (use is_digit_str_nat [of "nat \<bar>i\<bar>"] in auto)
  then show ?thesis
    by (auto simp: value_start_def str_int_def u_def is_ws_def is_digit_def)
qed

lemma parse_scalar:
  assumes "\<not> is_list x" "\<not> is_dict x" "plain x" "scalar_text x = Inr t" "ends_value r"
  shows "value_start t \<and> parse_v (Suc f) (t @ r) = Inr (canon x, r)"
proof (cases x)
  case (PStr s)
  have "uncons (t @ r) = Inr (34, tl t @ r)" and "t \<noteq> []" and "hd t = 34"
    using assms(4) by (auto simp: PStr scalar_text_def uncons_def format_string_def)
  moreover have "scan_str (tl t @ r) = Inr (s, r)"
    using assms(4) scan_format_string [of s r] by (simp add: PStr scalar_text_def)
  ultimately show ?thesis by (simp add: value_start_def PStr)
next
  case (PInt i)
  then show ?thesis
    using assms parse_int [of i r f] str_int_start [of i] by (simp add: scalar_text_def format_number_int)
qed (use assms in \<open>auto simp: scalar_text_def value_start_def u_def is_ws_def uncons_def scan_scalar_def scan_const_def
      split: if_splits\<close>)

section \<open>The round trip\<close>

text \<open>Fuel and input shrink together.\<close>

lemma serialize_parse:
  "serialize d v x = Inr (t, w) \<Longrightarrow> plain x \<Longrightarrow>
     value_start t \<and>
     (\<forall>r f. ends_value r \<longrightarrow> 2 * length (t @ r) + 1 \<le> f \<longrightarrow> parse_v f (t @ r) = Inr (canon x, r))"
  "serialize_items d v b xs = Inr (t, w) \<Longrightarrow> (\<forall>x \<in> set xs. plain x) \<Longrightarrow>
     (if xs = [] then t = []
      else \<exists>t0. t = (if b then t0 else 44 # t0) \<and> value_start t0 \<and>
        (\<forall>r f acc. 2 * length (t0 @ 93 # r) + 2 \<le> f \<longrightarrow>
           parse_e f acc (t0 @ 93 # r) = Inr (PList (acc @ map canon xs), r)))"
  "serialize_members d v b ms = Inr (t, w) \<Longrightarrow> (\<forall>p \<in> set ms. plain (snd p)) \<Longrightarrow>
     (if ms = [] then t = []
      else \<exists>t0. t = (if b then t0 else 44 # t0) \<and> t0 \<noteq> [] \<and> hd t0 = 34 \<and>
        (\<forall>r f acc. distinct (map fst (acc @ ms)) \<longrightarrow> 2 * length (t0 @ 125 # r) + 2 \<le> f \<longrightarrow>
           parse_m f acc (t0 @ 125 # r) =
             Inr (PDict (acc @ map (\<lambda>p. (fst p, canon (snd p))) ms), r)))"
proof (induction d v x and d v b xs and d v b ms arbitrary: t w and t w and t w rule: serialize_induct)
  case (scalar d v x)
  then have st: "scalar_text x = Inr t" by (auto simp: serialize_scalar ok_simps)
  have "value_start t \<and> parse_v f (t @ r) = Inr (canon x, r)"
    if "ends_value r" "2 * length (t @ r) + 1 \<le> f" for r f
    using parse_scalar [OF scalar(1,2,4) st that(1), of "f - 1"] that(2) by (cases f) auto
  from this [of "[]"] this show ?case by (auto simp: ends_value_def)
next
  case (list d v xs)
  from list.prems(1) obtain t' where v: "Suc v \<le> max_nodes_visited" "d \<le> max_depth"
    and items: "serialize_items (Suc d) (Suc v) True xs = Inr (t', w)" and t: "t = 91 # t' @ [93]"
    by (auto simp: serialize_PList ok_simps u_def)
  have plain: "\<forall>x \<in> set xs. plain x" using list.prems(2) by simp
  have "parse_v f (t @ r) = Inr (canon (PList xs), r)" if f: "2 * length (t @ r) + 1 \<le> f" for r f
  proof -
    obtain f' where f': "f = Suc f'" using f by (cases f) auto
    show ?thesis
    proof (cases "xs = []")
      case True
      then have "t' = []" using list.IH [OF v items plain] by simp
      then show ?thesis by (simp add: t f' uncons_def next_tok_def True)
    next
      case False
      with list.IH [OF v items plain] have vs: "value_start t'"
        and pe: "2 * length (t' @ 93 # r) + 2 \<le> f' \<Longrightarrow> parse_e f' [] (t' @ 93 # r) = Inr (PList (map canon xs), r)"
        by auto
      obtain c t'' where c: "t' = c # t''" "c \<noteq> 93" using vs by (cases t') (auto simp: value_start_def)
      have "next_tok (t' @ 93 # r) = Inr (c, t'' @ 93 # r)"
        using skip_ws_start [OF vs, of "93 # r"] by (simp add: next_tok_def uncons_def c(1))
      with pe f show ?thesis by (simp add: t f' uncons_def c)
    qed
  qed
  then show ?case by (auto simp: t value_start_def is_ws_def)
next
  case (dict d v m)
  from dict.prems(1) obtain t' ms where v: "Suc v \<le> max_nodes_visited" "d \<le> max_depth"
    and sm: "sorted_members m = Inr ms"
    and items: "serialize_members (Suc d) (Suc v) True ms = Inr (t', w)" and t: "t = 123 # t' @ [125]"
    by (auto simp: serialize_PDict ok_simps u_def)
  have ms: "ms = sort_key (\<lambda>p. utf16_key (fst p)) m" using sm by (simp add: ok_simps)
  have plain: "\<forall>p \<in> set ms. plain (snd p)" using dict.prems(2) by (simp add: ms)
  have dist: "distinct (map fst ms)"
    using dict.prems(2) by (simp add: ms distinct_map inj_on_def)
  have can: "canon (PDict m) = PDict (map (\<lambda>p. (fst p, canon (snd p))) ms)"
    unfolding canon_PDict ms ..
  have "parse_v f (t @ r) = Inr (canon (PDict m), r)" if f: "2 * length (t @ r) + 1 \<le> f" for r f
  proof -
    obtain f' where f': "f = Suc f'" using f by (cases f) auto
    show ?thesis
    proof (cases "ms = []")
      case True
      then have "t' = []" using dict.IH [OF v sm items plain] by simp
      moreover have "canon (PDict m) = PDict []" unfolding can by (simp add: True)
      ultimately show ?thesis
        by (simp add: t f' uncons_def next_tok_def reject_duplicate_keys_def del: canon.simps)
    next
      case False
      with dict.IH [OF v sm items plain] dist have h: "t' \<noteq> []" "hd t' = 34"
        and pm: "2 * length (t' @ 125 # r) + 2 \<le> f' \<Longrightarrow>
          parse_m f' [] (t' @ 125 # r) = Inr (PDict (map (\<lambda>p. (fst p, canon (snd p))) ms), r)"
        by auto
      obtain t'' where c: "t' = 34 # t''" using h by (cases t') auto
      have "next_tok (t' @ 125 # r) = Inr (34, t'' @ 125 # r)"
        by (simp add: next_tok_def uncons_def c)
      with pm f show ?thesis by (simp add: t f' uncons_def c can del: canon.simps)
    qed
  qed
  then show ?case by (auto simp: t value_start_def is_ws_def)
next
  case (Cons d v b x xs)
  from Cons.prems(1) obtain t1 w1 t2 where x: "serialize d v x = Inr (t1, w1)"
    and xs: "serialize_items d w1 False xs = Inr (t2, w)" and t: "t = (if b then [] else [44]) @ t1 @ t2"
    by (auto simp: ok_simps u_def split: if_splits)
  have px: "plain x" and pxs: "\<forall>x \<in> set xs. plain x" using Cons.prems(2) by auto
  note IHx = Cons.IH(1) [OF x px] and IHxs = Cons.IH(2) [OF x xs pxs]
  have "parse_e f acc ((t1 @ t2) @ 93 # r) = Inr (PList (acc @ map canon (x # xs)), r)"
    if f: "2 * length ((t1 @ t2) @ 93 # r) + 2 \<le> f" for r f acc
  proof -
    obtain f' where f': "f = Suc f'" using f by (cases f) auto
    show ?thesis
    proof (cases "xs = []")
      case True
      then have "t2 = []" using IHxs by simp
      then show ?thesis using IHx f by (simp add: f' True next_tok_def uncons_def)
    next
      case False
      with IHxs obtain t0 where t0: "t2 = 44 # t0" "value_start t0"
        and pe: "\<And>acc. 2 * length (t0 @ 93 # r) + 2 \<le> f' \<Longrightarrow>
          parse_e f' acc (t0 @ 93 # r) = Inr (PList (acc @ map canon xs), r)" by auto
      have "parse_v f' (t1 @ 44 # t0 @ 93 # r) = Inr (canon x, 44 # t0 @ 93 # r)"
        using IHx f by (simp add: f' t0)
      then show ?thesis
        using pe [of "acc @ [canon x]"] f skip_ws_start [OF t0(2), of "93 # r"]
        by (simp add: f' t0 next_tok_def uncons_def)
    qed
  qed
  moreover have "value_start (t1 @ t2)" using IHx by (auto simp: value_start_def)
  ultimately show ?case
    by (intro if_not_P [THEN iffD2] exI [of _ "t1 @ t2"]) (auto simp: t)
next
  case (MCons d v b k x ms)
  from MCons.prems(1) obtain t1 w1 t2 where x: "serialize d v x = Inr (t1, w1)"
    and ms: "serialize_members d w1 False ms = Inr (t2, w)"
    and t: "t = (if b then [] else [44]) @ format_string k @ 58 # t1 @ t2"
    by (auto simp: ok_simps u_def split: if_splits)
  have px: "plain x" and pms: "\<forall>p \<in> set ms. plain (snd p)" using MCons.prems(2) by auto
  note IHx = MCons.IH(1) [OF x px] and IHms = MCons.IH(2) [OF x ms pms]
  let ?k = "tl (format_string k)"
  let ?m = "\<lambda>p. (fst p, canon (snd p))"
  have start: "skip_ws (t1 @ s) = t1 @ s" for s using IHx skip_ws_start by blast
  have "parse_m f acc ((34 # ?k @ 58 # t1 @ t2) @ 125 # r) = Inr (PDict (acc @ map ?m ((k, x) # ms)), r)"
    if f: "2 * length ((34 # ?k @ 58 # t1 @ t2) @ 125 # r) + 2 \<le> f"
      and dist: "distinct (map fst (acc @ (k, x) # ms))" for r f acc
  proof -
    obtain f' where f': "f = Suc f'" using f by (cases f) auto
    show ?thesis
    proof (cases "ms = []")
      case True
      then have "t2 = []" using IHms by simp
      moreover have "reject_duplicate_keys (acc @ [(k, canon x)]) = Inr (acc @ [(k, canon x)])"
        using dist True by (intro reject_duplicate_keys_distinct) auto
      ultimately show ?thesis
        using IHx f by (simp add: f' True next_tok_def uncons_def scan_format_string start)
    next
      case False
      with IHms obtain t0 where t0: "t2 = 44 # t0" "t0 \<noteq> []" "hd t0 = 34"
        and pm: "\<And>acc. distinct (map fst (acc @ ms)) \<Longrightarrow> 2 * length (t0 @ 125 # r) + 2 \<le> f' \<Longrightarrow>
          parse_m f' acc (t0 @ 125 # r) = Inr (PDict (acc @ map ?m ms), r)" by auto
      have "parse_v f' (t1 @ 44 # t0 @ 125 # r) = Inr (canon x, 44 # t0 @ 125 # r)"
        using IHx f by (simp add: f' t0)
      moreover have "skip_ws (t0 @ 125 # r) = t0 @ 125 # r"
        using t0 by (cases t0) auto
      moreover have "parse_m f' (acc @ [(k, canon x)]) (t0 @ 125 # r) =
          Inr (PDict ((acc @ [(k, canon x)]) @ map ?m ms), r)"
        using f dist by (intro pm) (auto simp: f' t0)
      ultimately show ?thesis
        using f by (simp add: f' t0 next_tok_def uncons_def scan_format_string start)
    qed
  qed
  moreover have "format_string k = 34 # ?k" by (rule format_string_Cons)
  ultimately show ?case
    by (intro if_not_P [THEN iffD2] exI [of _ "34 # ?k @ 58 # t1 @ t2"]) (auto simp: t)
qed simp_all

lemma dumps_loads:
  assumes "dumps v = Inr t" and "plain v"
  shows "loads_str t = Inr (canon v)"
proof -
  obtain w where "serialize 0 0 v = Inr (t, w)" using assms(1) by (auto simp: dumps_def ok_simps)
  note p = serialize_parse(1) [OF this assms(2)]
  then have st: "value_start t" by blast
  have pv: "parse_v (2 * length t + 1) t = Inr (canon v, [])"
    using p [THEN conjunct2, rule_format, of "[]" "2 * length t + 1"] by (simp only: append_Nil2) (simp add: ends_value_def)
  have "skip_ws t = t" using skip_ws_start [OF st, of "[]"] by simp
  then show ?thesis
    unfolding loads_str_def json_loads_def Let_def by (simp only: pv bindE_Inr) (simp add: skip_ws_def)
qed

lemma canonicalize_loads:
  assumes "canonicalize v = Inr b" and "plain v"
  shows "loads_bytes b = Inr (canon v)"
proof -
  obtain t where t: "dumps v = Inr t" "utf8_encode t = Inr b"
    using assms(1) by (auto simp: canonicalize_def ok_simps)
  show ?thesis
    using dumps_loads [OF t(1) assms(2)] utf8_decode_encode [OF t(2)]
    by (simp add: loads_bytes_def)
qed

text \<open>Plain values within the bounds are printed, with scalar characters only.\<close>

lemma format_char_scalar: "scalar c \<Longrightarrow> list_all scalar (format_char c)"
  by (auto simp: format_char_def named_escape_def hex_digit_def intro!: ascii_scalar)

lemma format_string_scalar: "list_all scalar s \<Longrightarrow> list_all scalar (format_string s)"
  using format_char_scalar by (auto simp: format_string_def list_all_iff ascii_scalar)

lemma str_int_scalar: "list_all scalar (str_int i)"
  using str_nat_range by (auto simp: str_int_def list_all_iff u_def intro!: ascii_scalar dest!: str_nat_range)

lemma scalar_text_plain:
  assumes "\<not> is_list x" "\<not> is_dict x" "plain x"
  shows "\<exists>t. scalar_text x = Inr t \<and> list_all scalar t"
proof (cases x)
  case (PInt i)
  then show ?thesis using assms str_int_scalar by (auto simp: scalar_text_def format_number_int)
qed (use assms in \<open>auto simp: scalar_text_def format_string_scalar u_def intro!: ascii_scalar\<close>)

lemma serialize_total:
  "plain x \<Longrightarrow> d + nesting x \<le> max_depth \<Longrightarrow> v + nodes x \<le> max_nodes_visited \<Longrightarrow>
     \<exists>t. serialize d v x = Inr (t, v + nodes x) \<and> list_all scalar t"
  "\<forall>x \<in> set xs. plain x \<and> d + nesting x \<le> max_depth \<Longrightarrow> v + sum_list (map nodes xs) \<le> max_nodes_visited \<Longrightarrow>
     \<exists>t. serialize_items d v b xs = Inr (t, v + sum_list (map nodes xs)) \<and> list_all scalar t"
  "\<forall>p \<in> set ms. list_all scalar (fst p) \<and> plain (snd p) \<and> d + nesting (snd p) \<le> max_depth \<Longrightarrow>
     v + sum_list (map (\<lambda>p. nodes (snd p)) ms) \<le> max_nodes_visited \<Longrightarrow>
     \<exists>t. serialize_members d v b ms = Inr (t, v + sum_list (map (\<lambda>p. nodes (snd p)) ms)) \<and> list_all scalar t"
proof (induction d v x and d v b xs and d v b ms rule: serialize_induct)
  case (scalar d v x)
  then have "nodes x = 1" by (cases x) auto
  with scalar scalar_text_plain [OF scalar(1,2,3)] show ?case by (auto simp: serialize_scalar)
next
  case (list d v xs)
  then have "Suc v \<le> max_nodes_visited" "d \<le> max_depth" "\<forall>x \<in> set xs. plain x \<and> Suc d + nesting x \<le> max_depth"
    "Suc v + sum_list (map nodes xs) \<le> max_nodes_visited"
    by (auto simp: foldr_max_le)
  with list.IH show ?case by (auto simp: serialize_PList u_def ascii_scalar)
next
  case (dict d v m)
  define ms where "ms = sort_key (\<lambda>p. utf16_key (fst p)) m"
  have ms: "sorted_members m = Inr ms" using dict.prems by (auto simp: ok_simps ms_def)
  have set: "set ms = set m" by (simp add: ms_def)
  have sum: "sum_list (map (\<lambda>p. nodes (snd p)) ms) = sum_list (map (\<lambda>p. nodes (snd p)) m)"
    by (rule sum_list_mset) (simp add: ms_def)
  have b: "Suc v \<le> max_nodes_visited" "d \<le> max_depth" using dict.prems by (auto simp: foldr_max_le)
  have "\<forall>p \<in> set ms. list_all scalar (fst p) \<and> plain (snd p) \<and> Suc d + nesting (snd p) \<le> max_depth"
    "Suc v + sum_list (map (\<lambda>p. nodes (snd p)) ms) \<le> max_nodes_visited"
    using dict.prems by (auto simp: foldr_max_le set sum)
  from dict.IH [OF b ms this] b show ?case by (auto simp: serialize_PDict ms sum ascii_scalar)
next
  case (Cons d v b x xs)
  from Cons.IH(1) Cons.prems obtain t where t: "serialize d v x = Inr (t, v + nodes x)" "list_all scalar t" by auto
  from Cons.IH(2) [OF t(1)] Cons.prems obtain t' where
    "serialize_items d (v + nodes x) False xs = Inr (t', v + nodes x + sum_list (map nodes xs))" "list_all scalar t'"
    by (auto simp: add.assoc)
  with t show ?case by (auto simp: add.assoc u_def ascii_scalar)
next
  case (MCons d v b k x ms)
  from MCons.IH(1) MCons.prems obtain t where t: "serialize d v x = Inr (t, v + nodes x)" "list_all scalar t" by auto
  from MCons.IH(2) [OF t(1)] MCons.prems obtain t' where
    "serialize_members d (v + nodes x) False ms = Inr (t', v + nodes x + sum_list (map (\<lambda>p. nodes (snd p)) ms))"
    "list_all scalar t'"
    by (auto simp: add.assoc)
  with t MCons.prems show ?case by (auto simp: add.assoc u_def ascii_scalar format_string_scalar)
qed simp_all

lemma canonicalize_plain:
  "plain v \<Longrightarrow> nesting v \<le> max_depth \<Longrightarrow> nodes v \<le> max_nodes_visited \<Longrightarrow> \<exists>b. canonicalize v = Inr b"
  using serialize_total(1) [of v 0 0] by (auto simp: canonicalize_def dumps_def utf8_encode_def)

text \<open>A plain value fails only on the two bounds.\<close>

lemma serialize_plain_err:
  "serialize d v x = Inl e \<Longrightarrow> plain x \<Longrightarrow> e = JcsError"
  "serialize_items d v b xs = Inl e \<Longrightarrow> \<forall>x \<in> set xs. plain x \<Longrightarrow> e = JcsError"
  "serialize_members d v b ms = Inl e \<Longrightarrow> \<forall>p \<in> set ms. plain (snd p) \<Longrightarrow> e = JcsError"
proof (induction d v x and d v b xs and d v b ms rule: serialize_induct)
  case (dict d v m)
  define ms where "ms = sort_key (\<lambda>p. utf16_key (fst p)) m"
  have ms: "sorted_members m = Inr ms" using dict.prems by (auto simp: ok_simps ms_def)
  with dict.prems have "e = JcsError \<or> (Suc v \<le> max_nodes_visited \<and> d \<le> max_depth \<and>
      serialize_members (Suc d) (Suc v) True ms = Inl e)"
    by (auto simp: serialize_PDict err_simps)
  then show ?case using dict.IH [OF _ _ ms] dict.prems(2) by (auto simp: ms_def)
qed (auto simp: err_simps serialize_walk dest: scalar_text_err)

lemma canonicalize_plain_err:
  assumes "canonicalize v = Inl e" and "plain v"
  shows "e = JcsError" and "\<not> (nesting v \<le> max_depth \<and> nodes v \<le> max_nodes_visited)"
proof -
  from assms canonicalize_plain [OF assms(2)]
  show *: "\<not> (nesting v \<le> max_depth \<and> nodes v \<le> max_nodes_visited)" by auto
  show "e = JcsError"
  proof (cases "dumps v")
    case (Inl a)
    with assms show ?thesis by (auto simp: canonicalize_def dumps_def err_simps dest: serialize_plain_err)
  next
    case (Inr t)
    with dumps_bounds * show ?thesis by blast
  qed
qed

lemma canonicalize_bounds: "canonicalize v = Inr b \<Longrightarrow> nesting v \<le> max_depth \<and> nodes v \<le> max_nodes_visited"
  by (auto simp: canonicalize_def ok_simps dest: dumps_bounds)

section \<open>Properties\<close>

text \<open>
  C36. Round trip, complete: a value whose numbers are integers below \<open>2 ^ 53\<close> is canonicalized
  exactly when it is within the canonicalizer's two bounds (256 levels, 200000 nodes); the strict
  parser then reads its bytes back as the same value with its members in canonical order. Above a
  bound the one outcome is \<open>JcsError\<close>.
\<close>

theorem jcs_roundtrip:
  assumes "plain v"
  shows "if nesting v \<le> 256 \<and> nodes v \<le> 200000
         then \<exists>b. canonicalize v = Inr b \<and> loads_bytes b = Inr (canon v)
         else canonicalize v = Inl JcsError"
proof (cases "canonicalize v")
  case (Inl e)
  then show ?thesis using canonicalize_plain_err [OF Inl assms] by (simp add: max_depth_def max_nodes_visited_def)
next
  case (Inr b)
  then show ?thesis
    using canonicalize_bounds [OF Inr] canonicalize_loads [OF Inr assms] by (simp add: max_depth_def max_nodes_visited_def)
qed


text \<open>
  An integer of magnitude below \<open>2 ^ 53\<close> is printed as its decimal digits, although the code
  formats it through a float.
\<close>

theorem integers_printed_in_decimal:
  assumes "\<bar>i\<bar> < 2 ^ 53"
  shows "format_number (PInt i) = Inr (str_int i)"
  by (rule format_number_int [OF assms])

end
