(* ===== verification/B64.thy ===== *)
theory B64
  imports Prelude
begin

text \<open>
  \<open>aitp_verifier/b64.py\<close>: unpadded base64url. Encoding and decoding work on groups of
  three bytes and four characters; the decoder is Python's \<open>base64.urlsafe_b64decode\<close>
  behind the module's own alphabet check, and like it ignores the spare low bits of the
  last character.
\<close>

text \<open>The six-bit value of a character of \<open>_ALPHABET\<close>, and back.\<close>

definition b64_val :: "nat \<Rightarrow> nat option" where
  "b64_val c =
     (if 65 \<le> c \<and> c \<le> 90 then Some (c - 65)
      else if 97 \<le> c \<and> c \<le> 122 then Some (c - 71)
      else if 48 \<le> c \<and> c \<le> 57 then Some (c + 4)
      else if c = 45 then Some 62
      else if c = 95 then Some 63
      else None)"

definition b64_char :: "nat \<Rightarrow> nat" where
  "b64_char v =
     (if v < 26 then v + 65 else if v < 52 then v + 71 else if v < 62 then v - 4
      else if v = 62 then 45 else 95)"

definition in_alphabet :: "nat \<Rightarrow> bool" where
  "in_alphabet c \<longleftrightarrow> b64_val c \<noteq> None"

fun encode_vals :: "nat list \<Rightarrow> nat list" where
  "encode_vals [] = []"
| "encode_vals [a] = [a div 4, a mod 4 * 16]"
| "encode_vals [a, b] = [a div 4, a mod 4 * 16 + b div 16, b mod 16 * 4]"
| "encode_vals (a # b # c # r) =
     a div 4 # (a mod 4 * 16 + b div 16) # (b mod 16 * 4 + c div 64) # c mod 64 # encode_vals r"

fun decode_vals :: "nat list \<Rightarrow> nat list res" where
  "decode_vals [] = Inr []"
| "decode_vals [x] = Inl BinasciiError"
| "decode_vals [x, y] = Inr [x * 4 + y div 16]"
| "decode_vals [x, y, z] = Inr [x * 4 + y div 16, y mod 16 * 16 + z div 4]"
| "decode_vals (x # y # z # w # r) =
     bindE (decode_vals r) (\<lambda>t. Inr ((x * 4 + y div 16) # (y mod 16 * 16 + z div 4) # (z mod 4 * 64 + w) # t))"

definition b64url_encode :: "bytes \<Rightarrow> ustr" where
  "b64url_encode data = map b64_char (encode_vals (map unat data))"

definition b64url_decode :: "ustr \<Rightarrow> bytes res" where
  "b64url_decode text =
     ensure (list_all in_alphabet text) (Inl ValueError)
       (bindE (decode_vals (map (\<lambda>c. the (b64_val c)) text)) (\<lambda>vs. Inr (map word_of_nat vs)))"

lemma b64_val_char: "v < 64 \<Longrightarrow> b64_val (b64_char v) = Some v"
  by (auto simp: b64_val_def b64_char_def)

lemma b64_val_lt: "b64_val c = Some v \<Longrightarrow> v < 64"
  by (auto simp: b64_val_def split: if_splits)

lemma b64_char_val: "b64_val c = Some v \<Longrightarrow> b64_char v = c"
  by (auto simp: b64_val_def b64_char_def split: if_splits)

lemma sextets_lt:
  fixes a b c :: nat
  assumes "a < 256" and "b < 256" and "c < 256"
  shows "a div 4 < 64" "a mod 4 * 16 + b div 16 < 64" "b mod 16 * 4 + c div 64 < 64" "c mod 64 < 64"
proof -
  have "a mod 4 < 4" "b div 16 < 16" "b mod 16 < 16" "c div 64 < 4" using assms by auto
  then show "a mod 4 * 16 + b div 16 < 64" "b mod 16 * 4 + c div 64 < 64" by linarith+
qed (use assms in auto)

lemma sextets_join:
  fixes a b c :: nat
  assumes "a < 256" and "b < 256" and "c < 256"
  shows "a div 4 * 4 + (a mod 4 * 16 + b div 16) div 16 = a"
    and "(a mod 4 * 16 + b div 16) mod 16 * 16 + (b mod 16 * 4 + c div 64) div 4 = b"
    and "(b mod 16 * 4 + c div 64) mod 4 * 64 + c mod 64 = c"
proof -
  have "b div 16 < 16" "c div 64 < 4" using assms by auto
  then show "a div 4 * 4 + (a mod 4 * 16 + b div 16) div 16 = a"
    and "(a mod 4 * 16 + b div 16) mod 16 * 16 + (b mod 16 * 4 + c div 64) div 4 = b"
    and "(b mod 16 * 4 + c div 64) mod 4 * 64 + c mod 64 = c"
    by simp_all
qed

lemma encode_vals_lt: "(\<And>a. a \<in> set as \<Longrightarrow> a < 256) \<Longrightarrow> v \<in> set (encode_vals as) \<Longrightarrow> v < 64"
proof (induction as rule: encode_vals.induct)
  case (2 a)
  then show ?case using sextets_lt [of a 0 0] by auto
next
  case (3 a b)
  then show ?case using sextets_lt [of a b 0] by auto
next
  case (4 a b c r)
  then show ?case using sextets_lt [of a b c] by auto
qed simp

lemma decode_encode_vals: "(\<And>a. a \<in> set as \<Longrightarrow> a < 256) \<Longrightarrow> decode_vals (encode_vals as) = Inr as"
proof (induction as rule: encode_vals.induct)
  case (2 a)
  then show ?case using sextets_join [of a 0 0] by simp
next
  case (3 a b)
  then show ?case using sextets_join [of a b 0] by simp
next
  case (4 a b c r)
  then have "decode_vals (encode_vals r) = Inr r" "a < 256" "b < 256" "c < 256" by auto
  then show ?case using sextets_join [of a b c] by simp
qed simp

lemma decode_vals_length: "decode_vals vs = Inr bs \<Longrightarrow> length bs = length vs * 3 div 4"
  by (induction vs arbitrary: bs rule: decode_vals.induct) (auto simp: ok_simps)

lemma decode_vals_ok_iff: "(\<exists>bs. decode_vals vs = Inr bs) \<longleftrightarrow> length vs mod 4 \<noteq> 1"
  by (induction vs rule: decode_vals.induct) (auto simp: ok_simps)

lemma decode_vals_err: "decode_vals vs = Inl e \<Longrightarrow> e = BinasciiError"
  by (induction vs rule: decode_vals.induct) (auto simp: err_simps)

lemma in_alphabet_char: "v < 64 \<Longrightarrow> in_alphabet (b64_char v)"
  by (simp add: in_alphabet_def b64_val_char)

lemma encode_alphabet: "c \<in> set (b64url_encode data) \<Longrightarrow> in_alphabet c"
proof -
  assume "c \<in> set (b64url_encode data)"
  then obtain v where "v \<in> set (encode_vals (map unat data))" "c = b64_char v"
    by (auto simp: b64url_encode_def)
  moreover from this have "v < 64"
    by (intro encode_vals_lt [of "map unat data"]) auto
  ultimately show ?thesis by (simp add: in_alphabet_char)
qed

lemma in_alphabet_ascii: "in_alphabet c \<Longrightarrow> c < 128 \<and> 32 < c \<and> c \<noteq> 34 \<and> c \<noteq> 46 \<and> c \<noteq> 92"
  by (auto simp: in_alphabet_def b64_val_def split: if_splits)

lemma b64url_decode_encode: "b64url_decode (b64url_encode data) = Inr data"
proof -
  let ?vs = "encode_vals (map unat data)"
  have lt: "a \<in> set (map unat data) \<Longrightarrow> a < 256" for a
    by auto
  have "v < 64" if "v \<in> set ?vs" for v
    using that lt by (rule encode_vals_lt [rotated])
  then have "map (\<lambda>c. the (b64_val c)) (map b64_char ?vs) = ?vs"
    unfolding map_map by (intro map_idI) (simp add: b64_val_char)
  moreover have "list_all in_alphabet (b64url_encode data)"
    by (simp add: list_all_iff encode_alphabet)
  moreover have "decode_vals ?vs = Inr (map unat data)"
    using lt by (rule decode_encode_vals)
  ultimately show ?thesis
    by (simp add: b64url_decode_def b64url_encode_def comp_def)
qed

lemma b64url_decode_ok_iff:
  "(\<exists>bs. b64url_decode t = Inr bs) \<longleftrightarrow> list_all in_alphabet t \<and> length t mod 4 \<noteq> 1"
  using decode_vals_ok_iff [of "map (\<lambda>c. the (b64_val c)) t"]
  by (auto simp: b64url_decode_def ok_simps)

lemma b64url_decode_length: "b64url_decode t = Inr bs \<Longrightarrow> length bs = length t * 3 div 4"
  by (auto simp: b64url_decode_def ok_simps dest!: decode_vals_length)

lemma b64url_decode_err: "b64url_decode t = Inl e \<Longrightarrow> is_value_error e"
  by (auto simp: b64url_decode_def err_simps dest!: decode_vals_err)

lemma b64url_decode_alphabet: "b64url_decode t = Inr bs \<Longrightarrow> c \<in> set t \<Longrightarrow> in_alphabet c"
  by (auto simp: b64url_decode_def ok_simps list_all_iff)

interpretation b64url: codec b64url_encode b64url_decode "\<lambda>_. True"
  by unfold_locales (rule b64url_decode_encode)

lemma encode_vals_length: "length (encode_vals as) = (length as * 4 + 2) div 3"
  by (induction as rule: encode_vals.induct) simp_all

lemma b64url_encode_length: "length (b64url_encode data) = (length data * 4 + 2) div 3"
  by (simp add: b64url_encode_def encode_vals_length)

lemma b64url_encode_alphabet: "list_all in_alphabet (b64url_encode data)"
  using encode_alphabet by (auto simp: list_all_iff)

section \<open>Properties\<close>

text \<open>
  Unpadded base64url round trip: the encoding of any bytes uses only the 64 characters, has
  four characters per three bytes rounded up, and decodes to the same bytes.
\<close>

lemma b64url_roundtrip:
  "b64url_decode (b64url_encode data) = Inr data \<and> list_all in_alphabet (b64url_encode data) \<and>
   length (b64url_encode data) = (length data * 4 + 2) div 3"
  by (simp add: b64url_decode_encode b64url_encode_length b64url_encode_alphabet)

text \<open>
  A text decodes exactly when every character is in the alphabet (so never with padding) and
  its length is not one more than a multiple of four; anything else is a \<open>ValueError\<close>.
\<close>

lemma b64url_decode_verdict:
  "(if list_all in_alphabet t \<and> length t mod 4 \<noteq> 1
    then \<exists>bs. b64url_decode t = Inr bs \<and> length bs = length t * 3 div 4
    else \<exists>e. b64url_decode t = Inl e \<and> is_value_error e)"
proof (cases "b64url_decode t")
  case (Inl e)
  with b64url_decode_ok_iff [of t] b64url_decode_err [OF Inl] show ?thesis by auto
next
  case (Inr bs)
  with b64url_decode_ok_iff [of t] b64url_decode_length [OF Inr] show ?thesis by auto
qed

text \<open>
  Spare bits are not checked: the texts \<open>AA\<close> and \<open>AB\<close> both decode to one zero byte, so a
  decoded field has more than one accepted spelling.
\<close>

theorem b64url_spare_bits_ignored:
  "b64url_decode (u ''AA'') = Inr [0] \<and> b64url_decode (u ''AB'') = Inr [0]"
  by (simp add: b64url_decode_def u_def list_all_iff in_alphabet_def b64_val_def)

end
