(* ===== verification/Field_Gates.thy ===== *)
theory Field_Gates
  imports Jcs_Roundtrip B64
begin

text \<open>
  \<open>aitp_verifier/fields.py\<close>: the gates every artifact's verifier runs on the members of an
  object (unknown members, required members, declared JSON types) and the two conversions that
  turn a canonicalization or base64url error into the caller's AITP code.
\<close>

section \<open>JSON types\<close>

datatype jtype = TStr | TInt | TFloat | TBool | TNone | TList | TDict

text \<open>\<open>isinstance(value, t)\<close>; Python makes \<open>True\<close> an \<open>int\<close>.\<close>

fun isinstance :: "pyval \<Rightarrow> jtype \<Rightarrow> bool" where
  "isinstance PNone t = (t = TNone)"
| "isinstance (PBool b) t = (t = TBool \<or> t = TInt)"
| "isinstance (PInt i) t = (t = TInt)"
| "isinstance (PFloat f) t = (t = TFloat)"
| "isinstance (PStr s) t = (t = TStr)"
| "isinstance (PList xs) t = (t = TList)"
| "isinstance (PDict d) t = (t = TDict)"

fun is_integral_float :: "pyval \<Rightarrow> bool" where
  "is_integral_float (PFloat f) = float_is_integer f"
| "is_integral_float _ = False"

fun is_bool :: "pyval \<Rightarrow> bool" where
  "is_bool (PBool b) = True"
| "is_bool _ = False"

text \<open>\<open>type(value).__name__\<close>\<close>

fun type_name :: "pyval \<Rightarrow> ustr" where
  "type_name PNone = u ''NoneType''"
| "type_name (PBool b) = u ''bool''"
| "type_name (PInt i) = u ''int''"
| "type_name (PFloat f) = u ''float''"
| "type_name (PStr s) = u ''str''"
| "type_name (PList xs) = u ''list''"
| "type_name (PDict d) = u ''dict''"

text \<open>What an error message may say of a value it rejects: a container is only named by its type.\<close>

definition describe_value :: "pyval \<Rightarrow> ustr" where
  "describe_value v =
     (if is_list v \<or> is_dict v then u ''<'' @ type_name v @ u ''>'' else py_repr v)"

section \<open>Gates\<close>

definition reject_unknown_fields :: "ustr list \<Rightarrow> string \<Rightarrow> pyval \<Rightarrow> unit res" where
  "reject_unknown_fields allowed shape_code obj =
     (case obj of
        PDict d \<Rightarrow>
          ensure (list_all (\<lambda>p. fst p \<in> set allowed) d) (raise ''UNKNOWN_FIELD'') (Inr ())
      | _ \<Rightarrow> raise shape_code)"

definition require_members :: "ustr list \<Rightarrow> string \<Rightarrow> dict \<Rightarrow> unit res" where
  "require_members required shape_code obj =
     ensure (list_all (has obj) required) (raise shape_code) (Inr ())"

definition type_ok :: "jtype list \<Rightarrow> pyval \<Rightarrow> bool" where
  "type_ok allowed v =
     (if is_bool v \<and> TBool \<notin> set allowed then False
      else if TInt \<in> set allowed \<and> is_integral_float v then True
      else list_ex (isinstance v) allowed)"

definition check_types :: "(ustr \<times> jtype list) list \<Rightarrow> string \<Rightarrow> dict \<Rightarrow> unit res" where
  "check_types types shape_code obj =
     eachE (\<lambda>(key, allowed).
       if \<not> has obj key then Inr ()
       else ensure (type_ok allowed (get obj key)) (raise shape_code) (Inr ())) types"

section \<open>Boundary conversions\<close>

definition canonical_bytes :: "string \<Rightarrow> pyval \<Rightarrow> bytes res" where
  "canonical_bytes shape_code v =
     catchE (\<lambda>e. e = JcsError) (canonicalize v) (\<lambda>_. raise shape_code)"

text \<open>\<open>b64url_decode(v)\<close> for a value of any type: what is not a string fails on its elements or its sum with one.\<close>

definition b64url_decode_value :: "pyval \<Rightarrow> bytes res" where
  "b64url_decode_value v =
     (case v of
        PStr s \<Rightarrow> b64url_decode s
      | _ \<Rightarrow>
          bindE (py_iter v) (\<lambda>chs.
          bindE (eachE (\<lambda>ch. ensure (hashable ch) (Inl TypeError) (
                   ensure (case ch of PStr [c] \<Rightarrow> in_alphabet c | _ \<Rightarrow> False) (Inl ValueError) (Inr ()))) chs) (\<lambda>_.
            Inl TypeError)))"

lemma b64url_decode_value_str [simp]: "b64url_decode_value (PStr s) = b64url_decode s"
  by (simp add: b64url_decode_value_def)

definition decode_b64url :: "string \<Rightarrow> ustr \<Rightarrow> bytes res" where
  "decode_b64url code text = catchE is_value_error (b64url_decode text) (\<lambda>_. raise code)"

section \<open>What the gates establish\<close>

lemma reject_unknown_fields_ok [ok_simps]:
  "reject_unknown_fields allowed c obj = Inr w \<longleftrightarrow>
     (\<exists>d. obj = PDict d \<and> (\<forall>k. has d k \<longrightarrow> k \<in> set allowed))"
  by (cases obj) (auto simp: reject_unknown_fields_def ok_simps list_all_iff has_def)

lemma reject_unknown_fields_aitp [aitp_intros]: "aitp_or es (reject_unknown_fields allowed c obj)"
  by (cases obj) (simp_all add: reject_unknown_fields_def aitp_or_ensure)

lemma require_members_ok [ok_simps]:
  "require_members required c obj = Inr w \<longleftrightarrow> (\<forall>k \<in> set required. has obj k)"
  by (simp add: require_members_def ok_simps list_all_iff)

lemma require_members_aitp [aitp_intros]: "aitp_or es (require_members required c obj)"
  by (simp add: require_members_def aitp_or_ensure)

lemma check_types_ok [ok_simps]:
  "check_types types c obj = Inr w \<longleftrightarrow>
     (\<forall>(k, allowed) \<in> set types. has obj k \<longrightarrow> type_ok allowed (get obj k))"
  by (fastforce simp: check_types_def ok_simps)

text \<open>A member that is required and typed is present with its declared type.\<close>

lemma typed_member:
  "require_members required c obj = Inr w \<Longrightarrow> check_types types c' obj = Inr w' \<Longrightarrow>
   k \<in> set required \<Longrightarrow> (k, ts) \<in> set types \<Longrightarrow> has obj k \<and> type_ok ts (get obj k)"
  by (auto simp: ok_simps)

lemma check_types_aitp [aitp_intros]: "aitp_or es (check_types types c obj)"
  by (auto simp: check_types_def intro!: aitp_intros)

lemma type_ok_str [simp]: "type_ok [TStr] v \<longleftrightarrow> is_str v"
  by (cases v) (auto simp: type_ok_def)

lemma type_ok_list [simp]: "type_ok [TList] v \<longleftrightarrow> is_list v"
  by (cases v) (auto simp: type_ok_def)

lemma type_ok_dict [simp]: "type_ok [TDict] v \<longleftrightarrow> is_dict v"
  by (cases v) (auto simp: type_ok_def)

lemma type_ok_int [simp]: "type_ok [TInt] v \<longleftrightarrow> is_int v \<or> is_integral_float v"
  by (cases v) (auto simp: type_ok_def)

lemma decode_b64url_ok [ok_simps]: "decode_b64url c t = Inr b \<longleftrightarrow> b64url_decode t = Inr b"
  by (simp add: decode_b64url_def ok_simps)

lemma decode_b64url_aitp [aitp_intros]: "aitp_or es (decode_b64url c t)"
  by (auto simp: decode_b64url_def intro!: aitp_or_catchE dest: b64url_decode_err)

lemma canonical_bytes_ok [ok_simps]: "canonical_bytes c v = Inr b \<longleftrightarrow> canonicalize v = Inr b"
  by (simp add: canonical_bytes_def ok_simps)

text \<open>Only a lone surrogate gets past the conversion.\<close>

lemma canonical_bytes_err:
  "canonical_bytes c v = Inl e \<Longrightarrow> e = AitpError c False \<or> e = UnicodeError"
  by (auto simp: canonical_bytes_def catchE_def split: sum.splits if_splits dest: canonicalize_err)

lemma canonical_bytes_aitp [aitp_intros]: "UnicodeError \<in> set es \<Longrightarrow> aitp_or es (canonical_bytes c v)"
  using canonical_bytes_err [of c v] by (cases "canonical_bytes c v") auto

end
