(* ===== verification/Sha256.thy ===== *)
theory Sha256
  imports Prelude
begin

unbundle bit_operations_syntax

text \<open>
  SHA-256 (\<open>hashlib.sha256\<close>, FIPS 180-4) on 32-bit words, and big-endian numbers
  (\<open>int.from_bytes\<close>, \<open>int.to_bytes\<close>), each the inverse of the other.
\<close>

section \<open>Big-endian bytes\<close>

definition from_bytes :: "bytes \<Rightarrow> nat" where
  "from_bytes bs = foldl (\<lambda>a b. 256 * a + unat b) 0 bs"

fun to_bytes :: "nat \<Rightarrow> nat \<Rightarrow> bytes" where
  "to_bytes 0 n = []"
| "to_bytes (Suc k) n = to_bytes k (n div 256) @ [word_of_nat (n mod 256)]"

lemma from_bytes_Nil [simp]: "from_bytes [] = 0"
  by (simp add: from_bytes_def)

lemma from_bytes_snoc: "from_bytes (bs @ [b]) = 256 * from_bytes bs + unat b"
  by (simp add: from_bytes_def)

lemma length_to_bytes [simp]: "length (to_bytes k n) = k"
  by (induction k arbitrary: n) auto

lemma from_bytes_bound: "from_bytes bs < 256 ^ length bs"
proof (induction bs rule: rev_induct)
  case (snoc b bs)
  have "256 * from_bytes bs + unat b < 256 * Suc (from_bytes bs)"
    using unat_byte_lt [of b] by simp
  also have "\<dots> \<le> 256 * 256 ^ length bs"
    using snoc by (intro mult_le_mono) auto
  finally show ?case by (simp add: from_bytes_snoc)
qed simp

lemma from_to_bytes: "n < 256 ^ k \<Longrightarrow> from_bytes (to_bytes k n) = n"
proof (induction k arbitrary: n)
  case (Suc k)
  then have "n div 256 < 256 ^ k" by (simp add: less_mult_imp_div_less mult.commute)
  with Suc.IH show ?case
    by (simp add: from_bytes_snoc unat_of_nat take_bit_eq_mod)
qed simp

lemma to_from_bytes: "to_bytes (length bs) (from_bytes bs) = bs"
proof (induction bs rule: rev_induct)
  case (snoc b bs)
  have "(256 * from_bytes bs + unat b) div 256 = from_bytes bs"
    and "(256 * from_bytes bs + unat b) mod 256 = unat b"
    using unat_byte_lt [of b] by simp_all
  with snoc show ?case by (simp add: from_bytes_snoc)
qed simp

section \<open>The compression function\<close>

type_synonym w32 = "32 word"

definition rotr :: "nat \<Rightarrow> w32 \<Rightarrow> w32" where
  "rotr n x = drop_bit n x OR push_bit (32 - n) x"

definition big_sigma0 :: "w32 \<Rightarrow> w32" where
  "big_sigma0 x = rotr 2 x XOR rotr 13 x XOR rotr 22 x"

definition big_sigma1 :: "w32 \<Rightarrow> w32" where
  "big_sigma1 x = rotr 6 x XOR rotr 11 x XOR rotr 25 x"

definition small_sigma0 :: "w32 \<Rightarrow> w32" where
  "small_sigma0 x = rotr 7 x XOR rotr 18 x XOR drop_bit 3 x"

definition small_sigma1 :: "w32 \<Rightarrow> w32" where
  "small_sigma1 x = rotr 17 x XOR rotr 19 x XOR drop_bit 10 x"

definition sha_ch :: "w32 \<Rightarrow> w32 \<Rightarrow> w32 \<Rightarrow> w32" where
  "sha_ch x y z = (x AND y) XOR (NOT x AND z)"

definition sha_maj :: "w32 \<Rightarrow> w32 \<Rightarrow> w32 \<Rightarrow> w32" where
  "sha_maj x y z = (x AND y) XOR (x AND z) XOR (y AND z)"

text \<open>
  The round constants and the initial hash are the first 32 bits of the fractional parts of the
  cube roots of the first 64 primes and of the square roots of the first 8. \<open>root_bits k n b r\<close>
  extends the root \<open>r\<close> of \<open>n\<close> by its \<open>b\<close> low bits.
\<close>

fun root_bits :: "nat \<Rightarrow> nat \<Rightarrow> nat \<Rightarrow> nat \<Rightarrow> nat" where
  "root_bits k n 0 r = r"
| "root_bits k n (Suc b) r = root_bits k n b (if (r + 2 ^ b) ^ k \<le> n then r + 2 ^ b else r)"

definition root_fraction :: "nat \<Rightarrow> nat \<Rightarrow> w32" where
  "root_fraction k p = word_of_nat (root_bits k (p * 2 ^ (32 * k)) 36 0)"

definition small_primes :: "nat list" where
  "small_primes =
     [2, 3, 5, 7, 11, 13, 17, 19, 23, 29, 31, 37, 41, 43, 47, 53, 59, 61, 67, 71, 73, 79, 83,
      89, 97, 101, 103, 107, 109, 113, 127, 131, 137, 139, 149, 151, 157, 163, 167, 173, 179,
      181, 191, 193, 197, 199, 211, 223, 227, 229, 233, 239, 241, 251, 257, 263, 269, 271, 277,
      281, 283, 293, 307, 311]"

definition round_constants :: "w32 list" where
  "round_constants = map (root_fraction 3) small_primes"

definition initial_hash :: "w32 list" where
  "initial_hash = map (root_fraction 2) (take 8 small_primes)"

definition sha_round :: "w32 list \<Rightarrow> w32 \<times> w32 \<Rightarrow> w32 list" where
  "sha_round st kw =
     (case st of
        [a, b, c, d, e, f, g, h] \<Rightarrow>
          (let t1 = h + big_sigma1 e + sha_ch e f g + fst kw + snd kw;
               t2 = big_sigma0 a + sha_maj a b c
           in [t1 + t2, a, b, c, d + t1, e, f, g])
      | _ \<Rightarrow> st)"

text \<open>The message schedule, kept newest first: \<open>n\<close> more words after the sixteen of the block.\<close>

fun schedule :: "nat \<Rightarrow> w32 list \<Rightarrow> w32 list" where
  "schedule 0 ws = ws"
| "schedule (Suc n) ws =
     schedule n ((small_sigma1 (ws ! 1) + ws ! 6 + small_sigma0 (ws ! 14) + ws ! 15) # ws)"

definition compress :: "w32 list \<Rightarrow> w32 list \<Rightarrow> w32 list" where
  "compress hs block =
     map2 (+) hs (foldl sha_round hs (zip round_constants (rev (schedule 48 (rev block)))))"

section \<open>Padding and the digest\<close>

definition pad_message :: "bytes \<Rightarrow> bytes" where
  "pad_message bs =
     (let n = length bs in bs @ [0x80] @ replicate ((119 - n mod 64) mod 64) 0 @ to_bytes 8 (8 * n))"

fun words_of :: "bytes \<Rightarrow> w32 list" where
  "words_of (a # b # c # d # r) = word_of_nat (from_bytes [a, b, c, d]) # words_of r"
| "words_of _ = []"

function blocks :: "w32 list \<Rightarrow> w32 list list" where
  "blocks ws = (if ws = [] then [] else take 16 ws # blocks (drop 16 ws))"
  by pat_completeness auto
termination
  by (relation "measure length") auto

declare blocks.simps [simp del]

definition sha256 :: "bytes \<Rightarrow> bytes" where
  "sha256 data =
     concat (map (\<lambda>w. to_bytes 4 (unat w))
       (foldl compress initial_hash (blocks (words_of (pad_message data)))))"

lemma pad_message_blocks: "length (pad_message bs) mod 64 = 0"
proof -
  let ?n = "length bs"
  have "(n + (9 + x mod 64)) mod 64 = (n mod 64 + (9 + x)) mod 64" for n x :: nat
    using mod_add_right_eq [of "n + 9" x 64] mod_add_left_eq [of n 64 "9 + x"] by (simp add: add.assoc)
  from this [of ?n "119 - ?n mod 64"] have "(?n + (9 + (119 - ?n mod 64) mod 64)) mod 64 = 0"
    by simp
  then show ?thesis by (simp add: pad_message_def Let_def add.assoc)
qed

lemma length_sha_round [simp]: "length (sha_round st kw) = length st"
  by (simp add: sha_round_def Let_def split: list.splits)

lemma length_compress: "length hs = 8 \<Longrightarrow> length (compress hs block) = 8"
proof -
  have "length (foldl sha_round st kws) = length st" for st kws
    by (induction kws arbitrary: st) auto
  then show "length hs = 8 \<Longrightarrow> length (compress hs block) = 8"
    by (simp add: compress_def)
qed

lemma length_initial_hash: "length initial_hash = 8"
  by (simp add: initial_hash_def small_primes_def)

lemma length_sha256 [simp]: "length (sha256 data) = 32"
proof -
  have "length (foldl compress hs bs) = 8" if "length hs = 8" for hs bs
    using that by (induction bs arbitrary: hs) (auto simp: length_compress)
  then have "length (foldl compress initial_hash (blocks (words_of (pad_message data)))) = 8"
    by (simp add: length_initial_hash)
  then show ?thesis
    by (simp add: sha256_def length_concat comp_def sum_list_triv)
qed

end
