(* ===== verification/Crypto.thy ===== *)
theory Crypto
  imports Sha256 Py_Float
begin

text \<open>
  \<open>aitp_verifier/crypto.py\<close>: public keys and the two verification profiles. The package
  \<open>cryptography\<close> is a parameter: a record of the operations the code calls, each returning
  whether the package accepts. A key object is the package's key, named by its public numbers.
\<close>

section \<open>The cryptography package\<close>

type_synonym point = "nat \<times> nat"

record crypto =
  ed_accepts :: "bytes \<Rightarrow> bool"
  ed_verify :: "bytes \<Rightarrow> bytes \<Rightarrow> bytes \<Rightarrow> bool"
  p256_decode :: "bytes \<Rightarrow> point option"
  p256_on_curve :: "point \<Rightarrow> bool"
  dss_encode :: "nat \<Rightarrow> nat \<Rightarrow> bytes"
  dss_decode :: "bytes \<Rightarrow> nat \<times> nat"
  p256_verify :: "point \<Rightarrow> bytes \<Rightarrow> bytes \<Rightarrow> bool"
  p256_verify_prehashed :: "point \<Rightarrow> bytes \<Rightarrow> bytes \<Rightarrow> bool"
  rsa_accepts :: "nat \<Rightarrow> nat \<Rightarrow> bool"
  rsa_verify :: "nat \<Rightarrow> nat \<Rightarrow> bytes \<Rightarrow> bytes \<Rightarrow> bool"

datatype key_object = Ed_key bytes | P256_key point | Rsa_key nat nat

section \<open>Keys\<close>

definition ALG_ED25519 :: ustr where
  "ALG_ED25519 = u ''ed25519''"

definition ALG_P256 :: ustr where
  "ALG_P256 = u ''p256''"

definition ALG_RSA :: ustr where
  "ALG_RSA = u ''rsa''"

record public_key =
  pk_alg :: ustr
  pk_key :: key_object

definition P256_N :: nat where
  "P256_N = 0xFFFFFFFF00000000FFFFFFFFFFFFFFFFBCE6FAADA7179E84F3B9CAC2FC632551"

definition MIN_RSA_MODULUS_BITS :: nat where
  "MIN_RSA_MODULUS_BITS = 2048"

definition MAX_RSA_MODULUS_BITS :: nat where
  "MAX_RSA_MODULUS_BITS = 8192"

definition MAX_RSA_EXPONENT_BITS :: nat where
  "MAX_RSA_EXPONENT_BITS = 33"

text \<open>\<open>_p256_raw_to_der\<close>\<close>

definition p256_raw_to_der :: "crypto \<Rightarrow> bytes \<Rightarrow> bool \<Rightarrow> bytes res" where
  "p256_raw_to_der C sig allow_high_s =
     ensure (length sig = 64) (Inl ValueError) (
       let r = from_bytes (take 32 sig); s = from_bytes (drop 32 sig) in
       ensure (0 < r \<and> r < P256_N \<and> 0 < s \<and> s < P256_N) (Inl ValueError) (
       ensure (\<not> (P256_N div 2 < s \<and> \<not> allow_high_s)) (Inl ValueError) (
         Inr (dss_encode C r s))))"

text \<open>\<open>_p256_der_to_raw\<close>\<close>

definition p256_der_to_raw :: "crypto \<Rightarrow> bytes \<Rightarrow> bytes" where
  "p256_der_to_raw C der =
     (let (r, s) = dss_decode C der;
          s' = (if P256_N div 2 < s then P256_N - s else s)
      in to_bytes 32 r @ to_bytes 32 s')"

definition from_raw :: "crypto \<Rightarrow> ustr \<Rightarrow> bytes \<Rightarrow> public_key res" where
  "from_raw C alg raw =
     (if alg = ALG_ED25519 then
        ensure (length raw = 32) (Inl ValueError) (
        ensure (ed_accepts C raw) (Inl ValueError) (
          Inr \<lparr>pk_alg = alg, pk_key = Ed_key raw\<rparr>))
      else if alg = ALG_P256 then
        ensure (length raw = 33) (Inl ValueError) (
          case p256_decode C raw of
            None \<Rightarrow> Inl ValueError
          | Some q \<Rightarrow> Inr \<lparr>pk_alg = alg, pk_key = P256_key q\<rparr>)
      else Inl ValueError)"

definition from_rsa_numbers :: "crypto \<Rightarrow> bytes \<Rightarrow> bytes \<Rightarrow> public_key res" where
  "from_rsa_numbers C n e =
     (let n_int = from_bytes n; bits = bit_length n_int in
      ensure (MIN_RSA_MODULUS_BITS \<le> bits \<and> bits \<le> MAX_RSA_MODULUS_BITS) (Inl ValueError) (
      ensure (\<not> (1 < length n \<and> hd n = 0)) (Inl ValueError) (
        let e_int = from_bytes e; e_bits = bit_length e_int in
        ensure (\<not> MAX_RSA_EXPONENT_BITS < e_bits) (Inl ValueError) (
        ensure (\<not> (1 < length e \<and> hd e = 0)) (Inl ValueError) (
        ensure (rsa_accepts C e_int n_int) (Inl ValueError) (
          Inr \<lparr>pk_alg = ALG_RSA, pk_key = Rsa_key e_int n_int\<rparr>))))))"

section \<open>The two verification profiles\<close>

text \<open>A rejected signature and a \<open>ValueError\<close> are both the verdict \<open>False\<close>.\<close>

definition verify_digest :: "crypto \<Rightarrow> public_key \<Rightarrow> bytes \<Rightarrow> bytes \<Rightarrow> bool res" where
  "verify_digest C pk digest sig =
     catchE is_value_error
       (if pk_alg pk = ALG_ED25519 then
          (case pk_key pk of
             Ed_key k \<Rightarrow> Inr (ed_verify C k sig digest)
           | _ \<Rightarrow> Inl AssertionError)
        else
          (case pk_key pk of
             P256_key q \<Rightarrow>
               bindE (p256_raw_to_der C sig False) (\<lambda>der. Inr (p256_verify_prehashed C q der digest))
           | _ \<Rightarrow> Inl AssertionError))
       (\<lambda>_. Inr False)"

definition verify_jose :: "crypto \<Rightarrow> public_key \<Rightarrow> bytes \<Rightarrow> bytes \<Rightarrow> bool \<Rightarrow> bool res" where
  "verify_jose C pk signing_input sig idp_token =
     catchE is_value_error
       (if pk_alg pk = ALG_ED25519 then
          (case pk_key pk of
             Ed_key k \<Rightarrow> Inr (ed_verify C k sig signing_input)
           | _ \<Rightarrow> Inl AssertionError)
        else if pk_alg pk = ALG_P256 then
          (case pk_key pk of
             P256_key q \<Rightarrow>
               bindE (p256_raw_to_der C sig idp_token) (\<lambda>der. Inr (p256_verify C q der signing_input))
           | _ \<Rightarrow> Inl AssertionError)
        else if pk_alg pk = ALG_RSA then
          (case pk_key pk of
             Rsa_key e n \<Rightarrow> Inr (rsa_verify C e n sig signing_input)
           | _ \<Rightarrow> Inl AssertionError)
        else Inl ValueError)
       (\<lambda>_. Inr False)"

section \<open>Key objects match their algorithm\<close>

definition key_wf :: "public_key \<Rightarrow> bool" where
  "key_wf pk =
     (case pk_key pk of
        Ed_key k \<Rightarrow> pk_alg pk = ALG_ED25519
      | P256_key q \<Rightarrow> pk_alg pk = ALG_P256
      | Rsa_key e n \<Rightarrow> pk_alg pk = ALG_RSA)"

lemma alg_distinct [simp]:
  "ALG_ED25519 \<noteq> ALG_P256" "ALG_P256 \<noteq> ALG_ED25519" "ALG_ED25519 \<noteq> ALG_RSA"
  "ALG_RSA \<noteq> ALG_ED25519" "ALG_P256 \<noteq> ALG_RSA" "ALG_RSA \<noteq> ALG_P256"
  by (simp_all add: ALG_ED25519_def ALG_P256_def ALG_RSA_def)

lemma from_raw_wf: "from_raw C alg raw = Inr pk \<Longrightarrow> key_wf pk \<and> pk_alg pk = alg"
  by (auto simp: from_raw_def ok_simps key_wf_def split: if_splits option.splits)

lemma from_rsa_numbers_wf: "from_rsa_numbers C n e = Inr pk \<Longrightarrow> key_wf pk \<and> pk_alg pk = ALG_RSA"
  by (auto simp: from_rsa_numbers_def Let_def ok_simps key_wf_def)

lemma p256_raw_to_der_err: "p256_raw_to_der C sig h = Inl e \<Longrightarrow> e = ValueError"
  by (auto simp: p256_raw_to_der_def Let_def err_simps)

lemma from_raw_err: "from_raw C alg raw = Inl e \<Longrightarrow> e = ValueError"
  by (auto simp: from_raw_def err_simps split: if_splits option.splits)

lemma from_rsa_numbers_err: "from_rsa_numbers C n e = Inl x \<Longrightarrow> x = ValueError"
  by (auto simp: from_rsa_numbers_def Let_def err_simps)

lemma verify_jose_total: "key_wf pk \<Longrightarrow> \<exists>b. verify_jose C pk msg sig h = Inr b"
  by (auto simp: key_wf_def verify_jose_def catchE_def bindE_def split: key_object.splits sum.splits
      dest: p256_raw_to_der_err)

lemma verify_digest_total:
  "key_wf pk \<Longrightarrow> pk_alg pk \<noteq> ALG_RSA \<Longrightarrow> \<exists>b. verify_digest C pk digest sig = Inr b"
  by (auto simp: key_wf_def verify_digest_def catchE_def bindE_def split: key_object.splits sum.splits
      dest: p256_raw_to_der_err)

section \<open>P-256 signatures have one accepted form\<close>

lemma p256_raw_to_der_ok [ok_simps]:
  "p256_raw_to_der C sig high = Inr der \<longleftrightarrow>
     length sig = 64 \<and>
     (let r = from_bytes (take 32 sig); s = from_bytes (drop 32 sig)
      in 0 < r \<and> r < P256_N \<and> 0 < s \<and> s < P256_N \<and> (high \<or> s \<le> P256_N div 2) \<and> der = dss_encode C r s)"
  by (auto simp: p256_raw_to_der_def Let_def ok_simps)

definition raw_signature :: "nat \<Rightarrow> nat \<Rightarrow> bytes" where
  "raw_signature r s = to_bytes 32 r @ to_bytes 32 s"

lemma P256_N_lt: "P256_N < 256 ^ 32"
  by (simp add: P256_N_def)

lemma raw_signature_parts:
  "r < P256_N \<Longrightarrow> s < P256_N \<Longrightarrow>
   length (raw_signature r s) = 64 \<and> from_bytes (take 32 (raw_signature r s)) = r \<and>
   from_bytes (drop 32 (raw_signature r s)) = s"
  using P256_N_lt by (simp add: raw_signature_def from_to_bytes)

definition accepts_raw :: "crypto \<Rightarrow> bytes \<Rightarrow> bool" where
  "accepts_raw C sig \<longleftrightarrow> \<not> isl (p256_raw_to_der C sig False)"

lemma accepts_raw_signature:
  "r < P256_N \<Longrightarrow> s < P256_N \<Longrightarrow>
   accepts_raw C (raw_signature r s) \<longleftrightarrow> 0 < r \<and> 0 < s \<and> s \<le> P256_N div 2"
  using raw_signature_parts [of r s] p256_raw_to_der_ok [of C "raw_signature r s" False]
  by (cases "p256_raw_to_der C (raw_signature r s) False") (auto simp: accepts_raw_def Let_def)

text \<open>A concrete package for the examples: every key loads, every well-formed signature verifies.\<close>

definition sample_crypto :: crypto where
  "sample_crypto =
     \<lparr>ed_accepts = (\<lambda>_. True), ed_verify = (\<lambda>_ _ _. True), p256_decode = (\<lambda>b. Some (from_bytes (tl b), 1)),
      p256_on_curve = (\<lambda>_. True), dss_encode = raw_signature,
      dss_decode = (\<lambda>d. (from_bytes (take 32 d), from_bytes (drop 32 d))),
      p256_verify = (\<lambda>_ _ _. True), p256_verify_prehashed = (\<lambda>_ _ _. True),
      rsa_accepts = (\<lambda>e n. 3 \<le> e), rsa_verify = (\<lambda>_ _ _ _. True)\<rparr>"



text \<open>
  What a signer of this library emits for a DER signature, its verifier accepts: the DER to
  raw conversion normalizes to low-S, and the raw form reads back as the same \<open>r\<close> and \<open>s\<close> or
  \<open>n - s\<close>.
\<close>

theorem p256_signer_form_accepted:
  assumes "dss_decode C der = (r, s)" and "0 < r" "r < P256_N" "0 < s" "s < P256_N"
  shows "p256_raw_to_der C (p256_der_to_raw C der) False = Inr (dss_encode C r (min s (P256_N - s)))"
proof -
  have "(if P256_N div 2 < s then P256_N - s else s) = min s (P256_N - s)"
    using assms(4,5) by (simp add: P256_N_def min_def) linarith
  then have raw: "p256_der_to_raw C der = raw_signature r (min s (P256_N - s))"
    using assms(1) by (simp add: p256_der_to_raw_def raw_signature_def Let_def)
  have "0 < min s (P256_N - s)" "min s (P256_N - s) < P256_N" "min s (P256_N - s) \<le> P256_N div 2"
    using assms(4,5) by (simp_all add: P256_N_def min_def) linarith+
  then show ?thesis
    using assms(2,3) raw_signature_parts [of r "min s (P256_N - s)"]
    by (simp add: raw p256_raw_to_der_ok Let_def)
qed

lemma p256_signer_form_accepted_witness:
  "p256_raw_to_der sample_crypto (p256_der_to_raw sample_crypto (raw_signature 1 (P256_N - 1))) False
     = Inr (dss_encode sample_crypto 1 (min (P256_N - 1) (P256_N - (P256_N - 1))))"
proof (rule p256_signer_form_accepted)
  show "dss_decode sample_crypto (raw_signature 1 (P256_N - 1)) = (1, P256_N - 1)"
    using raw_signature_parts [of 1 "P256_N - 1"] by (simp add: sample_crypto_def P256_N_def)
qed (simp_all add: P256_N_def)

section \<open>RSA keys\<close>

lemma from_rsa_numbers_ok [ok_simps]:
  "from_rsa_numbers C n e = Inr pk \<longleftrightarrow>
     MIN_RSA_MODULUS_BITS \<le> bit_length (from_bytes n) \<and> bit_length (from_bytes n) \<le> MAX_RSA_MODULUS_BITS \<and>
     \<not> (1 < length n \<and> hd n = 0) \<and> bit_length (from_bytes e) \<le> MAX_RSA_EXPONENT_BITS \<and>
     \<not> (1 < length e \<and> hd e = 0) \<and> rsa_accepts C (from_bytes e) (from_bytes n) \<and>
     pk = \<lparr>pk_alg = ALG_RSA, pk_key = Rsa_key (from_bytes e) (from_bytes n)\<rparr>"
  by (auto simp: from_rsa_numbers_def Let_def ok_simps)

lemma from_bytes_Cons: "from_bytes (b # bs) = unat b * 256 ^ length bs + from_bytes bs"
proof (induction bs rule: rev_induct)
  case (snoc c bs)
  then show ?case
    using from_bytes_snoc [of "b # bs" c] by (simp add: from_bytes_snoc algebra_simps)
qed (simp add: from_bytes_def)

text \<open>Two minimal encodings of one positive number are the same bytes.\<close>

lemma from_bytes_minimal_length:
  assumes "0 < from_bytes bs" and "\<not> (1 < length bs \<and> hd bs = 0)"
  shows "256 ^ (length bs - 1) \<le> from_bytes bs"
proof (cases bs)
  case (Cons b r)
  have "b \<noteq> 0"
    using assms Cons by (cases r) (auto simp: from_bytes_Cons)
  then have "1 \<le> unat b" by (simp add: Suc_le_eq unat_gt_0)
  then have "256 ^ length r \<le> unat b * 256 ^ length r" by simp
  then show ?thesis unfolding Cons from_bytes_Cons by (simp add: trans_le_add1)
qed (use assms in simp)

lemma from_bytes_minimal_inj:
  assumes "from_bytes a = from_bytes b" and "0 < from_bytes a"
    and "\<not> (1 < length a \<and> hd a = 0)" and "\<not> (1 < length b \<and> hd b = 0)"
  shows "a = b"
proof -
  have *: "length x \<le> length y"
    if "from_bytes x = from_bytes y" "0 < from_bytes x" "\<not> (1 < length x \<and> hd x = 0)" for x y
  proof -
    have "256 ^ (length x - 1) < (256 :: nat) ^ length y"
      using from_bytes_minimal_length [OF that(2,3)] from_bytes_bound [of y] that(1) by linarith
    then have "length x - 1 < length y"
      by (rule power_less_imp_less_exp [rotated]) simp
    then show ?thesis by linarith
  qed
  have "length a = length b"
    using * [OF assms(1,2,3)] * [OF assms(1) [symmetric] _ assms(4)] assms(1,2) by (metis le_antisym)
  then show ?thesis
    using assms(1) to_from_bytes [of a] to_from_bytes [of b] by metis
qed

text \<open>
  C39. An accepted RSA key has a modulus of 2048 to 8192 bits and an exponent of at most 33 bits,
  and it has one encoding only: with a package that, as documented, refuses exponents below
  three, no other \<open>n\<close> and \<open>e\<close> bytes give the same key (no leading zero bytes).
\<close>

theorem rsa_key_bounds_and_unique_encoding:
  assumes "\<And>e n. rsa_accepts C e n \<Longrightarrow> 3 \<le> e"
    and "from_rsa_numbers C n e = Inr pk"
  shows "\<exists>ei ni. pk_key pk = Rsa_key ei ni \<and> 2 ^ 2047 \<le> ni \<and> ni < 2 ^ 8192 \<and> ei < 2 ^ 33 \<and>
           (\<forall>n' e'. from_rsa_numbers C n' e' = Inr pk \<longrightarrow> n' = n \<and> e' = e)"
proof -
  note ok = assms(2) [unfolded from_rsa_numbers_ok]
  have lower: "2 ^ 2047 \<le> from_bytes n"
  proof -
    have "\<not> bit_length (from_bytes n) \<le> 2047" using ok by (simp add: MIN_RSA_MODULUS_BITS_def)
    then show ?thesis unfolding bit_length_le_iff by (rule leI)
  qed
  have upper: "from_bytes n < 2 ^ 8192" "from_bytes e < 2 ^ 33"
    using ok unfolding MAX_RSA_MODULUS_BITS_def MAX_RSA_EXPONENT_BITS_def bit_length_le_iff by blast+
  have n0: "0 < from_bytes n"
    by (rule less_le_trans [OF _ lower]) (rule zero_less_power, rule zero_less_numeral)
  have e0: "0 < from_bytes e"
    using assms(1) [of "from_bytes e" "from_bytes n"] ok by linarith
  have unique: "n' = n \<and> e' = e" if "from_rsa_numbers C n' e' = Inr pk" for n' e'
  proof -
    note ok' = that [unfolded from_rsa_numbers_ok]
    have "from_bytes n = from_bytes n'" "from_bytes e = from_bytes e'"
      using ok ok' by (metis public_key.ext_inject key_object.inject(3))+
    with n0 e0 ok ok' show ?thesis
      by (blast dest: from_bytes_minimal_inj)
  qed
  from ok have "pk_key pk = Rsa_key (from_bytes e) (from_bytes n)" by (metis public_key.select_convs(2))
  with lower upper unique show ?thesis by blast
qed

definition sample_modulus :: bytes where
  "sample_modulus = 128 # replicate 255 1"

lemma sample_modulus_bits: "bit_length (from_bytes sample_modulus) = 2048"
proof -
  have "from_bytes sample_modulus < 2 ^ 2048"
    using from_bytes_bound [of sample_modulus] by (simp add: sample_modulus_def)
  then have "bit_length (from_bytes sample_modulus) \<le> 2048" unfolding bit_length_le_iff .
  moreover have "2 ^ 2047 \<le> from_bytes sample_modulus"
    by (simp add: sample_modulus_def from_bytes_Cons trans_le_add1)
  then have "\<not> bit_length (from_bytes sample_modulus) \<le> 2047"
    unfolding bit_length_le_iff by (rule leD)
  ultimately show ?thesis by linarith
qed

lemma rsa_key_bounds_and_unique_encoding_witness:
  "\<exists>ei ni. pk_key \<lparr>pk_alg = ALG_RSA, pk_key = Rsa_key 65537 (from_bytes sample_modulus)\<rparr> = Rsa_key ei ni \<and>
     2 ^ 2047 \<le> ni \<and> ni < 2 ^ 8192 \<and> ei < 2 ^ 33 \<and>
     (\<forall>n' e'. from_rsa_numbers sample_crypto n' e' =
          Inr \<lparr>pk_alg = ALG_RSA, pk_key = Rsa_key 65537 (from_bytes sample_modulus)\<rparr> \<longrightarrow>
        n' = sample_modulus \<and> e' = [1, 0, 1])"
proof (rule rsa_key_bounds_and_unique_encoding)
  have "from_bytes [1, 0, 1] = 65537" by (simp add: from_bytes_def)
  moreover from this have "bit_length (from_bytes [1, 0, 1]) \<le> 33" by (simp add: bit_length_le_iff)
  ultimately show "from_rsa_numbers sample_crypto sample_modulus [1, 0, 1] =
      Inr \<lparr>pk_alg = ALG_RSA, pk_key = Rsa_key 65537 (from_bytes sample_modulus)\<rparr>"
    using sample_modulus_bits unfolding from_rsa_numbers_ok
    by (simp add: MIN_RSA_MODULUS_BITS_def MAX_RSA_MODULUS_BITS_def MAX_RSA_EXPONENT_BITS_def sample_crypto_def)
       (simp add: sample_modulus_def)
qed (simp add: sample_crypto_def)
end
