(* ===== verification/Aid.thy ===== *)
theory Aid
  imports Field_Gates Crypto
begin

text \<open>
  \<open>aitp_verifier/aid.py\<close>: Agent IDs, the public key each embeds and the one JOSE algorithm
  each allows.
\<close>

record aid =
  aid_str :: ustr
  aid_alg :: ustr
  raw_key :: bytes
  aid_key :: public_key

text \<open>The look-up in \<open>_JOSE_ALG\<close>.\<close>

definition jose_alg_of :: "ustr \<Rightarrow> ustr res" where
  "jose_alg_of alg =
     (if alg = ALG_ED25519 then Inr (u ''EdDSA'')
      else if alg = ALG_P256 then Inr (u ''ES256'')
      else Inl KeyError)"

definition jose_alg :: "aid \<Rightarrow> ustr res" where
  "jose_alg a = jose_alg_of (aid_alg a)"

text \<open>The algorithm tag after \<open>aid:pubkey:\<close>; none is the legacy Ed25519 form.\<close>

definition split_tag :: "ustr \<Rightarrow> ustr \<times> ustr" where
  "split_tag rest =
     (case strip_prefix (u ''ed25519:'') rest of
        Some ident \<Rightarrow> (ALG_ED25519, ident)
      | None \<Rightarrow>
          (case strip_prefix (u ''p256:'') rest of
             Some ident \<Rightarrow> (ALG_P256, ident)
           | None \<Rightarrow> (ALG_ED25519, rest)))"

definition parse_aid :: "crypto \<Rightarrow> ustr \<Rightarrow> aid res" where
  "parse_aid C s =
     (case strip_prefix (u ''aid:pubkey:'') s of
        None \<Rightarrow> Inl ValueError
      | Some rest \<Rightarrow>
          (let (alg, ident) = split_tag rest;
               expected_len = (if alg = ALG_ED25519 then 43 else 44)
           in ensure (length ident = expected_len) (Inl ValueError) (
              bindE (b64url_decode ident) (\<lambda>raw.
              bindE (from_raw C alg raw) (\<lambda>pk.
                Inr \<lparr>aid_str = s, aid_alg = alg, raw_key = raw, aid_key = pk\<rparr>)))))"

text \<open>\<open>parse_aid\<close> on a value that is not a string: it has no \<open>startswith\<close>.\<close>

definition parse_aid_value :: "crypto \<Rightarrow> pyval \<Rightarrow> aid res" where
  "parse_aid_value C v = (case v of PStr s \<Rightarrow> parse_aid C s | _ \<Rightarrow> Inl AttributeError)"

section \<open>What parsing establishes\<close>

lemma split_tag_alg: "split_tag rest = (alg, ident) \<Longrightarrow> alg = ALG_ED25519 \<or> alg = ALG_P256"
  by (auto simp: split_tag_def split: option.splits)

lemma parse_aid_err: "parse_aid C s = Inl e \<Longrightarrow> is_value_error e"
  by (auto simp: parse_aid_def Let_def err_simps split: option.splits prod.splits
      dest: b64url_decode_err from_raw_err)

lemma parse_aid_wf:
  assumes "parse_aid C s = Inr a"
  shows "aid_str a = s" "key_wf (aid_key a)" "pk_alg (aid_key a) = aid_alg a"
    "aid_alg a = ALG_ED25519 \<or> aid_alg a = ALG_P256"
  using assms
  by (auto simp: parse_aid_def Let_def ok_simps split: option.splits prod.splits
      dest: from_raw_wf split_tag_alg)

lemma parse_aid_jose_alg: "parse_aid C s = Inr a \<Longrightarrow> \<exists>j. jose_alg a = Inr j"
  using parse_aid_wf(4) [of C s a] by (auto simp: jose_alg_def jose_alg_of_def)

lemma parse_aid_ascii: "parse_aid C s = Inr a \<Longrightarrow> list_all (\<lambda>c. 32 < c \<and> c < 128) s"
proof -
  assume ok: "parse_aid C s = Inr a"
  then obtain rest alg ident raw where s: "s = u ''aid:pubkey:'' @ rest"
    and tag: "split_tag rest = (alg, ident)" and dec: "b64url_decode ident = Inr raw"
    by (auto simp: parse_aid_def Let_def ok_simps split: option.splits prod.splits)
  have "list_all (\<lambda>c. 32 < c \<and> c < 128) ident"
    using b64url_decode_alphabet [OF dec] in_alphabet_ascii by (auto simp: list_all_iff)
  with tag have "list_all (\<lambda>c. 32 < c \<and> c < 128) rest"
    by (auto simp: split_tag_def u_def split: option.splits)
  then show ?thesis by (simp add: s u_def)
qed

lemma verify_jose_aid: "parse_aid C s = Inr a \<Longrightarrow> \<exists>b. verify_jose C (aid_key a) msg sig h = Inr b"
  by (rule verify_jose_total) (rule parse_aid_wf(2))

lemma verify_digest_aid: "parse_aid C s = Inr a \<Longrightarrow> \<exists>b. verify_digest C (aid_key a) digest sig = Inr b"
  using parse_aid_wf [of C s a] by (intro verify_digest_total) auto

lemma verify_jose_aitp: "parse_aid C s = Inr a \<Longrightarrow> aitp_or es (verify_jose C (aid_key a) msg sig h)"
  using verify_jose_aid [of C s a msg sig h] by auto

lemma verify_digest_aitp: "parse_aid C s = Inr a \<Longrightarrow> aitp_or es (verify_digest C (aid_key a) digest sig)"
  using verify_digest_aid [of C s a digest sig] by auto

text \<open>The untagged AID of an Ed25519 key.\<close>

definition ed_aid :: "bytes \<Rightarrow> ustr" where
  "ed_aid k = u ''aid:pubkey:'' @ b64url_encode k"

lemma alphabet_no_colon: "list_all in_alphabet s \<Longrightarrow> 58 \<notin> set s"
  by (auto simp: list_all_iff in_alphabet_def b64_val_def)

lemma split_tag_untagged: "58 \<notin> set s \<Longrightarrow> split_tag s = (ALG_ED25519, s)"
  by (auto simp: split_tag_def u_def split: option.splits)

lemma parse_ed_aid:
  "length k = 32 \<Longrightarrow> ed_accepts C k \<Longrightarrow>
   parse_aid C (ed_aid k) =
     Inr \<lparr>aid_str = ed_aid k, aid_alg = ALG_ED25519, raw_key = k,
          aid_key = \<lparr>pk_alg = ALG_ED25519, pk_key = Ed_key k\<rparr>\<rparr>"
  using split_tag_untagged [OF alphabet_no_colon [OF b64url_encode_alphabet]]
  by (simp add: parse_aid_def ed_aid_def b64url_encode_length b64url_decode_encode from_raw_def)

section \<open>Properties\<close>

text \<open>
  The accepted AIDs are exactly the three forms of RFC-AITP-0001 5.3, at their exact
  lengths, with the key bytes the identifier encodes: untagged or \<open>ed25519:\<close> with 43 characters
  for 32 bytes, \<open>p256:\<close> with 44 characters for 33 bytes.
\<close>

lemma parse_aid_forms:
  "parse_aid C s = Inr a \<longleftrightarrow>
     (\<exists>ident raw. b64url_decode ident = Inr raw \<and> raw_key a = raw \<and> aid_str a = s \<and>
        ((s = u ''aid:pubkey:'' @ ident \<or> s = u ''aid:pubkey:ed25519:'' @ ident) \<and> length ident = 43 \<and>
           length raw = 32 \<and> ed_accepts C raw \<and> aid_alg a = ALG_ED25519 \<and>
           aid_key a = \<lparr>pk_alg = ALG_ED25519, pk_key = Ed_key raw\<rparr>
         \<or> s = u ''aid:pubkey:p256:'' @ ident \<and> length ident = 44 \<and> length raw = 33 \<and>
           aid_alg a = ALG_P256 \<and>
           (\<exists>q. p256_decode C raw = Some q \<and> aid_key a = \<lparr>pk_alg = ALG_P256, pk_key = P256_key q\<rparr>)))"
proof -
  have colon: "58 \<notin> set ident" if "b64url_decode ident = Inr raw" for ident raw
    using b64url_decode_alphabet [OF that, of 58] by (auto simp: in_alphabet_def b64_val_def)
  have no_tag: "strip_prefix (u ''ed25519:'') ident = None" "strip_prefix (u ''p256:'') ident = None"
    if "b64url_decode ident = Inr raw" for ident raw
    using colon [OF that] by (auto simp: strip_prefix_None u_def)
  have legacy: "split_tag ident = (ALG_ED25519, ident)" if "b64url_decode ident = Inr raw" for ident raw
    using no_tag [OF that] by (simp add: split_tag_def)
  have tagged: "split_tag (u ''ed25519:'' @ ident) = (ALG_ED25519, ident)"
    "split_tag (u ''p256:'' @ ident) = (ALG_P256, ident)" for ident
    by (auto simp: split_tag_def u_def split: option.splits)
  have len: "length raw = length ident * 3 div 4" if "b64url_decode ident = Inr raw" for ident raw
    using that by (rule b64url_decode_length)
  have app: "u ''aid:pubkey:ed25519:'' = u ''aid:pubkey:'' @ u ''ed25519:''"
    "u ''aid:pubkey:p256:'' = u ''aid:pubkey:'' @ u ''p256:''"
    by (simp_all add: u_def)
  show ?thesis (is "?l \<longleftrightarrow> ?r")
  proof
    assume ?l
    then obtain rest alg ident raw pk where s: "s = u ''aid:pubkey:'' @ rest"
      and tag: "split_tag rest = (alg, ident)" and l: "length ident = (if alg = ALG_ED25519 then 43 else 44)"
      and dec: "b64url_decode ident = Inr raw" and pk: "from_raw C alg raw = Inr pk"
      and a: "a = \<lparr>aid_str = s, aid_alg = alg, raw_key = raw, aid_key = pk\<rparr>"
      by (auto simp: parse_aid_def Let_def ok_simps split: option.splits prod.splits)
    have "alg = ALG_ED25519 \<and> (rest = ident \<or> rest = u ''ed25519:'' @ ident) \<or>
          alg = ALG_P256 \<and> rest = u ''p256:'' @ ident"
      using tag by (auto simp: split_tag_def split: option.splits)
    then show ?r
      using s l dec pk a unfolding app
      by (intro exI [of _ ident] exI [of _ raw]) (auto simp: from_raw_def ok_simps split: option.splits)
  next
    assume ?r
    then obtain ident raw where dec: "b64url_decode ident = Inr raw" and r: "raw_key a = raw" "aid_str a = s"
      and c: "(s = u ''aid:pubkey:'' @ ident \<or> s = u ''aid:pubkey:ed25519:'' @ ident) \<and> length ident = 43 \<and>
           length raw = 32 \<and> ed_accepts C raw \<and> aid_alg a = ALG_ED25519 \<and>
           aid_key a = \<lparr>pk_alg = ALG_ED25519, pk_key = Ed_key raw\<rparr>
         \<or> s = u ''aid:pubkey:p256:'' @ ident \<and> length ident = 44 \<and> length raw = 33 \<and>
           aid_alg a = ALG_P256 \<and>
           (\<exists>q. p256_decode C raw = Some q \<and> aid_key a = \<lparr>pk_alg = ALG_P256, pk_key = P256_key q\<rparr>)"
      by blast
    from c show ?l
      using dec r legacy [OF dec] tagged [of ident] unfolding app parse_aid_def
      by (cases a) (auto simp: from_raw_def ok_simps split: option.splits)
  qed
qed

end
