(* ===== verification/Jws.thy ===== *)
theory Jws
  imports Aid
begin

text \<open>
  \<open>aitp_verifier/jws.py\<close>: strict compact-JWS parsing and verification, in the order of
  RFC-AITP-0001 5.4.5, with the algorithm pinned by the signer's AID.
\<close>

record parsed_jws =
  header :: dict
  claims :: dict
  signing_input :: bytes
  signature :: bytes

text \<open>\<open>except Exception\<close> around the two JSON segments.\<close>

definition parse_compact :: "pyval \<Rightarrow> string \<Rightarrow> parsed_jws res" where
  "parse_compact token structural_code =
     (case token of
        PStr s \<Rightarrow>
          (let parts = split_on 46 s in
           ensure (length parts = 3 \<and> list_all (\<lambda>p. p \<noteq> []) parts) (raise structural_code) (
           bindE (catchE is_value_error (mapE b64url_decode parts) (\<lambda>_. raise structural_code)) (\<lambda>segs.
           bindE (catchE (\<lambda>_. True)
                    (bindE (loads_bytes (segs ! 0)) (\<lambda>h. bindE (loads_bytes (segs ! 1)) (\<lambda>c. Inr (h, c))))
                    (\<lambda>_. raise structural_code)) (\<lambda>(h, c).
           ensure (is_dict h \<and> is_dict c) (raise structural_code) (
           bindE (ascii_encode (parts ! 0 @ u ''.'' @ parts ! 1)) (\<lambda>inp.
             Inr \<lparr>header = the_dict h, claims = the_dict c, signing_input = inp, signature = segs ! 2\<rparr>))))))
      | _ \<Rightarrow> raise structural_code)"

definition verify_jws ::
  "crypto \<Rightarrow> pyval \<Rightarrow> ustr \<Rightarrow> ustr \<Rightarrow> string \<Rightarrow> string \<Rightarrow> string \<Rightarrow> (dict \<Rightarrow> unit res) \<Rightarrow> dict res" where
  "verify_jws C token iss_aid expected_typ typ_err alg_err sig_err after_typ_check =
     bindE (parse_compact token sig_err) (\<lambda>parsed.
     ensure (fst ` set (header parsed) = {u ''alg'', u ''typ''}) (raise alg_err) (
     ensure (get (header parsed) (u ''typ'') = PStr expected_typ) (raise typ_err) (
     bindE (after_typ_check (claims parsed)) (\<lambda>_.
     bindE (parse_aid C iss_aid) (\<lambda>a.
     bindE (jose_alg a) (\<lambda>j.
     ensure (get (header parsed) (u ''alg'') = PStr j) (raise alg_err) (
     bindE (verify_jose C (aid_key a) (signing_input parsed) (signature parsed) False) (\<lambda>good.
     ensure good (raise sig_err) (Inr (claims parsed))))))))))"

section \<open>Facts\<close>

lemma mapE_length3: "mapE f xs = Inr ys \<Longrightarrow> length xs = 3 \<Longrightarrow> \<exists>a b c. ys = [a, b, c]"
  by (drule mapE_ok_length) (auto simp: numeral_3_eq_3 length_Suc_conv)

lemma list_3: "length xs = 3 \<Longrightarrow> \<exists>a b c. xs = [a, b, c]"
  by (auto simp: numeral_3_eq_3 length_Suc_conv)

lemma b64_ascii: "b64url_decode t = Inr b \<Longrightarrow> list_all (\<lambda>c. c < 128) t"
  using b64url_decode_alphabet in_alphabet_ascii by (auto simp: list_all_iff)

text \<open>What a successful parse means: three base64url segments, two JSON objects.\<close>

lemma parse_compact_ok:
  "parse_compact token c = Inr p \<longleftrightarrow>
     (\<exists>a b s ab bb h d. token = PStr (a @ u ''.'' @ b @ u ''.'' @ s) \<and>
        a \<noteq> [] \<and> b \<noteq> [] \<and> s \<noteq> [] \<and>
        b64url_decode a = Inr ab \<and> b64url_decode b = Inr bb \<and> b64url_decode s = Inr (signature p) \<and>
        loads_bytes ab = Inr (PDict h) \<and> loads_bytes bb = Inr (PDict d) \<and>
        header p = h \<and> claims p = d \<and> ascii_encode (a @ u ''.'' @ b) = Inr (signing_input p))"
  (is "?l \<longleftrightarrow> ?r")
proof
  assume l: ?l
  then obtain t where t: "token = PStr t" by (cases token) (auto simp: parse_compact_def)
  from l obtain segs hv cv inp where len: "length (split_on 46 t) = 3"
    and ne: "list_all (\<lambda>p. p \<noteq> []) (split_on 46 t)" and segs: "mapE b64url_decode (split_on 46 t) = Inr segs"
    and hc: "loads_bytes (segs ! 0) = Inr hv" "loads_bytes (segs ! 1) = Inr cv" "is_dict hv" "is_dict cv"
    and inp: "ascii_encode (split_on 46 t ! 0 @ u ''.'' @ split_on 46 t ! 1) = Inr inp"
    and p: "p = \<lparr>header = the_dict hv, claims = the_dict cv, signing_input = inp, signature = segs ! 2\<rparr>"
    by (auto simp: parse_compact_def t Let_def ok_simps)
  obtain a b s where abs: "split_on 46 t = [a, b, s]" using list_3 [OF len] by blast
  have "t = a @ u ''.'' @ b @ u ''.'' @ s"
    using join_split_on [of 46 t] by (simp add: abs u_def)
  moreover obtain ab bb sb where "segs = [ab, bb, sb]" "b64url_decode a = Inr ab"
    "b64url_decode b = Inr bb" "b64url_decode s = Inr sb"
    using segs by (auto simp: abs ok_simps)
  ultimately show ?r
    using ne hc inp p t abs
    by (intro exI [of _ a] exI [of _ b] exI [of _ s] exI [of _ ab] exI [of _ bb]) (auto simp: is_dict_iff)
next
  assume ?r
  then obtain a b s ab bb h d where t: "token = PStr (a @ u ''.'' @ b @ u ''.'' @ s)"
    and ne: "a \<noteq> []" "b \<noteq> []" "s \<noteq> []"
    and dec: "b64url_decode a = Inr ab" "b64url_decode b = Inr bb" "b64url_decode s = Inr (signature p)"
    and js: "loads_bytes ab = Inr (PDict h)" "loads_bytes bb = Inr (PDict d)"
    and p: "header p = h" "claims p = d" "ascii_encode (a @ u ''.'' @ b) = Inr (signing_input p)"
    by blast
  have nd: "46 \<notin> set a" "46 \<notin> set b" "46 \<notin> set s"
    using dec b64url_decode_alphabet in_alphabet_ascii by blast+
  have "split_on 46 (a @ u ''.'' @ b @ u ''.'' @ s) = [a, b, s]"
    using nd by (simp add: u_def split_on_append split_on_single)
  then show ?l
    using ne dec js p by (cases p) (simp add: parse_compact_def t Let_def)
qed

lemma parse_compact_aitp [aitp_intros]: "aitp_or es (parse_compact token c)"
proof (cases token)
  case (PStr s)
  have enc: "aitp_or es (ascii_encode (split_on 46 s ! 0 @ u ''.'' @ split_on 46 s ! 1))"
    if segs: "mapE b64url_decode (split_on 46 s) = Inr segs" and three: "length (split_on 46 s) = 3" for segs
  proof -
    obtain a b t where abt: "split_on 46 s = [a, b, t]" using list_3 [OF three] by blast
    with segs obtain ab bb where "b64url_decode a = Inr ab" "b64url_decode b = Inr bb"
      by (auto simp: ok_simps)
    then have "list_all (\<lambda>c. c < 128) a" "list_all (\<lambda>c. c < 128) b" by (blast intro: b64_ascii)+
    then show ?thesis by (simp add: abt ascii_encode_def u_def)
  qed
  have val: "is_value_error e" if "mapE b64url_decode xs = Inl e" for e xs
    using mapE_err [OF that] b64url_decode_err by blast
  show ?thesis
    unfolding parse_compact_def PStr pyval.case Let_def
    by (auto intro!: aitp_intros aitp_or_catchE enc [unfolded One_nat_def] dest: val simp: ok_simps split: prod.split)
qed (simp_all add: parse_compact_def)

text \<open>Every rejection carries the caller's code.\<close>

lemma parse_compact_err: "parse_compact token c = Inl e \<Longrightarrow> e = AitpError c False"
proof -
  assume err: "parse_compact token c = Inl e"
  have "is_aitp e" using aitp_or_errD [OF parse_compact_aitp [of "[]"] err] by simp
  moreover have "is_value_error x" if "mapE b64url_decode ps = Inl x" for x ps
    using mapE_err [OF that] b64url_decode_err by blast
  moreover have "is_value_error x \<Longrightarrow> \<not> is_aitp x" for x by (cases x) auto
  moreover have "\<not> is_aitp x" if "ascii_encode t = Inl x" for x t
    using that by (auto simp: ascii_encode_def split: if_splits)
  ultimately show ?thesis
    using err by (cases token) (auto simp: parse_compact_def Let_def err_simps catchE_def raise_def
        split: sum.splits if_splits prod.splits)
qed

text \<open>What a successful verification establishes, in one fact.\<close>

lemma verify_jws_ok:
  "verify_jws C token iss typ te ae se after = Inr d \<longleftrightarrow>
     (\<exists>p a j. parse_compact token se = Inr p \<and> claims p = d \<and>
        fst ` set (header p) = {u ''alg'', u ''typ''} \<and> get (header p) (u ''typ'') = PStr typ \<and>
        after d = Inr () \<and> parse_aid C iss = Inr a \<and> jose_alg a = Inr j \<and>
        get (header p) (u ''alg'') = PStr j \<and>
        verify_jose C (aid_key a) (signing_input p) (signature p) False = Inr True)"
  by (auto simp: verify_jws_def ok_simps)

text \<open>The only exception that is not AITP's is the \<open>ValueError\<close> of a malformed issuer AID.\<close>

lemma verify_jws_aitp [aitp_intros]:
  assumes "\<And>d. aitp_or es (after d)" and "\<And>e. parse_aid C iss = Inl e \<Longrightarrow> e \<in> set es"
  shows "aitp_or es (verify_jws C token iss ty te ae se after)"
proof (cases "parse_aid C iss")
  case (Inl e)
  with assms(2) have e: "e \<in> set es" by blast
  show ?thesis
    unfolding verify_jws_def Inl bindE_Inl by (intro aitp_intros assms(1)) (use e in simp)
next
  case (Inr a)
  obtain j where j: "jose_alg a = Inr j" using parse_aid_jose_alg [OF Inr] by blast
  show ?thesis
    unfolding verify_jws_def Inr bindE_Inr j
    by (intro aitp_intros assms(1) verify_jose_aitp [OF Inr])
qed

section \<open>Signed tokens\<close>

text \<open>The error code of \<open>parse_compact\<close> does not matter to what it accepts.\<close>

lemma parse_compact_code: "parse_compact token c = Inr p \<longleftrightarrow> parse_compact token [] = Inr p"
  unfolding parse_compact_ok ..

text \<open>
  \<open>token\<close> is a compact JWS with payload \<open>cl\<close>, header exactly \<open>{alg, typ}\<close> with this \<open>typ\<close> and the
  algorithm of the AID \<open>iss\<close>, and it is signed under that AID's key.
\<close>

definition jws_signed :: "crypto \<Rightarrow> pyval \<Rightarrow> ustr \<Rightarrow> ustr \<Rightarrow> dict \<Rightarrow> bool" where
  "jws_signed C token iss typ cl \<longleftrightarrow>
     (\<exists>p a j. parse_compact token [] = Inr p \<and> claims p = cl \<and>
        fst ` set (header p) = {u ''alg'', u ''typ''} \<and> get (header p) (u ''typ'') = PStr typ \<and>
        parse_aid C iss = Inr a \<and> jose_alg a = Inr j \<and> get (header p) (u ''alg'') = PStr j \<and>
        verify_jose C (aid_key a) (signing_input p) (signature p) False = Inr True)"

lemma verify_jws_signed [ok_simps]:
  "verify_jws C token iss typ te ae se after = Inr cl \<longleftrightarrow> jws_signed C token iss typ cl \<and> after cl = Inr ()"
  unfolding verify_jws_ok jws_signed_def parse_compact_code [of token se] by auto

lemma jws_signed_parse: "jws_signed C token iss typ cl \<Longrightarrow> \<exists>p. parse_compact token c = Inr p \<and> claims p = cl"
  unfolding jws_signed_def parse_compact_code [of token c] by auto

lemma jws_signed_iss: "jws_signed C token iss typ cl \<Longrightarrow> \<exists>a. parse_aid C iss = Inr a"
  unfolding jws_signed_def by blast

lemma jws_signed_typ: "jws_signed C token iss typ cl \<Longrightarrow> jws_signed C token iss' typ' cl' \<Longrightarrow> typ = typ' \<and> cl = cl'"
  unfolding jws_signed_def by auto

end
