(* ===== verification/Sigfield.thy ===== *)
theory Sigfield
  imports Aid
begin

text \<open>
  \<open>aitp_verifier/sigfield.py\<close>: the algorithm-tagged signature fields of the JCS profile, and
  \<open>aitp_verifier/proofinput.py\<close>: the NUL-separated bytes the handshake proofs sign.
\<close>

section \<open>Tagged signatures\<close>

definition decode_tagged_signature_for :: "pyval \<Rightarrow> ustr \<Rightarrow> string \<Rightarrow> bytes res" where
  "decode_tagged_signature_for sig alg sig_err =
     (case sig of
        PStr s \<Rightarrow>
          bindE (if 46 \<in> set s then
                   (let (tag, body) = partition_at 46 s in
                    ensure (tag = u ''ed25519'' \<or> tag = u ''p256'') (raise sig_err) (Inr (tag, body)))
                 else Inr (u ''ed25519'', s))
            (\<lambda>(tag, body).
              ensure (tag = alg) (raise sig_err) (
              bindE (catchE is_value_error (b64url_decode body) (\<lambda>_. raise sig_err)) (\<lambda>raw.
              ensure (length raw = 64) (raise sig_err) (Inr raw))))
      | _ \<Rightarrow> raise sig_err)"

definition decode_tagged_signature :: "pyval \<Rightarrow> aid \<Rightarrow> string \<Rightarrow> bytes res" where
  "decode_tagged_signature sig a sig_err = decode_tagged_signature_for sig (aid_alg a) sig_err"

lemma decode_tagged_signature_for_aitp [aitp_intros]:
  "aitp_or es (decode_tagged_signature_for sig alg c)"
  unfolding decode_tagged_signature_for_def Let_def
  by (auto intro!: aitp_intros aitp_or_catchE dest: b64url_decode_err split: pyval.split prod.split)

lemma decode_tagged_signature_aitp [aitp_intros]: "aitp_or es (decode_tagged_signature sig a c)"
  unfolding decode_tagged_signature_def by (rule decode_tagged_signature_for_aitp)

lemma partition_at_iff: "c \<in> set s \<Longrightarrow> partition_at c s = (t, b) \<longleftrightarrow> s = t @ c # b \<and> c \<notin> set t"
proof
  assume "c \<in> set s" and p: "partition_at c s = (t, b)"
  then obtain t' b' where s: "s = t' @ c # b'" and "c \<notin> set t'"
    by (meson split_list_first)
  with p show "s = t @ c # b \<and> c \<notin> set t"
    by (simp add: partition_at_append)
qed (simp add: partition_at_append)

lemma no_dot_b64: "b64url_decode t = Inr b \<Longrightarrow> 46 \<notin> set t"
  using b64url_decode_alphabet [of t b 46] in_alphabet_ascii [of 46] by blast

text \<open>
  A signature field is accepted for a signer of algorithm \<open>alg\<close> exactly when it is the
  base64url of 64 bytes, tagged with that algorithm, or untagged under Ed25519 only: a P-256
  signer cannot be read from an untagged field, and no tag can select another algorithm.
\<close>

lemma tagged_signature_iff:
  "decode_tagged_signature_for sig alg c = Inr raw \<longleftrightarrow>
     length raw = 64 \<and> (alg = ALG_ED25519 \<or> alg = ALG_P256) \<and>
     (\<exists>body. b64url_decode body = Inr raw \<and>
        (sig = PStr (alg @ u ''.'' @ body) \<or> alg = ALG_ED25519 \<and> sig = PStr body))"
proof (cases sig)
  case (PStr s)
  have tags: "46 \<notin> set ALG_ED25519" "46 \<notin> set ALG_P256"
    by (simp_all add: ALG_ED25519_def ALG_P256_def u_def)
  show ?thesis
  proof (cases "46 \<in> set s")
    case True
    then obtain t b where s: "s = t @ 46 # b" "46 \<notin> set t" by (meson split_list_first)
    then have p: "partition_at 46 s = (t, b)" by (simp add: partition_at_append)
    have eq: "s = alg @ u ''.'' @ body \<longleftrightarrow> t = alg \<and> b = body" if "alg = ALG_ED25519 \<or> alg = ALG_P256" for body
    proof
      assume "s = alg @ u ''.'' @ body"
      then have "partition_at 46 s = (alg, body)" using tags that by (auto simp: u_Cons partition_at_append)
      with p show "t = alg \<and> b = body" by simp
    qed (simp add: s u_Cons)
    have "b64url_decode s \<noteq> Inr raw" using no_dot_b64 [of s raw] True by blast
    then show ?thesis
      using True p eq
      by (auto simp: decode_tagged_signature_for_def PStr ok_simps ALG_ED25519_def ALG_P256_def)
  next
    case False
    then have "s \<noteq> alg @ u ''.'' @ body" for body by (auto simp: u_Cons)
    with False show ?thesis
      by (auto simp: decode_tagged_signature_for_def PStr ok_simps ALG_ED25519_def ALG_P256_def)
  qed
qed (simp_all add: decode_tagged_signature_for_def)

section \<open>Handshake proof input\<close>

definition PINNED_KEY_DOMAIN :: bytes where
  "PINNED_KEY_DOMAIN = ub ''aitp-pinned-key-v1'' @ [0]"

definition SPIFFE_X509_DOMAIN :: bytes where
  "SPIFFE_X509_DOMAIN = ub ''aitp-spiffe-x509-v1'' @ [0]"

definition handshake_proof_input ::
  "bytes \<Rightarrow> ustr \<Rightarrow> ustr \<Rightarrow> ustr \<Rightarrow> pyval \<Rightarrow> ustr \<Rightarrow> bytes res" where
  "handshake_proof_input domain sender_aid receiver_aid message_id timestamp pop_nonce =
     bindE (utf8_encode sender_aid) (\<lambda>s.
     bindE (utf8_encode receiver_aid) (\<lambda>r.
     bindE (utf8_encode message_id) (\<lambda>m.
     bindE (py_int timestamp) (\<lambda>t.
     bindE (ascii_encode (str_int t)) (\<lambda>ts.
     bindE (b64url_decode pop_nonce) (\<lambda>n.
       Inr (domain @ s @ [0] @ r @ [0] @ m @ [0] @ ts @ [0] @ n)))))))"

end
