(* ===== verification/Envelope.thy ===== *)
theory Envelope
  imports Jws Sigfield
begin

text \<open>
  \<open>aitp_verifier/envelope.py\<close>: the message envelope, its shape gates, its domain-separated
  signing input and its verification. Errors of the version check come before every other.
\<close>

definition PROTOCOL_VERSION :: ustr where
  "PROTOCOL_VERSION = u ''aitp/0.3''"

text \<open>\<open>aitp_verifier/timeutil.py\<close>\<close>

definition REFERENCE_CLOCK :: int where
  "REFERENCE_CLOCK = 1711900000"

section \<open>Shape\<close>

definition ENVELOPE_FIELDS :: "ustr list" where
  "ENVELOPE_FIELDS =
     map u [''version'', ''message_type'', ''message_id'', ''timestamp'', ''sender'', ''payload'',
            ''signature'', ''extensions'']"

definition SENDER_FIELDS :: "ustr list" where
  "SENDER_FIELDS = [u ''agent_id'']"

definition REQUIRED_ENVELOPE_FIELDS :: "ustr list" where
  "REQUIRED_ENVELOPE_FIELDS =
     map u [''version'', ''message_type'', ''message_id'', ''timestamp'', ''sender'', ''payload'', ''signature'']"

definition ENVELOPE_TYPES :: "(ustr \<times> jtype list) list" where
  "ENVELOPE_TYPES =
     [(u ''version'', [TStr]), (u ''message_type'', [TStr]), (u ''message_id'', [TStr]),
      (u ''timestamp'', [TInt]), (u ''sender'', [TDict]), (u ''payload'', [TDict]),
      (u ''signature'', [TStr]), (u ''extensions'', [TDict])]"

definition REQUIRED_SENDER_FIELDS :: "ustr list" where
  "REQUIRED_SENDER_FIELDS = [u ''agent_id'']"

definition SENDER_TYPES :: "(ustr \<times> jtype list) list" where
  "SENDER_TYPES = [(u ''agent_id'', [TStr])]"

text \<open>\<open>_SIGNATURE_PATTERN.fullmatch\<close>\<close>

definition signature_pattern :: "ustr \<Rightarrow> bool" where
  "signature_pattern s =
     (let body = (case strip_prefix (u ''ed25519.'') s of
                    Some b \<Rightarrow> b
                  | None \<Rightarrow> (case strip_prefix (u ''p256.'') s of Some b \<Rightarrow> b | None \<Rightarrow> s))
      in length body = 86 \<and> list_all in_alphabet body)"

definition ENVELOPE_DOMAIN_TAG :: bytes where
  "ENVELOPE_DOMAIN_TAG = ub ''aitp-envelope-v2'' @ [0]"

definition envelope_signing_input :: "dict \<Rightarrow> bytes res" where
  "envelope_signing_input env =
     bindE (canonical_bytes ''INVALID_ENVELOPE'' (PDict (without (u ''signature'') env)))
       (\<lambda>b. Inr (ENVELOPE_DOMAIN_TAG @ b))"

definition validate_envelope_shape :: "pyval \<Rightarrow> dict res" where
  "validate_envelope_shape v =
     (case v of
        PDict env \<Rightarrow>
          ensure (get env (u ''version'') = PStr PROTOCOL_VERSION) (raise ''UNKNOWN_VERSION'') (
          bindE (require_members REQUIRED_ENVELOPE_FIELDS ''INVALID_ENVELOPE'' env) (\<lambda>_.
          bindE (check_types ENVELOPE_TYPES ''INVALID_ENVELOPE'' env) (\<lambda>_.
          bindE (reject_unknown_fields ENVELOPE_FIELDS ''INVALID_ENVELOPE'' v) (\<lambda>_.
          ensure (\<not> py_negative (get env (u ''timestamp''))) (raise ''INVALID_ENVELOPE'') (
          ensure (signature_pattern (the_str (get env (u ''signature'')))) (raise ''INVALID_ENVELOPE'') (
          let sender = get env (u ''sender'') in
          bindE (require_members REQUIRED_SENDER_FIELDS ''INVALID_ENVELOPE'' (the_dict sender)) (\<lambda>_.
          bindE (check_types SENDER_TYPES ''INVALID_ENVELOPE'' (the_dict sender)) (\<lambda>_.
          bindE (reject_unknown_fields SENDER_FIELDS ''INVALID_ENVELOPE'' sender) (\<lambda>_.
            Inr env)))))))))
      | _ \<Rightarrow> raise ''INVALID_ENVELOPE'')"

section \<open>Verification\<close>

definition sender_agent_id :: "dict \<Rightarrow> ustr" where
  "sender_agent_id env = the_str (get (the_dict (get env (u ''sender''))) (u ''agent_id''))"

definition ok_verdict :: pyval where
  "ok_verdict = PDict [(u ''ok'', PBool True)]"

definition verify_envelope :: "crypto \<Rightarrow> dict \<Rightarrow> int \<Rightarrow> pyval res" where
  "verify_envelope C inp now =
     (if has inp (u ''manifest_fetch'') \<or> has inp (u ''needed_key_for'') then
        raise_retryable ''KEY_RESOLUTION_FAILED''
      else if has inp (u ''active_tct'') \<and> has inp (u ''requested_capability'') then
        bindE (parse_compact (get inp (u ''active_tct'')) ''INVALID_SIGNATURE'') (\<lambda>p.
        bindE (py_in (get inp (u ''requested_capability'')) (get_or (PList []) (claims p) (u ''grants''))) (\<lambda>granted.
        ensure granted (raise ''POLICY_VIOLATION'') (Inr ok_verdict)))
      else
        bindE (item inp (u ''envelope'')) (\<lambda>raw_env.
        bindE (py_int (get_or (PInt 300) inp (u ''tolerance_seconds''))) (\<lambda>tolerance.
        let ts = get (the_dict raw_env) (u ''timestamp'') in
        ensure (\<not> (is_int ts \<and> tolerance < \<bar>now - the_int ts\<bar>)) (raise ''TIMESTAMP_EXPIRED'') (
        bindE (validate_envelope_shape raw_env) (\<lambda>env.
        bindE (catchE is_value_error (parse_aid C (sender_agent_id env)) (\<lambda>_. raise ''INVALID_ENVELOPE'')) (\<lambda>a.
        bindE (decode_tagged_signature (get env (u ''signature'')) a ''INVALID_SIGNATURE'') (\<lambda>raw.
        bindE (envelope_signing_input env) (\<lambda>inp_bytes.
        bindE (verify_digest C (aid_key a) (sha256 inp_bytes) raw) (\<lambda>good.
        ensure good (raise ''INVALID_SIGNATURE'') (Inr ok_verdict))))))))))"

section \<open>The shape gates\<close>

lemma validate_envelope_shape_aitp [aitp_intros]: "aitp_or es (validate_envelope_shape v)"
  unfolding validate_envelope_shape_def Let_def
  by (auto intro!: aitp_intros split: pyval.split)

text \<open>The typed view of an envelope that passed the gates.\<close>

definition envelope_shaped :: "dict \<Rightarrow> bool" where
  "envelope_shaped env \<longleftrightarrow>
     get env (u ''version'') = PStr PROTOCOL_VERSION \<and>
     is_str (get env (u ''message_type'')) \<and> is_str (get env (u ''message_id'')) \<and>
     (is_int (get env (u ''timestamp'')) \<or> is_integral_float (get env (u ''timestamp''))) \<and>
     \<not> py_negative (get env (u ''timestamp'')) \<and>
     is_dict (get env (u ''payload'')) \<and>
     is_str (get env (u ''signature'')) \<and> signature_pattern (the_str (get env (u ''signature''))) \<and>
     (\<forall>k. has env k \<longrightarrow> k \<in> set ENVELOPE_FIELDS) \<and>
     (\<exists>s agent. get env (u ''sender'') = PDict s \<and> get s (u ''agent_id'') = PStr agent \<and>
        (\<forall>k. has s k \<longrightarrow> k = u ''agent_id''))"

lemma validate_envelope_shape_ok:
  assumes "validate_envelope_shape v = Inr env"
  shows "v = PDict env \<and> envelope_shaped env"
proof -
  obtain s where v: "v = PDict env" and ver: "get env (u ''version'') = PStr PROTOCOL_VERSION"
    and req: "require_members REQUIRED_ENVELOPE_FIELDS ''INVALID_ENVELOPE'' env = Inr ()"
    and tys: "check_types ENVELOPE_TYPES ''INVALID_ENVELOPE'' env = Inr ()"
    and fields: "reject_unknown_fields ENVELOPE_FIELDS ''INVALID_ENVELOPE'' v = Inr ()"
    and rest: "\<not> py_negative (get env (u ''timestamp''))" "signature_pattern (the_str (get env (u ''signature'')))"
    and sender: "get env (u ''sender'') = s"
      "require_members REQUIRED_SENDER_FIELDS ''INVALID_ENVELOPE'' (the_dict s) = Inr ()"
      "check_types SENDER_TYPES ''INVALID_ENVELOPE'' (the_dict s) = Inr ()"
      "reject_unknown_fields SENDER_FIELDS ''INVALID_ENVELOPE'' s = Inr ()"
    using assms unfolding validate_envelope_shape_def Let_def
    by (cases v) (simp_all add: bindE_ok ensure_raise_ok)
  note m = typed_member [OF req tys, unfolded REQUIRED_ENVELOPE_FIELDS_def ENVELOPE_TYPES_def]
  have "is_str (get env (u ''message_type''))" "is_str (get env (u ''message_id''))"
    "is_int (get env (u ''timestamp'')) \<or> is_integral_float (get env (u ''timestamp''))"
    "is_dict (get env (u ''payload''))" "is_str (get env (u ''signature''))"
    using m [of "u ''message_type''" "[TStr]"] m [of "u ''message_id''" "[TStr]"] m [of "u ''timestamp''" "[TInt]"]
      m [of "u ''payload''" "[TDict]"] m [of "u ''signature''" "[TStr]"] by simp_all
  moreover obtain d where d: "s = PDict d" "\<forall>k. has d k \<longrightarrow> k = u ''agent_id''"
    using sender(4) by (auto simp: ok_simps SENDER_FIELDS_def)
  moreover have "is_str (get d (u ''agent_id''))"
    using typed_member [OF sender(2,3), of "u ''agent_id''" "[TStr]"] d
    by (simp add: REQUIRED_SENDER_FIELDS_def SENDER_TYPES_def)
  moreover have "\<forall>k. has env k \<longrightarrow> k \<in> set ENVELOPE_FIELDS"
    using fields by (simp add: v ok_simps)
  ultimately show ?thesis
    using v ver rest sender(1) by (simp add: envelope_shaped_def is_str_iff)
qed

lemma envelope_signing_input_aitp [aitp_intros]:
  "UnicodeError \<in> set es \<Longrightarrow> aitp_or es (envelope_signing_input env)"
  unfolding envelope_signing_input_def by (intro aitp_intros)

section \<open>Properties\<close>

text \<open>The bytes of a canonical object start with an opening brace.\<close>

lemma canonicalize_dict_head: "canonicalize (PDict d) = Inr b \<Longrightarrow> \<exists>r. b = 123 # r"
  by (auto simp: canonicalize_def dumps_def ok_simps serialize_PDict utf8_encode_def utf8_char_def
      split: if_splits prod.splits)

text \<open>
  C32. Domain separation: the bytes an envelope signature covers are never the bytes any other
  JCS-profile object is signed over, nor those of a pinned-key or SPIFFE handshake proof.
\<close>

theorem envelope_domain_separated:
  assumes "envelope_signing_input env = Inr b"
  shows "canonicalize (PDict d) \<noteq> Inr b \<and>
    handshake_proof_input PINNED_KEY_DOMAIN s r m t n \<noteq> Inr b \<and>
    handshake_proof_input SPIFFE_X509_DOMAIN s r m t n \<noteq> Inr b"
proof (intro conjI)
  obtain c where b: "b = ENVELOPE_DOMAIN_TAG @ c"
    using assms by (auto simp: envelope_signing_input_def ok_simps)
  show "canonicalize (PDict d) \<noteq> Inr b"
    using canonicalize_dict_head by (fastforce simp: b ENVELOPE_DOMAIN_TAG_def ub_def)
  show "handshake_proof_input PINNED_KEY_DOMAIN s r m t n \<noteq> Inr b"
    "handshake_proof_input SPIFFE_X509_DOMAIN s r m t n \<noteq> Inr b"
    by (auto simp: b handshake_proof_input_def ok_simps ENVELOPE_DOMAIN_TAG_def PINNED_KEY_DOMAIN_def
        SPIFFE_X509_DOMAIN_def ub_def)
qed


text \<open>
  Check order (RFC-AITP-0001 5.4): an envelope of any other version is \<open>UNKNOWN_VERSION\<close>,
  whatever else is wrong with it.
\<close>

theorem envelope_version_first:
  assumes "get env (u ''version'') \<noteq> PStr PROTOCOL_VERSION"
  shows "validate_envelope_shape (PDict env) = raise ''UNKNOWN_VERSION''"
  using assms by (simp add: validate_envelope_shape_def)

text \<open>
  Boundary contract: on any envelope whatsoever, the verifier returns a verdict or raises
  an AITP error, except that a lone surrogate makes it raise Python's \<open>UnicodeEncodeError\<close>.
\<close>

lemma verify_envelope_boundary:
  assumes "verify_envelope C inp now = Inl e" and "has inp (u ''envelope'')"
    and "is_int (get_or (PInt 300) inp (u ''tolerance_seconds''))"
    and "\<not> has inp (u ''active_tct'')"
  shows "is_aitp e \<or> e = UnicodeError"
proof -
  obtain tol where tol: "py_int (get_or (PInt 300) inp (u ''tolerance_seconds'')) = Inr tol"
    using assms(3) by (auto simp: is_int_iff)
  have item: "item inp (u ''envelope'') = Inr (get inp (u ''envelope''))"
    using assms(2) by (rule has_item)
  have "aitp_or [UnicodeError] (verify_envelope C inp now)"
    using assms(4) unfolding verify_envelope_def tol item bindE_Inr Let_def
    by (auto intro!: aitp_intros aitp_or_catchE dest: parse_aid_err
        intro: verify_digest_aitp simp: ok_simps)
  then show ?thesis using assms(1) by simp
qed

end
