(* ===== verification/Jwk.thy ===== *)
theory Jwk
  imports Aid
begin

text \<open>
  \<open>aitp_verifier/jwk.py\<close>: RFC 7638 thumbprints, and the parsing of an OIDC issuer's keys with
  its three bounds (nesting, candidates, visited nodes). The candidate list and the visit
  counter that the walk mutates are passed and returned.
\<close>

section \<open>Thumbprints\<close>

definition canonical_jwk :: "aid \<Rightarrow> bytes res" where
  "canonical_jwk a =
     (if aid_alg a = ALG_ED25519 then
        ascii_encode (jtext ''{`crv`:`Ed25519`,`kty`:`OKP`,`x`:`'' @ b64url_encode (raw_key a) @ jtext ''`}'')
      else
        (case pk_key (aid_key a) of
           P256_key (x, y) \<Rightarrow>
             ensure (x < 256 ^ 32 \<and> y < 256 ^ 32) (Inl OverflowError) (
               ascii_encode (jtext ''{`crv`:`P-256`,`kty`:`EC`,`x`:`'' @ b64url_encode (to_bytes 32 x)
                 @ jtext ''`,`y`:`'' @ b64url_encode (to_bytes 32 y) @ jtext ''`}''))
         | _ \<Rightarrow> Inl AssertionError))"

definition thumbprint :: "aid \<Rightarrow> ustr res" where
  "thumbprint a = bindE (canonical_jwk a) (\<lambda>b. Inr (b64url_encode (sha256 b)))"

definition thumbprint_for_aid :: "crypto \<Rightarrow> ustr \<Rightarrow> ustr res" where
  "thumbprint_for_aid C s = bindE (parse_aid C s) thumbprint"

text \<open>
  The coordinates of a decoded P-256 point are field elements, as the package documents: they
  fit in 32 bytes, so the thumbprint of a parsed AID always exists.
\<close>

definition points_in_range :: "crypto \<Rightarrow> bool" where
  "points_in_range C \<longleftrightarrow>
     (\<forall>b x y. length b = 33 \<longrightarrow> p256_decode C b = Some (x, y) \<longrightarrow> x < 256 ^ 32 \<and> y < 256 ^ 32)"

lemma ascii_encode_total: "list_all (\<lambda>c. c < 128) s \<Longrightarrow> \<exists>b. ascii_encode s = Inr b"
  by (simp add: ascii_encode_def)

lemma b64_text_ascii: "list_all (\<lambda>c. c < 128) (b64url_encode z)"
  using b64url_encode_alphabet [of z] in_alphabet_ascii by (auto simp: list_all_iff)

lemma thumbprint_total:
  assumes "points_in_range C" and "parse_aid C s = Inr a"
  shows "\<exists>t. thumbprint a = Inr t"
proof -
  have "\<exists>b. canonical_jwk a = Inr b"
  proof (cases "aid_alg a = ALG_ED25519")
    case True
    then show ?thesis
      unfolding canonical_jwk_def if_P [OF True]
      by (intro ascii_encode_total) (simp add: b64_text_ascii jtext_def)
  next
    case False
    then obtain raw x y where "p256_decode C raw = Some (x, y)" "length raw = 33"
      and key: "pk_key (aid_key a) = P256_key (x, y)"
      using assms(2) by (auto simp: parse_aid_def Let_def ok_simps from_raw_def split: option.splits prod.splits if_splits)
    then have "x < 256 ^ 32" "y < 256 ^ 32" using assms(1) by (auto simp: points_in_range_def)
    with False key show ?thesis
      unfolding canonical_jwk_def if_not_P [OF False] key key_object.case prod.case ensure_def
      by simp (intro ascii_encode_total, simp add: b64_text_ascii jtext_def)
  qed
  then show ?thesis by (auto simp: thumbprint_def)
qed

lemma thumbprint_aitp: "points_in_range C \<Longrightarrow> parse_aid C s = Inr a \<Longrightarrow> aitp_or es (thumbprint a)"
  using thumbprint_total by fastforce

lemma points_in_range_sample: "points_in_range sample_crypto"
proof -
  have "from_bytes (tl b) < 256 ^ 32" if "length b = 33" for b :: bytes
    using from_bytes_bound [of "tl b"] that by simp
  then show ?thesis by (simp add: points_in_range_def sample_crypto_def)
qed

section \<open>One issuer key\<close>

record issuer_key =
  ik_kid :: "ustr option"
  ik_jose_alg :: ustr
  ik_key :: public_key

definition MAX_B64_MEMBER_CHARS :: nat where
  "MAX_B64_MEMBER_CHARS = 8192"

definition require_str :: "pyval \<Rightarrow> ustr res" where
  "require_str v = (case v of PStr s \<Rightarrow> Inr s | _ \<Rightarrow> Inl ValueError)"

definition decode_jwk_member :: "dict \<Rightarrow> ustr \<Rightarrow> bytes res" where
  "decode_jwk_member v member =
     bindE (require_str (get v member)) (\<lambda>text.
     ensure (length text \<le> MAX_B64_MEMBER_CHARS) (Inl ValueError) (b64url_decode text))"

definition issuer_key_from_jwk :: "crypto \<Rightarrow> pyval \<Rightarrow> issuer_key res" where
  "issuer_key_from_jwk C v =
     (case v of
        PDict d \<Rightarrow>
          (let kty = get d (u ''kty''); kid = get d (u ''kid'') in
           ensure (kid = PNone \<or> is_str kid) (Inl ValueError) (
           let kid = (if kid = PNone then None else Some (the_str kid)) in
           if kty = PStr (u ''OKP'') then
             ensure (get d (u ''crv'') = PStr (u ''Ed25519'')) (Inl ValueError) (
             bindE (decode_jwk_member d (u ''x'')) (\<lambda>x.
             ensure (length x = 32) (Inl ValueError) (
             bindE (from_raw C ALG_ED25519 x) (\<lambda>pk.
               Inr \<lparr>ik_kid = kid, ik_jose_alg = u ''EdDSA'', ik_key = pk\<rparr>))))
           else if kty = PStr (u ''EC'') then
             ensure (get d (u ''crv'') = PStr (u ''P-256'')) (Inl ValueError) (
             bindE (decode_jwk_member d (u ''x'')) (\<lambda>x.
             bindE (decode_jwk_member d (u ''y'')) (\<lambda>y.
             ensure (length x = 32 \<and> length y = 32) (Inl ValueError) (
             let q = (from_bytes x, from_bytes y) in
             ensure (p256_on_curve C q) (Inl ValueError) (
               Inr \<lparr>ik_kid = kid, ik_jose_alg = u ''ES256'',
                    ik_key = \<lparr>pk_alg = ALG_P256, pk_key = P256_key q\<rparr>\<rparr>)))))
           else if kty = PStr (u ''RSA'') then
             bindE (decode_jwk_member d (u ''n'')) (\<lambda>n.
             bindE (decode_jwk_member d (u ''e'')) (\<lambda>e.
             bindE (from_rsa_numbers C n e) (\<lambda>pk.
               Inr \<lparr>ik_kid = kid, ik_jose_alg = u ''RS256'', ik_key = pk\<rparr>)))
           else Inl ValueError))
      | _ \<Rightarrow> Inl ValueError)"

definition issuer_key_from_config :: "crypto \<Rightarrow> ustr \<Rightarrow> issuer_key res" where
  "issuer_key_from_config C text =
     (if length text = 43 then
        bindE (b64url_decode text) (\<lambda>raw. bindE (from_raw C ALG_ED25519 raw) (\<lambda>pk.
          Inr \<lparr>ik_kid = None, ik_jose_alg = u ''EdDSA'', ik_key = pk\<rparr>))
      else if length text = 44 then
        bindE (b64url_decode text) (\<lambda>raw. bindE (from_raw C ALG_P256 raw) (\<lambda>pk.
          Inr \<lparr>ik_kid = None, ik_jose_alg = u ''ES256'', ik_key = pk\<rparr>))
      else Inl ValueError)"

section \<open>The bounded walk\<close>

definition MAX_DEPTH :: nat where
  "MAX_DEPTH = 16"

definition MAX_CANDIDATES :: nat where
  "MAX_CANDIDATES = 64"

definition MAX_NODES_VISITED :: nat where
  "MAX_NODES_VISITED = 4096"

definition reserve :: "issuer_key list \<Rightarrow> unit res" where
  "reserve out = ensure (\<not> MAX_CANDIDATES \<le> length out) (Inl ValueError) (Inr ())"

definition visit_key :: "nat \<Rightarrow> nat res" where
  "visit_key visits = ensure (\<not> MAX_NODES_VISITED < Suc visits) (Inl ValueError) (Inr (Suc visits))"

text \<open>The loop over a JWKS's \<open>keys\<close>.\<close>

fun jwks_loop :: "crypto \<Rightarrow> pyval list \<Rightarrow> issuer_key list \<Rightarrow> issuer_key list res" where
  "jwks_loop C [] out = Inr out"
| "jwks_loop C (k # ks) out =
     bindE (reserve out) (\<lambda>_.
     bindE (issuer_key_from_jwk C k) (\<lambda>key. jwks_loop C ks (out @ [key])))"

text \<open>The branch for an object: a JWKS, or else one JWK.\<close>

definition jwks_or_jwk :: "crypto \<Rightarrow> dict \<Rightarrow> issuer_key list \<Rightarrow> issuer_key list res" where
  "jwks_or_jwk C d out =
     (if has d (u ''keys'') then
        (case get d (u ''keys'') of
           PList ks \<Rightarrow> jwks_loop C ks out
         | _ \<Rightarrow> Inl ValueError)
      else
        bindE (reserve out) (\<lambda>_.
        bindE (issuer_key_from_jwk C (PDict d)) (\<lambda>k. Inr (out @ [k]))))"

fun issuer_keys_walk :: "crypto \<Rightarrow> pyval \<Rightarrow> nat \<Rightarrow> issuer_key list \<Rightarrow> nat \<Rightarrow> (issuer_key list \<times> nat) res"
  and issuer_keys_items :: "crypto \<Rightarrow> pyval list \<Rightarrow> nat \<Rightarrow> issuer_key list \<Rightarrow> nat \<Rightarrow> (issuer_key list \<times> nat) res"
where
  "issuer_keys_walk C v depth out visits =
     bindE (visit_key visits) (\<lambda>visits.
     ensure (\<not> MAX_DEPTH < depth) (Inl ValueError) (
       case v of
         PNone \<Rightarrow> Inr (out, visits)
       | PStr s \<Rightarrow>
           bindE (reserve out) (\<lambda>_.
           bindE (issuer_key_from_config C s) (\<lambda>k. Inr (out @ [k], visits)))
       | PDict d \<Rightarrow> bindE (jwks_or_jwk C d out) (\<lambda>out. Inr (out, visits))
       | PList xs \<Rightarrow> issuer_keys_items C xs (Suc depth) out visits
       | _ \<Rightarrow> Inl ValueError))"
| "issuer_keys_items C [] depth out visits = Inr (out, visits)"
| "issuer_keys_items C (x # xs) depth out visits =
     bindE (issuer_keys_walk C x depth out visits) (\<lambda>(out, visits).
       issuer_keys_items C xs depth out visits)"

declare issuer_keys_walk.simps [simp del]

definition issuer_keys_from :: "crypto \<Rightarrow> pyval \<Rightarrow> issuer_key list res" where
  "issuer_keys_from C v = bindE (issuer_keys_walk C v 0 [] 0) (\<lambda>(out, visits). Inr out)"

section \<open>Errors and bounds\<close>

lemma decode_jwk_member_err: "decode_jwk_member d m = Inl e \<Longrightarrow> is_value_error e"
  by (auto simp: decode_jwk_member_def require_str_def err_simps split: pyval.splits dest: b64url_decode_err)

lemma issuer_key_from_jwk_err: "issuer_key_from_jwk C v = Inl e \<Longrightarrow> is_value_error e"
  by (auto simp: issuer_key_from_jwk_def Let_def err_simps split: pyval.splits if_splits
      dest: decode_jwk_member_err from_raw_err from_rsa_numbers_err)

lemma issuer_key_from_config_err: "issuer_key_from_config C t = Inl e \<Longrightarrow> is_value_error e"
  by (auto simp: issuer_key_from_config_def err_simps split: if_splits dest: b64url_decode_err from_raw_err)

lemma visit_key_ok [ok_simps]: "visit_key n = Inr m \<longleftrightarrow> m = Suc n \<and> m \<le> MAX_NODES_VISITED"
  by (auto simp: visit_key_def ok_simps)

lemma visit_key_err [err_simps]: "visit_key n = Inl e \<longleftrightarrow> MAX_NODES_VISITED < Suc n \<and> e = ValueError"
  by (auto simp: visit_key_def err_simps)

lemma reserve_ok [ok_simps]: "reserve out = Inr w \<longleftrightarrow> length out < MAX_CANDIDATES"
  by (auto simp: reserve_def ok_simps)

lemma reserve_err [err_simps]: "reserve out = Inl e \<longleftrightarrow> MAX_CANDIDATES \<le> length out \<and> e = ValueError"
  by (auto simp: reserve_def err_simps)

lemma jwks_loop_err: "jwks_loop C ks out = Inl e \<Longrightarrow> is_value_error e"
  by (induction ks arbitrary: out) (auto simp: err_simps dest: issuer_key_from_jwk_err)

lemma jwks_or_jwk_err: "jwks_or_jwk C d out = Inl e \<Longrightarrow> is_value_error e"
  by (auto simp: jwks_or_jwk_def err_simps split: pyval.splits if_splits
      dest: jwks_loop_err issuer_key_from_jwk_err)

lemma issuer_keys_walk_err:
  "issuer_keys_walk C v d out n = Inl e \<Longrightarrow> is_value_error e"
  "issuer_keys_items C vs d out n = Inl e \<Longrightarrow> is_value_error e"
proof (induction C v d out n and C vs d out n rule: issuer_keys_walk_issuer_keys_items.induct)
  case (1 C v depth out visits)
  have IH: "issuer_keys_items C xs (Suc depth) out (Suc visits) = Inl e \<Longrightarrow> is_value_error e"
    if "Suc visits \<le> MAX_NODES_VISITED" "depth \<le> MAX_DEPTH" "v = PList xs" for xs
    using that by (intro "1.IH" [of "Suc visits" xs]) (auto simp: ok_simps)
  show ?case
  proof (cases v)
    case (PList xs)
    with "1.prems" show ?thesis
      using IH [OF _ _ PList] by (auto simp: issuer_keys_walk.simps err_simps ok_simps)
  qed (use "1.prems" in \<open>auto simp: issuer_keys_walk.simps err_simps ok_simps
        dest: issuer_key_from_config_err jwks_or_jwk_err\<close>)
qed (auto simp: err_simps)

lemma issuer_keys_from_err: "issuer_keys_from C v = Inl e \<Longrightarrow> is_value_error e"
  by (auto simp: issuer_keys_from_def err_simps dest: issuer_keys_walk_err)

text \<open>A key whose JOSE algorithm is the one its structure implies.\<close>

definition issuer_key_wf :: "issuer_key \<Rightarrow> bool" where
  "issuer_key_wf k \<longleftrightarrow>
     key_wf (ik_key k) \<and>
     (ik_jose_alg k = u ''EdDSA'' \<and> pk_alg (ik_key k) = ALG_ED25519 \<or>
      ik_jose_alg k = u ''ES256'' \<and> pk_alg (ik_key k) = ALG_P256 \<or>
      ik_jose_alg k = u ''RS256'' \<and> pk_alg (ik_key k) = ALG_RSA)"

lemma issuer_key_from_jwk_wf: "issuer_key_from_jwk C v = Inr k \<Longrightarrow> issuer_key_wf k"
proof (cases v)
  case (PDict d)
  assume ok: "issuer_key_from_jwk C v = Inr k"
  consider "get d (u ''kty'') = PStr (u ''OKP'')" | "get d (u ''kty'') = PStr (u ''EC'')"
    | "get d (u ''kty'') = PStr (u ''RSA'')"
    | "get d (u ''kty'') \<notin> {PStr (u ''OKP''), PStr (u ''EC''), PStr (u ''RSA'')}"
    by blast
  then show ?thesis
  proof cases
    case 1
    with ok obtain x pk where "from_raw C ALG_ED25519 x = Inr pk" "ik_key k = pk" "ik_jose_alg k = u ''EdDSA''"
      by (auto simp: issuer_key_from_jwk_def PDict Let_def ok_simps)
    then show ?thesis using from_raw_wf by (auto simp: issuer_key_wf_def)
  next
    case 2
    with ok obtain q where "ik_key k = \<lparr>pk_alg = ALG_P256, pk_key = P256_key q\<rparr>" "ik_jose_alg k = u ''ES256''"
      by (auto simp: issuer_key_from_jwk_def PDict Let_def ok_simps)
    then show ?thesis by (auto simp: issuer_key_wf_def key_wf_def)
  next
    case 3
    with ok obtain n e pk where "from_rsa_numbers C n e = Inr pk" "ik_key k = pk" "ik_jose_alg k = u ''RS256''"
      by (auto simp: issuer_key_from_jwk_def PDict Let_def bindE_ok ensure_Inl_ok)
    then show ?thesis using from_rsa_numbers_wf by (auto simp: issuer_key_wf_def)
  next
    case 4
    with ok show ?thesis by (simp add: issuer_key_from_jwk_def PDict Let_def ok_simps)
  qed
qed (simp_all add: issuer_key_from_jwk_def)

lemma issuer_key_from_config_wf: "issuer_key_from_config C t = Inr k \<Longrightarrow> issuer_key_wf k"
  by (auto simp: issuer_key_from_config_def issuer_key_wf_def ok_simps split: if_splits dest: from_raw_wf)

definition candidates_ok :: "issuer_key list \<Rightarrow> bool" where
  "candidates_ok out \<longleftrightarrow> length out \<le> MAX_CANDIDATES \<and> (\<forall>k \<in> set out. issuer_key_wf k)"

lemma candidates_ok_snoc:
  "candidates_ok out \<Longrightarrow> length out < MAX_CANDIDATES \<Longrightarrow> issuer_key_wf k \<Longrightarrow> candidates_ok (out @ [k])"
  by (auto simp: candidates_ok_def ok_simps)

lemma jwks_loop_candidates: "jwks_loop C ks out = Inr out' \<Longrightarrow> candidates_ok out \<Longrightarrow> candidates_ok out'"
  by (induction ks arbitrary: out)
     (auto simp: ok_simps intro: candidates_ok_snoc issuer_key_from_jwk_wf)

lemma jwks_or_jwk_candidates:
  "jwks_or_jwk C d out = Inr out' \<Longrightarrow> candidates_ok out \<Longrightarrow> candidates_ok out'"
  by (auto simp: jwks_or_jwk_def ok_simps split: pyval.splits if_splits
      dest: jwks_loop_candidates intro: candidates_ok_snoc issuer_key_from_jwk_wf)

lemma issuer_keys_walk_candidates:
  "issuer_keys_walk C v d out n = Inr (out', n') \<Longrightarrow> candidates_ok out \<Longrightarrow> candidates_ok out'"
  "issuer_keys_items C vs d out n = Inr (out', n') \<Longrightarrow> candidates_ok out \<Longrightarrow> candidates_ok out'"
proof (induction C v d out n and C vs d out n arbitrary: out' n' and out' n'
    rule: issuer_keys_walk_issuer_keys_items.induct)
  case (1 C v depth out visits)
  have IH: "candidates_ok out'"
    if "Suc visits \<le> MAX_NODES_VISITED" "depth \<le> MAX_DEPTH" "v = PList xs"
      "issuer_keys_items C xs (Suc depth) out (Suc visits) = Inr (out', n')" for xs
    by (rule "1.IH" [OF _ _ that(3) that(4) "1.prems"(2)]) (use that in \<open>simp_all add: ok_simps\<close>)
  show ?case
  proof (cases v)
    case (PList xs)
    with "1.prems" show ?thesis
      using IH [OF _ _ PList] by (auto simp: issuer_keys_walk.simps ok_simps)
  qed (use "1.prems" in \<open>auto simp: issuer_keys_walk.simps ok_simps
        dest: jwks_or_jwk_candidates intro: candidates_ok_snoc issuer_key_from_config_wf\<close>)
next
  case (3 C x xs depth out visits)
  from "3.prems" obtain o1 n1 where "issuer_keys_walk C x depth out visits = Inr (o1, n1)"
    and "issuer_keys_items C xs depth o1 n1 = Inr (out', n')"
    by (auto simp: ok_simps)
  with "3.IH" "3.prems"(2) show ?case by blast
qed auto

text \<open>The nodes a walk visits: a dictionary is a leaf.\<close>

fun walk_nodes :: "pyval \<Rightarrow> nat" where
  "walk_nodes (PList xs) = Suc (sum_list (map walk_nodes xs))"
| "walk_nodes _ = 1"

fun list_depth :: "pyval \<Rightarrow> nat" where
  "list_depth (PList xs) = foldr max (map (\<lambda>x. Suc (list_depth x)) xs) 0"
| "list_depth _ = 0"

lemma issuer_keys_walk_bounds:
  "issuer_keys_walk C v d out n = Inr (out', n') \<Longrightarrow>
     n' = n + walk_nodes v \<and> n' \<le> MAX_NODES_VISITED \<and> d + list_depth v \<le> MAX_DEPTH"
  "issuer_keys_items C vs d out n = Inr (out', n') \<Longrightarrow> n \<le> MAX_NODES_VISITED \<Longrightarrow>
     n' = n + sum_list (map walk_nodes vs) \<and> n' \<le> MAX_NODES_VISITED \<and>
     (\<forall>v \<in> set vs. d + list_depth v \<le> MAX_DEPTH)"
proof (induction C v d out n and C vs d out n arbitrary: out' n' and out' n'
    rule: issuer_keys_walk_issuer_keys_items.induct)
  case (1 C v depth out visits)
  from "1.prems" have n: "Suc visits \<le> MAX_NODES_VISITED" and d: "depth \<le> MAX_DEPTH"
    by (auto simp: issuer_keys_walk.simps ok_simps)
  show ?case
  proof (cases v)
    case (PList xs)
    with "1.prems" have "issuer_keys_items C xs (Suc depth) out (Suc visits) = Inr (out', n')"
      by (auto simp: issuer_keys_walk.simps ok_simps)
    moreover have "visit_key visits = Inr (Suc visits)" using n by (simp add: ok_simps)
    ultimately show ?thesis
      using "1.IH" [OF _ _ PList, of "Suc visits" out' n'] n d by (simp add: foldr_max_le PList)
  qed (use "1.prems" n d in \<open>auto simp: issuer_keys_walk.simps ok_simps\<close>)
next
  case (3 C x xs depth out visits)
  from "3.prems" obtain o1 n1 where x: "issuer_keys_walk C x depth out visits = Inr (o1, n1)"
    and xs: "issuer_keys_items C xs depth o1 n1 = Inr (out', n')"
    by (auto simp: ok_simps)
  from "3.IH"(1) [OF x] "3.IH"(2) [OF x _ xs] show ?case by auto
qed auto

section \<open>Properties\<close>

text \<open>
  C40. Resolving an issuer's keys yields at most 64 candidates, and only from a value that nests
  at most 16 lists and takes at most 4096 steps to walk; each candidate's JOSE algorithm is the
  one its key structure implies.
\<close>

theorem issuer_keys_bounded:
  assumes "issuer_keys_from C v = Inr keys"
  shows "length keys \<le> 64 \<and> walk_nodes v \<le> 4096 \<and> list_depth v \<le> 16 \<and> (\<forall>k \<in> set keys. issuer_key_wf k)"
proof (intro conjI)
  obtain n where w: "issuer_keys_walk C v 0 [] 0 = Inr (keys, n)"
    using assms by (auto simp: issuer_keys_from_def ok_simps)
  have "candidates_ok keys"
    by (rule issuer_keys_walk_candidates(1) [OF w]) (simp add: candidates_ok_def)
  then show "length keys \<le> 64" "\<forall>k \<in> set keys. issuer_key_wf k"
    by (simp_all add: candidates_ok_def MAX_CANDIDATES_def)
  show "walk_nodes v \<le> 4096" "list_depth v \<le> 16"
    using issuer_keys_walk_bounds(1) [OF w] by (simp_all add: MAX_NODES_VISITED_def MAX_DEPTH_def)
qed

text \<open>
  A JWK's own \<open>alg\<close> member is never read: whatever it claims, the parsed key and its JOSE
  algorithm are those of the same JWK without it.
\<close>

theorem jwk_alg_member_ignored:
  "issuer_key_from_jwk C (PDict ((u ''alg'', claimed) # without (u ''alg'') d)) =
   issuer_key_from_jwk C (PDict d)"
  by (simp add: issuer_key_from_jwk_def decode_jwk_member_def Let_def cong: if_cong)

end
