(* ===== verification/Samples.thy ===== *)
theory Samples
  imports Envelope Jwk
begin

text \<open>
  Concrete inputs for the examples: AIDs, a signature, signed tokens and a canonical form for any
  plain object, over the sample \<open>cryptography\<close> package that accepts every well-formed signature.
  Canonical bytes and digests stay symbolic: their existence is all the examples need.
\<close>

definition sample_aid :: ustr where
  "sample_aid = ed_aid (replicate 32 0)"

definition peer_aid :: ustr where
  "peer_aid = ed_aid (replicate 32 1)"

definition sample_sig :: ustr where
  "sample_sig = b64url_encode (replicate 64 0)"

definition canon_bytes :: "pyval \<Rightarrow> bytes" where
  "canon_bytes v = (case canonicalize v of Inr b \<Rightarrow> b | Inl e \<Rightarrow> [])"

definition sample_header :: "ustr \<Rightarrow> dict" where
  "sample_header typ = [(u ''alg'', PStr (u ''EdDSA'')), (u ''typ'', PStr typ)]"

definition compact_text :: "dict \<Rightarrow> dict \<Rightarrow> ustr" where
  "compact_text h cl =
     b64url_encode (canon_bytes (PDict h)) @ u ''.'' @ b64url_encode (canon_bytes (PDict cl)) @ u ''.'' @ sample_sig"

definition sample_token :: "ustr \<Rightarrow> dict \<Rightarrow> pyval" where
  "sample_token typ cl = PStr (compact_text (sample_header typ) cl)"

definition sample_key :: "bytes \<Rightarrow> aid" where
  "sample_key k =
     \<lparr>aid_str = ed_aid k, aid_alg = ALG_ED25519, raw_key = k, aid_key = \<lparr>pk_alg = ALG_ED25519, pk_key = Ed_key k\<rparr>\<rparr>"

definition sample_jkt :: "bytes \<Rightarrow> ustr" where
  "sample_jkt k = (case thumbprint (sample_key k) of Inr t \<Rightarrow> t | Inl e \<Rightarrow> [])"

section \<open>Keys and signatures\<close>

lemma sample_parse_aid [simp]: "length k = 32 \<Longrightarrow> parse_aid sample_crypto (ed_aid k) = Inr (sample_key k)"
  by (simp add: parse_ed_aid sample_crypto_def sample_key_def)

lemma parse_sample_aid [simp]:
  "parse_aid sample_crypto sample_aid = Inr (sample_key (replicate 32 0))"
  "parse_aid sample_crypto peer_aid = Inr (sample_key (replicate 32 1))"
  by (simp_all add: sample_aid_def peer_aid_def)

lemma ed_aid_inject: "ed_aid k = ed_aid l \<longleftrightarrow> k = l"
proof
  assume "ed_aid k = ed_aid l"
  then have "b64url_decode (b64url_encode k) = b64url_decode (b64url_encode l)" by (simp add: ed_aid_def)
  then show "k = l" by (simp add: b64url_decode_encode)
qed simp

lemma sample_aids_differ [simp]: "sample_aid \<noteq> peer_aid" "peer_aid \<noteq> sample_aid"
proof -
  have "replicate 32 (0 :: byte) \<noteq> replicate 32 1" by (simp add: numeral_eq_Suc)
  then show "sample_aid \<noteq> peer_aid" "peer_aid \<noteq> sample_aid"
    by (simp_all add: sample_aid_def peer_aid_def ed_aid_inject)
qed

lemma sample_key_sel [simp]:
  "aid_alg (sample_key k) = ALG_ED25519" "raw_key (sample_key k) = k"
  "aid_key (sample_key k) = \<lparr>pk_alg = ALG_ED25519, pk_key = Ed_key k\<rparr>"
  by (simp_all add: sample_key_def)

lemma jose_alg_sample [simp]: "jose_alg (sample_key k) = Inr (u ''EdDSA'')"
  by (simp add: jose_alg_def jose_alg_of_def)

lemma sample_verify [simp]:
  "verify_digest sample_crypto \<lparr>pk_alg = ALG_ED25519, pk_key = Ed_key k\<rparr> d s = Inr True"
  "verify_jose sample_crypto \<lparr>pk_alg = ALG_ED25519, pk_key = Ed_key k\<rparr> m s h = Inr True"
  by (simp_all add: verify_digest_def verify_jose_def sample_crypto_def)

lemma sample_sig_decode [simp]: "b64url_decode sample_sig = Inr (replicate 64 0)"
  by (simp add: sample_sig_def b64url_decode_encode)

lemma no_dot_encode: "46 \<notin> set (b64url_encode k)"
  using no_dot_b64 [OF b64url_decode_encode] .

lemma sample_sig_tagged [simp]:
  "decode_tagged_signature_for (PStr sample_sig) ALG_ED25519 c = Inr (replicate 64 0)"
  using no_dot_encode [of "replicate 64 0"]
  by (simp add: decode_tagged_signature_for_def sample_sig_def b64url_decode_encode ALG_ED25519_def)

lemma sample_sig_tagged_aid [simp]:
  "decode_tagged_signature (PStr sample_sig) (sample_key k) c = Inr (replicate 64 0)"
  by (simp add: decode_tagged_signature_def)

lemma sample_sig_pattern [simp]: "signature_pattern sample_sig"
proof -
  have "58 \<notin> set sample_sig" "46 \<notin> set sample_sig"
    using alphabet_no_colon [OF b64url_encode_alphabet] no_dot_encode by (simp_all add: sample_sig_def)
  moreover have "46 \<in> set (u ''ed25519.'' @ r)" "46 \<in> set (u ''p256.'' @ r)" for r
    by (simp_all add: u_def)
  ultimately have "strip_prefix (u ''ed25519.'') sample_sig = None" "strip_prefix (u ''p256.'') sample_sig = None"
    unfolding strip_prefix_None by metis+
  then show ?thesis
    using b64url_encode_alphabet [of "replicate 64 0"]
    by (simp add: signature_pattern_def sample_sig_def b64url_encode_length)
qed

section \<open>Texts and canonical forms\<close>

lemma ascii_scalars: "list_all (\<lambda>c. c < 128) s \<Longrightarrow> list_all scalar s"
  by (auto simp: list_all_iff scalar_def surrogate_def)

lemma scalar_u [simp]: "list_all (\<lambda>c. of_char c < (128 :: nat)) s \<Longrightarrow> list_all scalar (u s)"
  by (rule ascii_scalars) (simp add: u_def list_all_length)

lemma scalar_b64 [simp]: "list_all scalar (b64url_encode k)"
  by (rule ascii_scalars) (rule b64_text_ascii)

lemma scalar_aids [simp]: "list_all scalar sample_aid" "list_all scalar peer_aid" "list_all scalar sample_sig"
  by (simp_all add: sample_aid_def peer_aid_def sample_sig_def ed_aid_def)

lemma sample_thumbprint [simp]: "length k = 32 \<Longrightarrow> thumbprint (sample_key k) = Inr (sample_jkt k)"
  using thumbprint_total [OF points_in_range_sample sample_parse_aid, of k] by (auto simp: sample_jkt_def)

lemma scalar_jkt [simp]: "list_all scalar (sample_jkt k)"
  by (auto simp: sample_jkt_def thumbprint_def bindE_def split: sum.splits)

text \<open>An object whose member names are given in canonical order keeps that order.\<close>

lemma canon_sorted:
  "sorted (map utf16_key (map fst d)) \<Longrightarrow> canon (PDict d) = PDict (map (\<lambda>p. (fst p, canon (snd p))) d)"
proof -
  assume "sorted (map utf16_key (map fst d))"
  then have "sort_key (\<lambda>p. utf16_key (fst p)) d = d"
    by (intro sort_key_id_if_sorted) (simp add: comp_def)
  then show ?thesis by (simp add: canon_PDict del: canon.simps)
qed

lemma canonical_plain:
  assumes "plain v" and "nesting v \<le> 256" and "nodes v \<le> 200000"
  shows "canonicalize v = Inr (canon_bytes v)" and "loads_bytes (canon_bytes v) = Inr (canon v)"
proof -
  obtain b where "canonicalize v = Inr b"
    using canonicalize_plain [OF assms(1)] assms(2,3) by (auto simp: max_depth_def max_nodes_visited_def)
  then show "canonicalize v = Inr (canon_bytes v)" "loads_bytes (canon_bytes v) = Inr (canon v)"
    using canonicalize_loads [of v b] assms(1) by (simp_all add: canon_bytes_def)
qed

section \<open>Tokens\<close>

lemma canon_sample_header: "canon (PDict (sample_header typ)) = PDict (sample_header typ)"
proof -
  have "sorted (map utf16_key (map fst (sample_header typ)))"
    by (simp add: sample_header_def) code_simp
  then show ?thesis by (simp only: canon_sorted) (simp add: sample_header_def)
qed

lemma b64_nonempty: "b \<noteq> [] \<Longrightarrow> b64url_encode b \<noteq> []"
  using b64url_encode_length [of b] by (cases b) auto

text \<open>An object of bounded size whose members are in canonical order\<close>

definition canonical_object :: "dict \<Rightarrow> bool" where
  "canonical_object d \<longleftrightarrow>
     plain (PDict d) \<and> nesting (PDict d) \<le> 256 \<and> nodes (PDict d) \<le> 200000 \<and> canon (PDict d) = PDict d"

lemma compact_text_parse:
  assumes h: "canonical_object h" and cl: "canonical_object cl"
  shows "\<exists>inp. \<forall>c. parse_compact (PStr (compact_text h cl)) c =
    Inr \<lparr>header = h, claims = cl, signing_input = inp, signature = replicate 64 0\<rparr>"
proof -
  let ?a = "b64url_encode (canon_bytes (PDict h))"
  let ?b = "b64url_encode (canon_bytes (PDict cl))"
  have c: "canonicalize (PDict d) = Inr (canon_bytes (PDict d))" "loads_bytes (canon_bytes (PDict d)) = Inr (PDict d)"
    if "canonical_object d" for d
    using canonical_plain [of "PDict d"] that by (simp_all add: canonical_object_def)
  have ne: "?a \<noteq> []" "?b \<noteq> []" "sample_sig \<noteq> []"
    using canonicalize_dict_head [OF c(1) [OF h]] canonicalize_dict_head [OF c(1) [OF cl]]
    by (auto simp: sample_sig_def intro!: b64_nonempty)
  obtain inp where "ascii_encode (?a @ u ''.'' @ ?b) = Inr inp"
    using ascii_encode_total [of "?a @ u ''.'' @ ?b"] by (auto simp: b64_text_ascii u_def)
  then have "parse_compact (PStr (compact_text h cl)) [] =
      Inr \<lparr>header = h, claims = cl, signing_input = inp, signature = replicate 64 0\<rparr>"
    unfolding parse_compact_ok compact_text_def
    using ne c(2) [OF h] c(2) [OF cl]
    by (intro exI [of _ ?a] exI [of _ ?b] exI [of _ sample_sig] exI [of _ "canon_bytes (PDict h)"]
        exI [of _ "canon_bytes (PDict cl)"]) (simp add: b64url_decode_encode)
  then show ?thesis using parse_compact_code by blast
qed

lemma scalar_compact_text [simp]: "list_all scalar (compact_text h cl)"
  by (simp add: compact_text_def)

lemma canonical_sample_header: "list_all scalar typ \<Longrightarrow> canonical_object (sample_header typ)"
  by (simp add: canonical_object_def canon_sample_header del: canon.simps) (simp add: sample_header_def)

text \<open>A sample token is signed under any Ed25519 AID, with the payload it was made of.\<close>

lemma sample_token_signed:
  assumes "canonical_object cl" and "list_all scalar typ" and "length k = 32"
  shows "jws_signed sample_crypto (sample_token typ cl) (ed_aid k) typ cl"
proof -
  obtain inp where "parse_compact (sample_token typ cl) [] =
      Inr \<lparr>header = sample_header typ, claims = cl, signing_input = inp, signature = replicate 64 0\<rparr>"
    using compact_text_parse [OF canonical_sample_header [OF assms(2)] assms(1)] by (auto simp: sample_token_def)
  then show ?thesis
    unfolding jws_signed_def using assms(3)
    by (intro exI conjI) (auto simp: sample_header_def)
qed

section \<open>A signed envelope\<close>

definition sample_envelope :: "string \<Rightarrow> dict \<Rightarrow> dict" where
  "sample_envelope mtype payload =
     [(u ''message_id'', PStr (u ''m-1'')), (u ''message_type'', PStr (u mtype)), (u ''payload'', PDict payload),
      (u ''sender'', PDict [(u ''agent_id'', PStr sample_aid)]), (u ''signature'', PStr sample_sig),
      (u ''timestamp'', PInt REFERENCE_CLOCK), (u ''version'', PStr PROTOCOL_VERSION)]"

lemma sample_envelope_get [simp]:
  "get (sample_envelope mt pl) (u ''payload'') = PDict pl"
  "get (sample_envelope mt pl) (u ''message_type'') = PStr (u mt)"
  "get (sample_envelope mt pl) (u ''message_id'') = PStr (u ''m-1'')"
  "get (sample_envelope mt pl) (u ''timestamp'') = PInt REFERENCE_CLOCK"
  "get (sample_envelope mt pl) (u ''version'') = PStr PROTOCOL_VERSION"
  "get (sample_envelope mt pl) (u ''signature'') = PStr sample_sig"
  "get (sample_envelope mt pl) (u ''sender'') = PDict [(u ''agent_id'', PStr sample_aid)]"
  "sender_agent_id (sample_envelope mt pl) = sample_aid"
  by (simp_all add: sample_envelope_def sender_agent_id_def)

lemma sample_envelope_shape [simp]:
  "validate_envelope_shape (PDict (sample_envelope mt pl)) = Inr (sample_envelope mt pl)"
  by (simp add: validate_envelope_shape_def sample_envelope_def require_members_def check_types_def type_ok_def
      reject_unknown_fields_def REQUIRED_ENVELOPE_FIELDS_def ENVELOPE_TYPES_def ENVELOPE_FIELDS_def
      REQUIRED_SENDER_FIELDS_def SENDER_TYPES_def SENDER_FIELDS_def REFERENCE_CLOCK_def)

lemma plain_clock [simp]: "\<bar>REFERENCE_CLOCK\<bar> < 2 ^ 53"
  by (simp add: REFERENCE_CLOCK_def)

lemma scalar_version [simp]: "list_all scalar PROTOCOL_VERSION"
  by (simp add: PROTOCOL_VERSION_def)

lemma sample_envelope_plain:
  "list_all (\<lambda>c. of_char c < (128 :: nat)) mt \<Longrightarrow> plain (PDict pl) \<Longrightarrow>
   plain (PDict (without (u ''signature'') (sample_envelope mt pl)))"
  by (simp add: sample_envelope_def REFERENCE_CLOCK_def)

lemma sample_signing_input:
  assumes "list_all (\<lambda>c. of_char c < (128 :: nat)) mt" and "plain (PDict pl)"
    and "nesting (PDict pl) \<le> 200" and "nodes (PDict pl) \<le> 100000"
  shows "\<exists>b. envelope_signing_input (sample_envelope mt pl) = Inr b"
proof -
  have "\<exists>b. canonicalize (PDict (without (u ''signature'') (sample_envelope mt pl))) = Inr b"
    using sample_envelope_plain [OF assms(1,2)] assms(3,4)
    by (intro canonicalize_plain) (simp_all add: sample_envelope_def max_depth_def max_nodes_visited_def del: plain.simps)
  then show ?thesis by (auto simp: envelope_signing_input_def canonical_bytes_def)
qed

definition envelope_input :: dict where
  "envelope_input = [(u ''envelope'', PDict (sample_envelope ''ping'' []))]"

lemma verify_sample_envelope: "verify_envelope sample_crypto envelope_input REFERENCE_CLOCK = Inr ok_verdict"
  using sample_signing_input [of "''ping''" "[]"]
  by (auto simp: verify_envelope_def envelope_input_def Let_def)

section \<open>Examples of the properties of the lower theories\<close>

definition plain_sample :: pyval where
  "plain_sample = PDict [(u ''b'', PList [PInt 7, PBool True]), (u ''a'', PStr (u ''x''))]"

lemma jcs_roundtrip_witness:
  "\<exists>b. canonicalize plain_sample = Inr b \<and> loads_bytes b = Inr (canon plain_sample)"
  using jcs_roundtrip [of plain_sample] by (simp add: plain_sample_def)

definition swapped_sample :: pyval where
  "swapped_sample = PDict [(u ''a'', PStr (u ''x'')), (u ''b'', PList [PInt 7, PBool True])]"


lemma integers_printed_in_decimal_witness: "format_number (PInt (- 42)) = Inr (str_int (- 42))"
  by (rule integers_printed_in_decimal) simp

lemma envelope_domain_separated_witness:
  "canonicalize (PDict []) \<noteq> envelope_signing_input (sample_envelope ''ping'' [])"
proof -
  obtain b where "envelope_signing_input (sample_envelope ''ping'' []) = Inr b"
    using sample_signing_input [of "''ping''" "[]"] by auto
  with envelope_domain_separated [OF this, of "[]"] show ?thesis by simp
qed


lemma envelope_version_first_witness: "validate_envelope_shape (PDict []) = raise ''UNKNOWN_VERSION''"
  by (rule envelope_version_first) simp

lemma verify_envelope_boundary_witness:
  "\<exists>e. verify_envelope sample_crypto envelope_input 0 = Inl e \<and> (is_aitp e \<or> e = UnicodeError)"
proof -
  have err: "verify_envelope sample_crypto envelope_input 0 = Inl (AitpError ''TIMESTAMP_EXPIRED'' False)"
    by (simp add: verify_envelope_def envelope_input_def Let_def REFERENCE_CLOCK_def)
  show ?thesis
    using err verify_envelope_boundary [OF err] by (simp add: envelope_input_def)
qed

lemma issuer_keys_bounded_witness:
  "issuer_keys_from sample_crypto (PList []) = Inr [] \<and> walk_nodes (PList []) \<le> 4096"
proof -
  have ok: "issuer_keys_from sample_crypto (PList []) = Inr []"
    by (simp add: issuer_keys_from_def issuer_keys_walk.simps visit_key_def MAX_NODES_VISITED_def MAX_DEPTH_def)
  from issuer_keys_bounded [OF ok] ok show ?thesis by simp
qed

end
