(* ===== verification/Revocation.thy ===== *)
theory Revocation
  imports Samples
begin

text \<open>
  \<open>aitp_verifier/revocation.py\<close>: revocation policy, freshness, the trust check of a signed
  snapshot, and the snapshot operation itself, which consults \<open>fail_mode\<close> only for a snapshot
  that is trustworthy but stale or another issuer's.
\<close>

section \<open>Policy\<close>

datatype fail_mode = Fail_closed | Fail_open | Soft_fail

definition resolve_fail_mode :: "pyval \<Rightarrow> fail_mode" where
  "resolve_fail_mode v =
     (if v = PStr (u ''fail_open'') then Fail_open
      else if v = PStr (u ''soft_fail'') then Soft_fail
      else Fail_closed)"

definition policy_of :: "dict \<Rightarrow> dict" where
  "policy_of inp = (let policy = get inp (u ''policy'') in if is_dict policy then the_dict policy else [])"

definition policy_fail_mode :: "dict \<Rightarrow> fail_mode" where
  "policy_fail_mode inp =
     resolve_fail_mode (get_or (PStr (u ''fail_closed'')) (policy_of inp) (u ''fail_mode''))"

definition snapshot_is_stale :: "dict \<Rightarrow> dict \<Rightarrow> int \<Rightarrow> bool res" where
  "snapshot_is_stale body policy now =
     bindE (py_int (get body (u ''expires_at''))) (\<lambda>expires_at.
     if expires_at \<le> now then Inr True
     else
       (let max_staleness = get policy (u ''max_staleness_secs'') in
        if max_staleness = PNone then Inr False
        else
          (case py_int max_staleness of
             Inl e \<Rightarrow>
               (if e = TypeError \<or> is_value_error e \<or> e = OverflowError then Inr True else Inl e)
           | Inr bound \<Rightarrow>
               bindE (py_int (get body (u ''published_at''))) (\<lambda>published_at.
                 Inr (bound < now - published_at)))))"

section \<open>Shape\<close>

definition SNAPSHOT_FIELDS :: "ustr list" where
  "SNAPSHOT_FIELDS = map u [''revocation_list'', ''signature'']"

definition BODY_FIELDS :: "ustr list" where
  "BODY_FIELDS =
     map u [''version'', ''issuer'', ''published_at'', ''expires_at'', ''entries'', ''extensions'']"

definition ENTRY_FIELDS :: "ustr list" where
  "ENTRY_FIELDS = map u [''jti'', ''revoked_at'', ''reason'']"

definition BODY_TYPES :: "(ustr \<times> jtype list) list" where
  "BODY_TYPES =
     [(u ''version'', [TStr]), (u ''issuer'', [TStr]), (u ''published_at'', [TInt]),
      (u ''expires_at'', [TInt]), (u ''entries'', [TList]), (u ''extensions'', [TDict])]"

definition ENTRY_TYPES :: "(ustr \<times> jtype list) list" where
  "ENTRY_TYPES = [(u ''jti'', [TStr]), (u ''revoked_at'', [TInt]), (u ''reason'', [TStr])]"

definition REQUIRED_BODY_FIELDS :: "ustr list" where
  "REQUIRED_BODY_FIELDS = map u [''version'', ''issuer'', ''published_at'', ''expires_at'', ''entries'']"

definition REQUIRED_ENTRY_FIELDS :: "ustr list" where
  "REQUIRED_ENTRY_FIELDS = map u [''jti'', ''revoked_at'']"

definition SNAPSHOT_INVALID :: string where
  "SNAPSHOT_INVALID = ''REVOCATION_SNAPSHOT_INVALID''"

definition validate_entry :: "pyval \<Rightarrow> unit res" where
  "validate_entry entry =
     ensure (is_dict entry) (raise SNAPSHOT_INVALID) (
     bindE (require_members REQUIRED_ENTRY_FIELDS SNAPSHOT_INVALID (the_dict entry)) (\<lambda>_.
       check_types ENTRY_TYPES SNAPSHOT_INVALID (the_dict entry)))"

definition validate_shape :: "pyval \<Rightarrow> dict res" where
  "validate_shape snapshot =
     ensure (is_dict snapshot) (raise SNAPSHOT_INVALID) (
     let snap = the_dict snapshot in
     bindE (require_members SNAPSHOT_FIELDS SNAPSHOT_INVALID snap) (\<lambda>_.
     ensure (is_str (get snap (u ''signature''))) (raise SNAPSHOT_INVALID) (
     ensure (is_dict (get snap (u ''revocation_list''))) (raise SNAPSHOT_INVALID) (
     let body = the_dict (get snap (u ''revocation_list'')) in
     bindE (require_members REQUIRED_BODY_FIELDS SNAPSHOT_INVALID body) (\<lambda>_.
     bindE (check_types BODY_TYPES SNAPSHOT_INVALID body) (\<lambda>_.
     ensure (get body (u ''version'') = PStr PROTOCOL_VERSION) (raise SNAPSHOT_INVALID) (
     bindE (eachE validate_entry (the_list (get body (u ''entries'')))) (\<lambda>_.
       Inr body))))))))"

section \<open>Trust\<close>

definition verify_snapshot_trust :: "crypto \<Rightarrow> pyval \<Rightarrow> dict res" where
  "verify_snapshot_trust C snapshot =
     bindE (validate_shape snapshot) (\<lambda>body.
     bindE (reject_unknown_fields SNAPSHOT_FIELDS SNAPSHOT_INVALID snapshot) (\<lambda>_.
     bindE (reject_unknown_fields BODY_FIELDS SNAPSHOT_INVALID (PDict body)) (\<lambda>_.
     bindE (eachE (reject_unknown_fields ENTRY_FIELDS SNAPSHOT_INVALID) (the_list (get body (u ''entries'')))) (\<lambda>_.
     bindE (catchE is_value_error (parse_aid C (the_str (get body (u ''issuer'')))) (\<lambda>_. raise SNAPSHOT_INVALID)) (\<lambda>issuer.
     bindE (decode_tagged_signature (get (the_dict snapshot) (u ''signature'')) issuer
              ''REVOCATION_SNAPSHOT_SIGNATURE_INVALID'') (\<lambda>raw.
     bindE (canonical_bytes SNAPSHOT_INVALID (PDict body)) (\<lambda>b.
     bindE (verify_digest C (aid_key issuer) (sha256 b) raw) (\<lambda>good.
     ensure good (raise ''REVOCATION_SNAPSHOT_SIGNATURE_INVALID'') (Inr body)))))))))"

text \<open>\<open>any(e.get("jti") == jti for e in entries)\<close>\<close>

definition on_deny_list :: "pyval \<Rightarrow> dict \<Rightarrow> bool" where
  "on_deny_list jti body \<longleftrightarrow>
     list_ex (\<lambda>e. py_eq (get (the_dict e) (u ''jti'')) jti) (the_list (get body (u ''entries'')))"

definition not_revoked :: pyval where
  "not_revoked = PDict [(u ''revoked'', PBool False)]"

definition not_revoked_stale :: pyval where
  "not_revoked_stale = PDict [(u ''revoked'', PBool False), (u ''stale'', PBool True)]"

definition verify_revocation_snapshot :: "crypto \<Rightarrow> dict \<Rightarrow> int option \<Rightarrow> pyval res" where
  "verify_revocation_snapshot C inp now =
     (let policy = policy_of inp; fail_mode = policy_fail_mode inp in
      bindE (case now of None \<Rightarrow> bindE (item inp (u ''now'')) py_int | Some t \<Rightarrow> Inr t) (\<lambda>now.
      bindE (item inp (u ''snapshot'')) (\<lambda>snapshot.
      bindE (verify_snapshot_trust C snapshot) (\<lambda>body.
      bindE (if py_eq (get body (u ''issuer'')) (get inp (u ''expected_issuer''))
             then snapshot_is_stale body policy now else Inr True) (\<lambda>absent.
      if absent then
        (if fail_mode = Fail_closed then raise ''TCT_REVOKED'' else Inr not_revoked_stale)
      else
        (let queried = get inp (u ''queried_jti'') in
         ensure (\<not> (queried \<noteq> PNone \<and> on_deny_list queried body)) (raise ''TCT_REVOKED'') (
           Inr not_revoked)))))))"

section \<open>Facts\<close>

lemma validate_entry_aitp [aitp_intros]: "aitp_or es (validate_entry e)"
  unfolding validate_entry_def by (intro aitp_intros)

lemma validate_shape_aitp [aitp_intros]: "aitp_or es (validate_shape s)"
  unfolding validate_shape_def Let_def by (intro aitp_intros)

lemma verify_snapshot_trust_aitp [aitp_intros]:
  "UnicodeError \<in> set es \<Longrightarrow> aitp_or es (verify_snapshot_trust C s)"
  unfolding verify_snapshot_trust_def
  by (auto intro!: aitp_intros aitp_or_catchE dest: parse_aid_err intro: verify_digest_aitp simp: ok_simps)

text \<open>The typed view of a snapshot body that passed the shape check.\<close>

definition entry_shaped :: "pyval \<Rightarrow> bool" where
  "entry_shaped e \<longleftrightarrow>
     (\<exists>d jti. e = PDict d \<and> get d (u ''jti'') = PStr jti \<and>
        (is_int (get d (u ''revoked_at'')) \<or> is_integral_float (get d (u ''revoked_at''))))"

definition body_shaped :: "dict \<Rightarrow> bool" where
  "body_shaped body \<longleftrightarrow>
     get body (u ''version'') = PStr PROTOCOL_VERSION \<and> is_str (get body (u ''issuer'')) \<and>
     (is_int (get body (u ''published_at'')) \<or> is_integral_float (get body (u ''published_at''))) \<and>
     (is_int (get body (u ''expires_at'')) \<or> is_integral_float (get body (u ''expires_at''))) \<and>
     (\<exists>es. get body (u ''entries'') = PList es \<and> (\<forall>e \<in> set es. entry_shaped e))"

lemma validate_entry_ok: "validate_entry e = Inr w \<Longrightarrow> entry_shaped e"
proof -
  assume "validate_entry e = Inr w"
  then obtain d where e: "e = PDict d" and req: "require_members REQUIRED_ENTRY_FIELDS SNAPSHOT_INVALID d = Inr ()"
    and tys: "check_types ENTRY_TYPES SNAPSHOT_INVALID d = Inr ()"
    by (auto simp: validate_entry_def bindE_ok ensure_raise_ok is_dict_iff)
  note m = typed_member [OF req tys, unfolded REQUIRED_ENTRY_FIELDS_def ENTRY_TYPES_def]
  show ?thesis
    using m [of "u ''jti''" "[TStr]"] m [of "u ''revoked_at''" "[TInt]"] e
    by (simp add: entry_shaped_def is_str_iff)
qed

lemma validate_shape_ok:
  assumes "validate_shape snapshot = Inr body"
  shows "\<exists>snap. snapshot = PDict snap \<and> get snap (u ''revocation_list'') = PDict body \<and>
           is_str (get snap (u ''signature'')) \<and> body_shaped body"
proof -
  obtain snap where snap: "snapshot = PDict snap" "is_str (get snap (u ''signature''))"
      "get snap (u ''revocation_list'') = PDict body"
    and req: "require_members REQUIRED_BODY_FIELDS SNAPSHOT_INVALID body = Inr ()"
    and tys: "check_types BODY_TYPES SNAPSHOT_INVALID body = Inr ()"
    and ver: "get body (u ''version'') = PStr PROTOCOL_VERSION"
    and entries: "eachE validate_entry (the_list (get body (u ''entries''))) = Inr ()"
    using assms unfolding validate_shape_def Let_def
    by (auto simp: bindE_ok ensure_raise_ok is_dict_iff)
  note m = typed_member [OF req tys, unfolded REQUIRED_BODY_FIELDS_def BODY_TYPES_def]
  have "is_str (get body (u ''issuer''))" "is_list (get body (u ''entries''))"
    "is_int (get body (u ''published_at'')) \<or> is_integral_float (get body (u ''published_at''))"
    "is_int (get body (u ''expires_at'')) \<or> is_integral_float (get body (u ''expires_at''))"
    using m [of "u ''issuer''" "[TStr]"] m [of "u ''entries''" "[TList]"] m [of "u ''published_at''" "[TInt]"]
      m [of "u ''expires_at''" "[TInt]"] by simp_all
  moreover have "\<forall>e \<in> set (the_list (get body (u ''entries''))). entry_shaped e"
    using entries validate_entry_ok by (auto simp: eachE_ok)
  ultimately have "body_shaped body"
    using ver by (auto simp: body_shaped_def is_list_iff)
  with snap show ?thesis by blast
qed

lemma integral_float_py_int: "is_integral_float v \<Longrightarrow> \<exists>i. py_int v = Inr i"
  by (cases v) (auto simp: int_of_float_def float_is_integer_def Let_def split: pyfloat.splits)

lemma int_value_py_int: "is_int v \<or> is_integral_float v \<Longrightarrow> \<exists>i. py_int v = Inr i"
  using integral_float_py_int by (auto simp: is_int_iff)

lemma py_int_caught: "py_int v = Inl e \<Longrightarrow> e = TypeError \<or> is_value_error e \<or> e = OverflowError"
  using py_int_err by fastforce

text \<open>On a body that passed the gates, freshness always has an answer.\<close>

lemma snapshot_is_stale_total:
  assumes "body_shaped body"
  shows "\<exists>b. snapshot_is_stale body policy now = Inr b"
proof -
  obtain x p where "py_int (get body (u ''expires_at'')) = Inr x" "py_int (get body (u ''published_at'')) = Inr p"
    using assms int_value_py_int [of "get body (u ''expires_at'')"] int_value_py_int [of "get body (u ''published_at'')"]
    unfolding body_shaped_def by blast
  then show ?thesis
    using py_int_caught by (fastforce simp: snapshot_is_stale_def Let_def split: sum.splits)
qed

lemma snapshot_is_stale_expiry:
  "snapshot_is_stale body policy now = Inr False \<Longrightarrow> \<exists>x. py_int (get body (u ''expires_at'')) = Inr x \<and> now < x"
  by (auto simp: snapshot_is_stale_def bindE_ok split: if_splits)

section \<open>Trusted snapshots\<close>

text \<open>
  What trust means: only the schema's members, an issuer AID, and that AID's signature over the
  canonical body.
\<close>

definition trusted_snapshot :: "crypto \<Rightarrow> pyval \<Rightarrow> dict \<Rightarrow> bool" where
  "trusted_snapshot C snapshot body \<longleftrightarrow>
     (\<exists>snap issuer a raw b. snapshot = PDict snap \<and> get snap (u ''revocation_list'') = PDict body \<and>
        body_shaped body \<and> (\<forall>k. has snap k \<longrightarrow> k \<in> set SNAPSHOT_FIELDS) \<and> (\<forall>k. has body k \<longrightarrow> k \<in> set BODY_FIELDS) \<and>
        (\<forall>e \<in> set (the_list (get body (u ''entries''))). \<forall>k. has (the_dict e) k \<longrightarrow> k \<in> set ENTRY_FIELDS) \<and>
        get body (u ''issuer'') = PStr issuer \<and> parse_aid C issuer = Inr a \<and>
        decode_tagged_signature (get snap (u ''signature'')) a ''REVOCATION_SNAPSHOT_SIGNATURE_INVALID'' = Inr raw \<and>
        canonicalize (PDict body) = Inr b \<and> verify_digest C (aid_key a) (sha256 b) raw = Inr True)"

lemma verify_snapshot_trust_body:
  assumes "verify_snapshot_trust C snapshot = Inr body"
  shows "trusted_snapshot C snapshot body"
proof -
  from assms have shape: "validate_shape snapshot = Inr body" by (auto simp: verify_snapshot_trust_def bindE_ok ensure_raise_ok)
  from validate_shape_ok [OF this] obtain snap issuer where snap: "snapshot = PDict snap"
      "get snap (u ''revocation_list'') = PDict body" "body_shaped body" and issuer: "get body (u ''issuer'') = PStr issuer"
    by (auto simp: body_shaped_def is_str_iff)
  from assms shape snap issuer show ?thesis
    unfolding verify_snapshot_trust_def trusted_snapshot_def
    by (auto simp: ok_simps body_shaped_def entry_shaped_def)
qed

lemma trusted_snapshot_shaped: "verify_snapshot_trust C snapshot = Inr body \<Longrightarrow> body_shaped body"
  by (drule verify_snapshot_trust_body) (auto simp: trusted_snapshot_def)

section \<open>Fail modes by permissiveness\<close>

text \<open>The order of RFC-AITP-0008: what a mode lets pass, every mode above it lets pass.\<close>

fun permissiveness :: "fail_mode \<Rightarrow> nat" where
  "permissiveness Fail_closed = 0"
| "permissiveness Soft_fail = 1"
| "permissiveness Fail_open = 2"

instantiation fail_mode :: linorder
begin

definition less_eq_fail_mode :: "fail_mode \<Rightarrow> fail_mode \<Rightarrow> bool" where
  "m \<le> n \<longleftrightarrow> permissiveness m \<le> permissiveness n"

definition less_fail_mode :: "fail_mode \<Rightarrow> fail_mode \<Rightarrow> bool" where
  "m < n \<longleftrightarrow> permissiveness m < permissiveness n"

instance
proof
  fix m n :: fail_mode
  show "m \<le> n \<Longrightarrow> n \<le> m \<Longrightarrow> m = n" by (cases m; cases n) (simp_all add: less_eq_fail_mode_def)
qed (auto simp: less_eq_fail_mode_def less_fail_mode_def)

end

lemma fail_closed_least [simp]: "Fail_closed \<le> m"
  by (simp add: less_eq_fail_mode_def)

lemma fail_closed_le: "m \<le> Fail_closed \<longleftrightarrow> m = Fail_closed"
  by (cases m) (simp_all add: less_eq_fail_mode_def)

text \<open>Two inputs that differ in their policy only, the second with a mode at least as permissive\<close>

definition policy_relaxed :: "dict \<Rightarrow> dict \<Rightarrow> bool" where
  "policy_relaxed inp inp' \<longleftrightarrow>
     policy_fail_mode inp \<le> policy_fail_mode inp' \<and>
     get (policy_of inp') (u ''max_staleness_secs'') = get (policy_of inp) (u ''max_staleness_secs'') \<and>
     (\<forall>k. k \<noteq> u ''policy'' \<longrightarrow> map_of inp' k = map_of inp k)"

lemma relaxed_get: "policy_relaxed inp inp' \<Longrightarrow> k \<noteq> u ''policy'' \<Longrightarrow> get inp' k = get inp k"
  and relaxed_item: "policy_relaxed inp inp' \<Longrightarrow> k \<noteq> u ''policy'' \<Longrightarrow> item inp' k = item inp k"
  by (simp_all add: policy_relaxed_def get_or_def item_def)

lemma relaxed_stale:
  assumes "policy_relaxed inp inp'"
  shows "snapshot_is_stale body (policy_of inp') now = snapshot_is_stale body (policy_of inp) now"
proof -
  have "get (policy_of inp') (u ''max_staleness_secs'') = get (policy_of inp) (u ''max_staleness_secs'')"
    using assms by (simp add: policy_relaxed_def)
  then show ?thesis by (simp only: snapshot_is_stale_def)
qed

section \<open>A sample snapshot\<close>

definition sample_body :: "dict list \<Rightarrow> dict" where
  "sample_body es =
     [(u ''entries'', PList (map PDict es)), (u ''expires_at'', PInt (REFERENCE_CLOCK + 3600)),
      (u ''issuer'', PStr sample_aid), (u ''published_at'', PInt REFERENCE_CLOCK), (u ''version'', PStr PROTOCOL_VERSION)]"

definition sample_snapshot :: "dict list \<Rightarrow> pyval" where
  "sample_snapshot es = PDict [(u ''revocation_list'', PDict (sample_body es)), (u ''signature'', PStr sample_sig)]"

definition sample_entry :: "ustr \<Rightarrow> dict" where
  "sample_entry jti = [(u ''jti'', PStr jti), (u ''revoked_at'', PInt 1)]"

lemma sample_body_canonical:
  assumes "\<forall>j \<in> set js. list_all scalar j" and "length js \<le> 100"
  shows "\<exists>b. canonicalize (PDict (sample_body (map sample_entry js))) = Inr b"
proof -
  have "sum_list (map ((nodes \<circ> PDict) \<circ> sample_entry) js) = 3 * length js"
    by (induction js) (auto simp: sample_entry_def)
  moreover have "foldr max (map (((\<lambda>x. Suc (nesting x)) \<circ> PDict) \<circ> sample_entry) js) 0 \<le> 2"
    by (induction js) (auto simp: sample_entry_def)
  ultimately show ?thesis
    using assms
    by (intro canonicalize_plain)
      (auto simp: sample_body_def sample_entry_def REFERENCE_CLOCK_def max_depth_def max_nodes_visited_def comp_assoc)
qed

lemma sample_snapshot_trusted [simp]:
  assumes "\<forall>j \<in> set js. list_all scalar j" and "length js \<le> 100"
  shows "verify_snapshot_trust sample_crypto (sample_snapshot (map sample_entry js)) =
    Inr (sample_body (map sample_entry js))"
proof -
  have entries: "eachE validate_entry (map PDict (map sample_entry js)) = Inr ()"
    "eachE (reject_unknown_fields ENTRY_FIELDS SNAPSHOT_INVALID) (map PDict (map sample_entry js)) = Inr ()"
    by (auto simp: eachE_ok validate_entry_def sample_entry_def require_members_def REQUIRED_ENTRY_FIELDS_def
        check_types_def ENTRY_TYPES_def type_ok_def reject_unknown_fields_def ENTRY_FIELDS_def)
  have "validate_shape (sample_snapshot (map sample_entry js)) = Inr (sample_body (map sample_entry js))"
    using entries(1)
    by (simp add: validate_shape_def sample_snapshot_def sample_body_def require_members_def SNAPSHOT_FIELDS_def
        REQUIRED_BODY_FIELDS_def check_types_def BODY_TYPES_def type_ok_def)
  then show ?thesis
    using entries(2) sample_body_canonical [OF assms]
    by (auto simp: verify_snapshot_trust_def sample_snapshot_def reject_unknown_fields_def SNAPSHOT_FIELDS_def
        BODY_FIELDS_def sample_body_def canonical_bytes_def)
qed

section \<open>Properties\<close>

text \<open>
  Obtained but untrustworthy is not absent: when the snapshot itself fails a check, the
  operation reports that failure, and no \<open>policy\<close> the caller can pass changes it.
\<close>

lemma untrusted_snapshot_ignores_policy:
  assumes "verify_snapshot_trust C snapshot = Inl e"
  shows "verify_revocation_snapshot C ((u ''policy'', policy) # (u ''snapshot'', snapshot) # inp) (Some now) = Inl e"
  using assms by (simp add: verify_revocation_snapshot_def Let_def)

lemma untrusted_snapshot_ignores_policy_witness:
  "verify_revocation_snapshot sample_crypto
     [(u ''policy'', PDict [(u ''fail_mode'', PStr (u ''fail_open''))]), (u ''snapshot'', PNone)] (Some 0) =
   raise ''REVOCATION_SNAPSHOT_INVALID''"
proof -
  have "verify_snapshot_trust sample_crypto PNone = Inl (AitpError ''REVOCATION_SNAPSHOT_INVALID'' False)"
    by (simp add: verify_snapshot_trust_def validate_shape_def SNAPSHOT_INVALID_def raise_def)
  from untrusted_snapshot_ignores_policy [OF this] show ?thesis by (simp add: raise_def)
qed

text \<open>
  C30. The verdict on a trusted snapshot, complete: if it is the expected issuer's and fresh, the
  deny list decides; otherwise its entries are not read and \<open>fail_mode\<close> decides, where every mode
  but \<open>fail_open\<close> and \<open>soft_fail\<close> means revoked.
\<close>

theorem trusted_snapshot_verdict:
  assumes "verify_snapshot_trust C (get inp (u ''snapshot'')) = Inr body" and "has inp (u ''snapshot'')"
  shows "\<exists>stale. snapshot_is_stale body (policy_of inp) now = Inr stale \<and>
    verify_revocation_snapshot C inp (Some now) =
      (if py_eq (get body (u ''issuer'')) (get inp (u ''expected_issuer'')) \<and> \<not> stale then
         (if get inp (u ''queried_jti'') \<noteq> PNone \<and> on_deny_list (get inp (u ''queried_jti'')) body
          then raise ''TCT_REVOKED'' else Inr not_revoked)
       else if get (policy_of inp) (u ''fail_mode'') \<in> {PStr (u ''fail_open''), PStr (u ''soft_fail'')}
         then Inr not_revoked_stale else raise ''TCT_REVOKED'')"
proof -
  obtain stale where stale: "snapshot_is_stale body (policy_of inp) now = Inr stale"
    using snapshot_is_stale_total [OF trusted_snapshot_shaped [OF assms(1)]] by blast
  have mode: "policy_fail_mode inp = Fail_closed \<longleftrightarrow>
      get (policy_of inp) (u ''fail_mode'') \<notin> {PStr (u ''fail_open''), PStr (u ''soft_fail'')}"
    by (cases "has (policy_of inp) (u ''fail_mode'')")
      (auto simp: policy_fail_mode_def resolve_fail_mode_def get_or_def has_def split: option.splits dest: map_of_SomeD)
  have "verify_revocation_snapshot C inp (Some now) =
      (if py_eq (get body (u ''issuer'')) (get inp (u ''expected_issuer'')) \<and> \<not> stale then
         (if get inp (u ''queried_jti'') \<noteq> PNone \<and> on_deny_list (get inp (u ''queried_jti'')) body
          then raise ''TCT_REVOKED'' else Inr not_revoked)
       else if policy_fail_mode inp = Fail_closed then raise ''TCT_REVOKED'' else Inr not_revoked_stale)"
    using assms stale by (auto simp: verify_revocation_snapshot_def Let_def has_item ensure_def)
  then show ?thesis using stale unfolding mode by auto
qed

lemma trusted_snapshot_verdict_witness:
  "verify_revocation_snapshot sample_crypto
     [(u ''snapshot'', sample_snapshot (map sample_entry [u ''j''])), (u ''expected_issuer'', PStr sample_aid),
      (u ''queried_jti'', PStr (u ''j''))] (Some REFERENCE_CLOCK) = raise ''TCT_REVOKED''"
proof -
  let ?inp = "[(u ''snapshot'', sample_snapshot (map sample_entry [u ''j''])), (u ''expected_issuer'', PStr sample_aid),
      (u ''queried_jti'', PStr (u ''j''))]"
  have "verify_snapshot_trust sample_crypto (get ?inp (u ''snapshot'')) = Inr (sample_body (map sample_entry [u ''j'']))"
    using sample_snapshot_trusted [of "[u ''j'']"] by simp
  from trusted_snapshot_verdict [OF this, of REFERENCE_CLOCK] show ?thesis
    by (auto simp: sample_body_def sample_entry_def snapshot_is_stale_def policy_of_def on_deny_list_def)
qed

end
