(* ===== verification/Spiffe.thy ===== *)
theory Spiffe
  imports Revocation
begin

text \<open>
  \<open>aitp_verifier/spiffe.py\<close>: the \<open>spiffe\<close> identity binding. A JWT-SVID is checked under
  the one bundle key its header names, an X509-SVID by validating \<open>x5c\<close> as a certification
  path to the bundle's CAs. What the \<open>cryptography\<close> package does (curves other than P-256,
  RSA padding, DER parsing, issuance signatures) is the parameter \<open>svid_api\<close>; a certificate is
  the attributes the package documents and the code reads.
\<close>

section \<open>Certificates and the package\<close>

datatype general_name = Uri_name ustr | Other_name

datatype extension_value =
    Basic_constraints bool "nat option"
  | Key_usage bool bool bool
  | Subject_alt_name "general_name list"
  | Extended_key_usage
  | Name_constraints "general_name list option" "general_name list option"
  | Other_extension

text \<open>\<open>Key_usage\<close> holds \<open>digital_signature\<close>, \<open>key_cert_sign\<close> and \<open>crl_sign\<close>.\<close>

record certificate =
  cert_v3 :: bool
  not_valid_before :: int
  not_valid_after :: int
  cert_extensions :: "(bool \<times> extension_value) list res"
  cert_public_key :: "key_object option res"

record svid_api =
  ec_accepts :: "ustr \<Rightarrow> point \<Rightarrow> bool"
  ec_verify :: "ustr \<Rightarrow> point \<Rightarrow> ustr \<Rightarrow> bytes \<Rightarrow> bytes \<Rightarrow> bool"
  rsa_pkcs1_verify :: "nat \<Rightarrow> nat \<Rightarrow> ustr \<Rightarrow> bytes \<Rightarrow> bytes \<Rightarrow> bool"
  rsa_pss_verify :: "nat \<Rightarrow> nat \<Rightarrow> ustr \<Rightarrow> bytes \<Rightarrow> bytes \<Rightarrow> bool"
  load_der :: "bytes \<Rightarrow> certificate option"
  issued_by :: "certificate \<Rightarrow> certificate \<Rightarrow> bool"

abbreviation identity_failed :: "'a res" where
  "identity_failed \<equiv> raise ''IDENTITY_FAILED''"

section \<open>SPIFFE IDs\<close>

definition SVID_TYPES :: "ustr list" where
  "SVID_TYPES = map u [''jwt-svid'', ''x509-svid'']"

definition MAX_ID_BYTES :: nat where
  "MAX_ID_BYTES = 2048"

definition MAX_TRUST_DOMAIN_BYTES :: nat where
  "MAX_TRUST_DOMAIN_BYTES = 255"

definition is_lower :: "nat \<Rightarrow> bool" where
  "is_lower c \<longleftrightarrow> 97 \<le> c \<and> c \<le> 122"

definition is_upper :: "nat \<Rightarrow> bool" where
  "is_upper c \<longleftrightarrow> 65 \<le> c \<and> c \<le> 90"

text \<open>\<open>_TRUST_DOMAIN.fullmatch\<close> and \<open>_PATH_SEGMENT.fullmatch\<close>\<close>

definition trust_domain_text :: "ustr \<Rightarrow> bool" where
  "trust_domain_text s \<longleftrightarrow>
     s \<noteq> [] \<and> list_all (\<lambda>c. is_lower c \<or> is_digit c \<or> c \<in> {46, 95, 45}) s"

definition path_segment_text :: "ustr \<Rightarrow> bool" where
  "path_segment_text s \<longleftrightarrow>
     s \<noteq> [] \<and> list_all (\<lambda>c. is_lower c \<or> is_upper c \<or> is_digit c \<or> c \<in> {46, 95, 45}) s"

definition parse_spiffe_id :: "pyval \<Rightarrow> (ustr \<times> ustr) res" where
  "parse_spiffe_id v =
     (case v of
        PStr s \<Rightarrow>
          bindE (utf8_encode s) (\<lambda>b.
          ensure (length b \<le> MAX_ID_BYTES) identity_failed (
          case strip_prefix (u ''spiffe://'') s of
            None \<Rightarrow> identity_failed
          | Some rest \<Rightarrow>
              (let (trust_domain, path) = (if 47 \<in> set rest then partition_at 47 rest else (rest, [])) in
               ensure (length trust_domain \<le> MAX_TRUST_DOMAIN_BYTES \<and> trust_domain_text trust_domain)
                 identity_failed (
               ensure (47 \<in> set rest) identity_failed (
               ensure (list_all (\<lambda>seg. seg \<notin> {[], [46], [46, 46]} \<and> path_segment_text seg) (split_on 47 path))
                 identity_failed (Inr (trust_domain, 47 # path)))))))
      | _ \<Rightarrow> identity_failed)"

section \<open>The bundle of a trust domain\<close>

fun bundle_loop :: "ustr \<Rightarrow> pyval list \<Rightarrow> ustr list \<Rightarrow> pyval \<Rightarrow> pyval res" where
  "bundle_loop trust_domain [] seen found = Inr found"
| "bundle_loop trust_domain (e # es) seen found =
     (case (if is_dict e then get (the_dict e) (u ''trust_domain'') else PNone) of
        PStr td \<Rightarrow>
          ensure (td \<notin> set seen) identity_failed (
            bundle_loop trust_domain es (td # seen)
              (if td = trust_domain then get (the_dict e) (u ''bundle'') else found))
      | _ \<Rightarrow> identity_failed)"

definition bundle_for :: "pyval \<Rightarrow> ustr \<Rightarrow> pyval res" where
  "bundle_for store trust_domain =
     ensure (is_list store) identity_failed (
     bindE (bundle_loop trust_domain (the_list store) [] PNone) (\<lambda>found.
     ensure (found \<noteq> PNone) identity_failed (Inr found)))"

section \<open>JWT-SVID\<close>

definition JWT_SVID_ALGS :: "ustr list" where
  "JWT_SVID_ALGS =
     map u [''RS256'', ''RS384'', ''RS512'', ''PS256'', ''PS384'', ''PS512'', ''ES256'', ''ES384'', ''ES512'']"

definition es_curve :: "ustr \<Rightarrow> (ustr \<times> nat) res" where
  "es_curve alg =
     (if alg = u ''ES256'' then Inr (u ''P-256'', 32)
      else if alg = u ''ES384'' then Inr (u ''P-384'', 48)
      else if alg = u ''ES512'' then Inr (u ''P-521'', 66)
      else Inl KeyError)"

definition JWT_SVID_HEADER :: "ustr list" where
  "JWT_SVID_HEADER = map u [''alg'', ''kid'', ''typ'']"

definition IAT_TOLERANCE_SECS :: int where
  "IAT_TOLERANCE_SECS = 300"

definition verify_jwt_svid_signature ::
  "crypto \<Rightarrow> svid_api \<Rightarrow> dict \<Rightarrow> ustr \<Rightarrow> bytes \<Rightarrow> bytes \<Rightarrow> bool res" where
  "verify_jwt_svid_signature C V jwk alg msg sig =
     (let digest = drop 2 alg; kty = get jwk (u ''kty'') in
      ensure (\<not> (has jwk (u ''alg'') \<and> get jwk (u ''alg'') \<noteq> PStr alg)) identity_failed (
      if take 2 alg = u ''ES'' then
        bindE (es_curve alg) (\<lambda>(crv_name, size).
        ensure (kty = PStr (u ''EC'') \<and> get jwk (u ''crv'') = PStr crv_name) identity_failed (
        bindE (decode_jwk_member jwk (u ''x'')) (\<lambda>x.
        bindE (decode_jwk_member jwk (u ''y'')) (\<lambda>y.
        ensure (length x = size \<and> length y = size) identity_failed (
        let q = (from_bytes x, from_bytes y) in
        ensure (ec_accepts V crv_name q) (Inl ValueError) (
          if length sig \<noteq> 2 * size then Inr False
          else Inr (ec_verify V crv_name q digest
                      (dss_encode C (from_bytes (take size sig)) (from_bytes (drop size sig))) msg)))))))
      else
        ensure (kty = PStr (u ''RSA'')) identity_failed (
        bindE (decode_jwk_member jwk (u ''n'')) (\<lambda>n.
        bindE (decode_jwk_member jwk (u ''e'')) (\<lambda>e.
        bindE (from_rsa_numbers C n e) (\<lambda>pk.
          case pk_key pk of
            Rsa_key ei ni \<Rightarrow>
              Inr (if take 2 alg = u ''RS'' then rsa_pkcs1_verify V ei ni digest sig msg
                   else rsa_pss_verify V ei ni digest sig msg)
          | _ \<Rightarrow> Inl AssertionError))))))"

text \<open>\<open>envelope["sender"]["agent_id"]\<close> and \<open>envelope.get("payload", {}).get("pop_nonce")\<close>\<close>

definition agent_id_of :: "dict \<Rightarrow> pyval res" where
  "agent_id_of env = bindE (item env (u ''sender'')) (\<lambda>s. subscript s (u ''agent_id''))"

definition pop_nonce_of :: "dict \<Rightarrow> pyval res" where
  "pop_nonce_of env = dict_get (get_or (PDict []) env (u ''payload'')) (u ''pop_nonce'')"

definition parse_agent :: "crypto \<Rightarrow> dict \<Rightarrow> aid res" where
  "parse_agent C env = bindE (agent_id_of env) (parse_aid_value C)"

text \<open>The key named by \<open>cnf.jkt\<close> is the sender's.\<close>

definition jkt_of :: "dict \<Rightarrow> pyval" where
  "jkt_of cl =
     (let cnf = get cl (u ''cnf'') in if is_dict cnf then get (the_dict cnf) (u ''jkt'') else PNone)"

definition check_exp_iat :: "dict \<Rightarrow> int \<Rightarrow> unit res" where
  "check_exp_iat cl now =
     (let exp = get cl (u ''exp''); iat = get cl (u ''iat'') in
      ensure (is_int exp \<and> now < the_int exp) identity_failed (
      ensure (is_int iat \<and> \<bar>now - the_int iat\<bar> \<le> IAT_TOLERANCE_SECS) identity_failed (Inr ())))"

definition check_nonce_binding :: "dict \<Rightarrow> dict \<Rightarrow> unit res" where
  "check_nonce_binding cl env =
     bindE (pop_nonce_of env) (\<lambda>pop_nonce.
     let nonce = get cl (u ''nonce'') in
     ensure (nonce \<noteq> PNone \<and> pop_nonce \<noteq> PNone \<and> py_eq nonce pop_nonce) identity_failed (Inr ()))"

definition check_key_binding :: "crypto \<Rightarrow> dict \<Rightarrow> dict \<Rightarrow> unit res" where
  "check_key_binding C cl env =
     bindE (parse_agent C env) (\<lambda>a.
     bindE (thumbprint a) (\<lambda>jkt.
     ensure (jkt_of cl = PStr jkt) identity_failed (Inr ())))"

definition verify_jwt_svid ::
  "crypto \<Rightarrow> svid_api \<Rightarrow> dict \<Rightarrow> dict \<Rightarrow> pyval \<Rightarrow> dict list \<Rightarrow> int \<Rightarrow> unit res" where
  "verify_jwt_svid C V identity env self_aid candidates now =
     bindE (parse_compact (get_or (PStr []) identity (u ''proof'')) ''IDENTITY_FAILED'') (\<lambda>parsed.
     ensure (fst ` set (header parsed) \<subseteq> set JWT_SVID_HEADER) identity_failed (
     bindE (in_str_set (get (header parsed) (u ''alg'')) JWT_SVID_ALGS) (\<lambda>alg_ok.
     ensure alg_ok identity_failed (
     ensure (has (header parsed) (u ''typ'') \<longrightarrow>
             get (header parsed) (u ''typ'') \<in> {PStr (u ''JWT''), PStr (u ''JOSE'')}) identity_failed (
     let alg = the_str (get (header parsed) (u ''alg'')); kid = get (header parsed) (u ''kid'') in
     ensure (is_str kid) identity_failed (
     let matches = filter (\<lambda>k. get k (u ''kid'') = kid) candidates in
     ensure (length matches = 1) identity_failed (
     bindE (verify_jwt_svid_signature C V (hd matches) alg (signing_input parsed) (signature parsed)) (\<lambda>good.
     ensure good identity_failed (
     let cl = claims parsed in
     bindE (item identity (u ''subject'')) (\<lambda>subject.
     ensure (py_eq (get cl (u ''sub'')) subject) identity_failed (
     let aud = (case get cl (u ''aud'') of PList [a] \<Rightarrow> a | a \<Rightarrow> a) in
     ensure (is_str aud) identity_failed (
     ensure (truthy self_aid \<and> aud = self_aid) identity_failed (
     bindE (check_exp_iat cl now) (\<lambda>_.
     bindE (check_nonce_binding cl env) (\<lambda>_.
       check_key_binding C cl env)))))))))))))))"

section \<open>X509-SVID\<close>

definition MAX_CHAIN :: nat where
  "MAX_CHAIN = 8"

text \<open>\<open>_STD_B64.fullmatch\<close> with the length rule, and the strict standard decoder on such a text.\<close>

definition std_b64_char :: "nat \<Rightarrow> bool" where
  "std_b64_char c \<longleftrightarrow> is_lower c \<or> is_upper c \<or> is_digit c \<or> c = 43 \<or> c = 47"

definition std_b64_body :: "ustr \<Rightarrow> ustr" where
  "std_b64_body s = takeWhile std_b64_char s"

definition std_b64_text :: "ustr \<Rightarrow> bool" where
  "std_b64_text s \<longleftrightarrow>
     (let pad = dropWhile std_b64_char s in list_all (\<lambda>c. c = 61) pad \<and> length pad \<le> 2) \<and> length s mod 4 = 0"

definition std_b64_decode :: "ustr \<Rightarrow> bytes res" where
  "std_b64_decode s =
     b64url_decode (map (\<lambda>c. if c = 43 then 45 else if c = 47 then 95 else c) (std_b64_body s))"

definition der :: "svid_api \<Rightarrow> pyval \<Rightarrow> certificate res" where
  "der V e =
     ensure (is_str e \<and> std_b64_text (the_str e)) identity_failed (
     bindE (catchE (\<lambda>x. x = BinasciiError) (std_b64_decode (the_str e)) (\<lambda>_. identity_failed)) (\<lambda>bs.
       case load_der V bs of None \<Rightarrow> identity_failed | Some c \<Rightarrow> Inr c))"

definition anchors :: "svid_api \<Rightarrow> dict list \<Rightarrow> certificate list res" where
  "anchors V candidates =
     mapE (\<lambda>jwk. let x5c = get jwk (u ''x5c'') in
       ensure (is_list x5c \<and> length (the_list x5c) = 1) identity_failed (der V (hd (the_list x5c)))) candidates"

text \<open>\<open>_ext\<close>, one look-up for each extension the code asks for.\<close>

fun first_some :: "('a \<Rightarrow> 'b option) \<Rightarrow> 'a list \<Rightarrow> 'b option" where
  "first_some f [] = None"
| "first_some f (x # xs) = (case f x of None \<Rightarrow> first_some f xs | Some y \<Rightarrow> Some y)"

definition ext :: "(extension_value \<Rightarrow> 'a option) \<Rightarrow> certificate \<Rightarrow> 'a option res" where
  "ext f cert = bindE (cert_extensions cert) (\<lambda>xs. Inr (first_some (f \<circ> snd) xs))"

fun basic_constraints :: "extension_value \<Rightarrow> (bool \<times> nat option) option" where
  "basic_constraints (Basic_constraints ca n) = Some (ca, n)"
| "basic_constraints _ = None"

fun key_usage :: "extension_value \<Rightarrow> (bool \<times> bool \<times> bool) option" where
  "key_usage (Key_usage ds cs crl) = Some (ds, cs, crl)"
| "key_usage _ = None"

fun subject_alt_name :: "extension_value \<Rightarrow> general_name list option" where
  "subject_alt_name (Subject_alt_name ns) = Some ns"
| "subject_alt_name _ = None"

fun name_constraints :: "extension_value \<Rightarrow> (general_name list option \<times> general_name list option) option" where
  "name_constraints (Name_constraints p e) = Some (p, e)"
| "name_constraints _ = None"

fun processed_critical :: "extension_value \<Rightarrow> bool" where
  "processed_critical Other_extension = False"
| "processed_critical _ = True"

definition in_validity :: "certificate \<Rightarrow> int \<Rightarrow> unit res" where
  "in_validity cert when =
     ensure (not_valid_before cert \<le> when \<and> when \<le> not_valid_after cert) identity_failed (Inr ())"

definition check_critical :: "certificate \<Rightarrow> unit res" where
  "check_critical cert =
     bindE (cert_extensions cert) (\<lambda>xs.
     ensure (list_all (\<lambda>(critical, e). \<not> (critical \<and> \<not> processed_critical e)) xs) identity_failed (Inr ()))"

definition check_ca :: "certificate \<Rightarrow> nat \<Rightarrow> unit res" where
  "check_ca cert below =
     bindE (ext basic_constraints cert) (\<lambda>bc.
     case bc of
       None \<Rightarrow> identity_failed
     | Some (ca, path_length) \<Rightarrow>
         ensure ca identity_failed (
         ensure (case path_length of None \<Rightarrow> True | Some n \<Rightarrow> below \<le> n) identity_failed (
         bindE (ext key_usage cert) (\<lambda>ku.
         case ku of
           None \<Rightarrow> identity_failed
         | Some (ds, key_cert_sign, crl) \<Rightarrow> ensure key_cert_sign identity_failed (Inr ())))))"

definition uri_host_matches :: "ustr \<Rightarrow> ustr \<Rightarrow> bool" where
  "uri_host_matches host con =
     (if take 1 con = [46] then drop (length host - length con) host = con else host = con)"

fun uri_of :: "general_name \<Rightarrow> ustr" where
  "uri_of (Uri_name s) = s"
| "uri_of Other_name = []"

definition opt_list :: "'a list option \<Rightarrow> 'a list" where
  "opt_list x = (case x of None \<Rightarrow> [] | Some xs \<Rightarrow> xs)"

definition check_name_constraints :: "certificate \<Rightarrow> ustr \<Rightarrow> unit res" where
  "check_name_constraints cert trust_domain =
     bindE (ext name_constraints cert) (\<lambda>nc.
     case nc of
       None \<Rightarrow> Inr ()
     | Some (permitted, excluded) \<Rightarrow>
         ensure (Other_name \<notin> set (opt_list permitted @ opt_list excluded)) identity_failed (
         ensure (permitted \<noteq> None \<longrightarrow> list_ex (\<lambda>n. uri_host_matches trust_domain (uri_of n)) (opt_list permitted))
           identity_failed (
         ensure (\<not> list_ex (\<lambda>n. uri_host_matches trust_domain (uri_of n)) (opt_list excluded))
           identity_failed (Inr ()))))"

definition leaf_key_of :: "certificate \<Rightarrow> public_key res" where
  "leaf_key_of leaf =
     bindE (cert_public_key leaf) (\<lambda>k.
       case k of
         Some (Ed_key b) \<Rightarrow> Inr \<lparr>pk_alg = ALG_ED25519, pk_key = Ed_key b\<rparr>
       | Some (P256_key q) \<Rightarrow> Inr \<lparr>pk_alg = ALG_P256, pk_key = P256_key q\<rparr>
       | _ \<Rightarrow> identity_failed)"

text \<open>The loop over the chain: \<open>i\<close> certificates are below the current one.\<close>

fun check_path :: "svid_api \<Rightarrow> ustr \<Rightarrow> int \<Rightarrow> nat \<Rightarrow> certificate list \<Rightarrow> unit res" where
  "check_path V trust_domain when i [] = Inr ()"
| "check_path V trust_domain when i (cert # rest) =
     ensure (cert_v3 cert) identity_failed (
     bindE (in_validity cert when) (\<lambda>_.
     bindE (check_critical cert) (\<lambda>_.
     bindE (if 0 < i then bindE (check_ca cert (i - 1)) (\<lambda>_. check_name_constraints cert trust_domain)
            else Inr ()) (\<lambda>_.
     ensure (rest = [] \<or> issued_by V cert (hd rest)) identity_failed (
       check_path V trust_domain when (Suc i) rest)))))"

text \<open>\<open>datetime.fromtimestamp(now, tz=timezone.utc)\<close> exists for the years 1 to 9999.\<close>

definition fromtimestamp :: "int \<Rightarrow> int res" where
  "fromtimestamp now = ensure (-62135596800 \<le> now \<and> now \<le> 253402300799) (Inl ValueError) (Inr now)"

text \<open>The five-field proof input of a message, with the type errors of its members.\<close>

definition message_proof_input :: "bytes \<Rightarrow> dict \<Rightarrow> pyval \<Rightarrow> bytes res" where
  "message_proof_input domain env self_aid =
     bindE (agent_id_of env) (\<lambda>sender.
     bindE (item env (u ''message_id'')) (\<lambda>message_id.
     bindE (item env (u ''timestamp'')) (\<lambda>timestamp.
     bindE (item env (u ''payload'')) (\<lambda>payload.
     bindE (subscript payload (u ''pop_nonce'')) (\<lambda>nonce.
     bindE (str_of sender) (\<lambda>s.
     bindE (str_of self_aid) (\<lambda>r.
     bindE (str_of message_id) (\<lambda>m.
     ensure (is_str nonce) (Inl TypeError) (
       handshake_proof_input domain s r m timestamp (the_str nonce))))))))))"

definition verify_x509_svid ::
  "crypto \<Rightarrow> svid_api \<Rightarrow> dict \<Rightarrow> dict \<Rightarrow> pyval \<Rightarrow> dict list \<Rightarrow> int \<Rightarrow> unit res" where
  "verify_x509_svid C V identity env self_aid candidates now =
     bindE (item identity (u ''x5c'')) (\<lambda>x5c.
     ensure (is_list x5c \<and> the_list x5c \<noteq> []) identity_failed (
     ensure (length (the_list x5c) \<le> MAX_CHAIN) identity_failed (
     bindE (mapE (der V) (the_list x5c)) (\<lambda>chain.
     bindE (anchors V candidates) (\<lambda>ancs.
     let leaf = hd chain in
     bindE (item identity (u ''subject'')) (\<lambda>subject.
     bindE (parse_spiffe_id subject) (\<lambda>(trust_domain, path).
     bindE (fromtimestamp now) (\<lambda>when.
     bindE (ext subject_alt_name leaf) (\<lambda>san.
     let uris = filter (\<lambda>n. n \<noteq> Other_name) (opt_list san) in
     ensure (length uris = 1) identity_failed (
     ensure (PStr (uri_of (hd uris)) = subject) identity_failed (
     bindE (ext basic_constraints leaf) (\<lambda>bc.
     ensure (case bc of None \<Rightarrow> False | Some (ca, n) \<Rightarrow> \<not> ca) identity_failed (
     bindE (ext key_usage leaf) (\<lambda>ku.
     ensure (case ku of None \<Rightarrow> False | Some (ds, cs, crl) \<Rightarrow> ds \<and> \<not> cs \<and> \<not> crl) identity_failed (
     bindE (leaf_key_of leaf) (\<lambda>leaf_key.
     bindE (check_path V trust_domain when 0 chain) (\<lambda>_.
     case List.find (issued_by V (last chain)) ancs of
       None \<Rightarrow> identity_failed
     | Some anchor \<Rightarrow>
         bindE (in_validity anchor when) (\<lambda>_.
         bindE (check_ca anchor (length chain - 1)) (\<lambda>_.
         bindE (check_name_constraints anchor trust_domain) (\<lambda>_.
         bindE (message_proof_input SPIFFE_X509_DOMAIN env self_aid) (\<lambda>inp.
         bindE (decode_tagged_signature_for (get identity (u ''proof'')) (pk_alg leaf_key) ''IDENTITY_FAILED'') (\<lambda>sig.
         bindE (verify_digest C leaf_key (sha256 inp) sig) (\<lambda>good.
           ensure good identity_failed (Inr ()))))))))))))))))))))))))"

section \<open>The binding\<close>

definition verify_spiffe_body ::
  "crypto \<Rightarrow> svid_api \<Rightarrow> dict \<Rightarrow> dict \<Rightarrow> pyval \<Rightarrow> pyval \<Rightarrow> int \<Rightarrow> unit res" where
  "verify_spiffe_body C V identity env self_aid store now =
     ensure (\<not> has identity (u ''issuer'') \<and> \<not> has identity (u ''public_key'')) identity_failed (
     let svid_type = get identity (u ''svid_type'') in
     bindE (in_str_set svid_type SVID_TYPES) (\<lambda>known.
     ensure known identity_failed (
     ensure ((svid_type = PStr (u ''x509-svid'')) = has identity (u ''x5c'')) identity_failed (
     bindE (parse_spiffe_id (get identity (u ''subject''))) (\<lambda>(trust_domain, path).
     bindE (bundle_for store trust_domain) (\<lambda>bundle.
     let keys = (if is_dict bundle then get (the_dict bundle) (u ''keys'') else PNone) in
     ensure (is_list keys) identity_failed (
     let candidates = map the_dict
           (filter (\<lambda>k. is_dict k \<and> get (the_dict k) (u ''use'') = svid_type) (the_list keys)) in
     ensure (candidates \<noteq> []) identity_failed (
     if svid_type = PStr (u ''jwt-svid'') then verify_jwt_svid C V identity env self_aid candidates now
     else verify_x509_svid C V identity env self_aid candidates now))))))))"

text \<open>The exceptions \<open>verify_spiffe\<close> turns into \<open>IDENTITY_FAILED\<close>\<close>

definition spiffe_caught :: "exn \<Rightarrow> bool" where
  "spiffe_caught e \<longleftrightarrow>
     e = TypeError \<or> is_value_error e \<or> e = KeyError \<or> e = AttributeError \<or> e = OverflowError \<or>
     e = UnsupportedAlgorithm"

definition verify_spiffe ::
  "crypto \<Rightarrow> svid_api \<Rightarrow> dict \<Rightarrow> dict \<Rightarrow> pyval \<Rightarrow> pyval \<Rightarrow> int \<Rightarrow> unit res" where
  "verify_spiffe C V identity env self_aid store now =
     catchE spiffe_caught (verify_spiffe_body C V identity env self_aid store now) (\<lambda>_. identity_failed)"


section \<open>Errors\<close>

text \<open>
  What can leave the body: \<open>IDENTITY_FAILED\<close>, an exception \<open>verify_spiffe\<close> catches, or the
  package's \<open>DuplicateExtension\<close>, which it does not. \<open>documented_certs\<close> is what the package
  documents of reading a certificate's extensions and key.
\<close>

definition spiffe_err :: "exn \<Rightarrow> bool" where
  "spiffe_err e \<longleftrightarrow> e = AitpError ''IDENTITY_FAILED'' False \<or> spiffe_caught e \<or> e = DuplicateExtension"

definition documented_certs :: "svid_api \<Rightarrow> bool" where
  "documented_certs V \<longleftrightarrow>
     (\<forall>b c. load_der V b = Some c \<longrightarrow>
        fails_in (\<lambda>e. e = DuplicateExtension \<or> is_value_error e) (cert_extensions c) \<and>
        fails_in (\<lambda>e. e = UnsupportedAlgorithm \<or> is_value_error e) (cert_public_key c))"

definition documented_cert :: "certificate \<Rightarrow> bool" where
  "documented_cert c \<longleftrightarrow>
     fails_in (\<lambda>e. e = DuplicateExtension \<or> is_value_error e) (cert_extensions c) \<and>
     fails_in (\<lambda>e. e = UnsupportedAlgorithm \<or> is_value_error e) (cert_public_key c)"

lemma spiffe_err_simps [simp]:
  "spiffe_err (AitpError c r) \<longleftrightarrow> c = ''IDENTITY_FAILED'' \<and> \<not> r"
  "spiffe_err TypeError" "spiffe_err KeyError" "spiffe_err AttributeError" "spiffe_err ValueError" "spiffe_err OverflowError"
  by (auto simp: spiffe_err_def spiffe_caught_def)

lemma spiffe_err_value: "is_value_error e \<Longrightarrow> spiffe_err e"
  by (simp add: spiffe_err_def spiffe_caught_def)

named_theorems spiffe_fails \<open>the operations of this theory fail only with \<open>spiffe_err\<close>\<close>

lemma spiffe_item [spiffe_fails]: "fails_in spiffe_err (item d k)"
  by (auto simp: item_def split: option.split)

lemma spiffe_subscript [spiffe_fails]: "fails_in spiffe_err (subscript v k)"
  by (auto simp: subscript_def spiffe_item split: pyval.split)

lemma spiffe_dict_get [spiffe_fails]: "fails_in spiffe_err (dict_get v k)"
  by (auto simp: dict_get_def split: pyval.split)

lemma spiffe_str_of [spiffe_fails]: "fails_in spiffe_err (str_of v)"
  by (auto simp: str_of_def split: pyval.split)

lemma spiffe_in_str_set [spiffe_fails]: "fails_in spiffe_err (in_str_set v xs)"
  by (auto simp: in_str_set_def intro!: fails_intros)

lemma spiffe_parse_compact [spiffe_fails]: "fails_in spiffe_err (parse_compact token ''IDENTITY_FAILED'')"
  by (rule fails_inI) (auto dest: parse_compact_err)

lemma spiffe_decode_jwk_member [spiffe_fails]: "fails_in spiffe_err (decode_jwk_member d m)"
  by (rule fails_inI) (metis decode_jwk_member_err spiffe_err_value)

lemma spiffe_rsa [spiffe_fails]: "fails_in spiffe_err (from_rsa_numbers C n e)"
  by (rule fails_inI) (auto dest: from_rsa_numbers_err)

lemma spiffe_parse_id [spiffe_fails]: "fails_in spiffe_err (parse_spiffe_id v)"
  unfolding parse_spiffe_id_def Let_def
  by (auto intro!: fails_intros split: pyval.split option.split prod.split simp: utf8_encode_def spiffe_err_value)

lemma spiffe_bundle_for [spiffe_fails]: "fails_in spiffe_err (bundle_for store td)"
proof -
  have "fails_in spiffe_err (bundle_loop td es seen found)" for es seen found
    by (induction td es seen found rule: bundle_loop.induct) (auto intro!: fails_intros split: pyval.split)
  then show ?thesis by (auto simp: bundle_for_def intro!: fails_intros)
qed

lemma spiffe_jwt_signature [spiffe_fails]: "fails_in spiffe_err (verify_jwt_svid_signature C V jwk alg msg sig)"
proof -
  have rsa: "fails_in spiffe_err
       (case pk_key pk of Rsa_key ei ni \<Rightarrow> Inr (f ei ni) | _ \<Rightarrow> Inl AssertionError)"
    if "from_rsa_numbers C n e = Inr pk" for pk n e and f :: "nat \<Rightarrow> nat \<Rightarrow> bool"
    using from_rsa_numbers_wf [OF that] by (auto simp: key_wf_def split: key_object.splits)
  show ?thesis
    unfolding verify_jwt_svid_signature_def Let_def
    by (auto intro!: fails_intros spiffe_fails rsa simp: es_curve_def split: prod.split)
qed

lemma spiffe_parse_aid [spiffe_fails]: "fails_in spiffe_err (parse_aid C s)"
  by (rule fails_inI) (blast dest: parse_aid_err spiffe_err_value)

lemma spiffe_parse_agent [spiffe_fails]: "fails_in spiffe_err (parse_agent C env)"
  unfolding parse_agent_def agent_id_of_def parse_aid_value_def
  by (intro fails_intros spiffe_fails) (simp add: spiffe_parse_aid split: pyval.split)

lemma parse_agent_ok:
  "parse_agent C env = Inr a \<longleftrightarrow> (\<exists>s. agent_id_of env = Inr (PStr s) \<and> parse_aid C s = Inr a)"
proof -
  have "parse_aid_value C v = Inr a \<longleftrightarrow> (\<exists>s. v = PStr s \<and> parse_aid C s = Inr a)" for v
    by (cases v) (auto simp: parse_aid_value_def)
  then show ?thesis by (auto simp: parse_agent_def ok_simps)
qed

lemma spiffe_key_binding [spiffe_fails]: "points_in_range C \<Longrightarrow> fails_in spiffe_err (check_key_binding C cl env)"
  unfolding check_key_binding_def
  by (intro fails_intros spiffe_fails) (auto simp: parse_agent_ok dest: thumbprint_total)

lemma spiffe_nonce_binding [spiffe_fails]: "fails_in spiffe_err (check_nonce_binding cl env)"
  unfolding check_nonce_binding_def pop_nonce_of_def Let_def by (intro fails_intros spiffe_fails) simp_all

lemma spiffe_exp_iat [spiffe_fails]: "fails_in spiffe_err (check_exp_iat cl now)"
  unfolding check_exp_iat_def Let_def by (intro fails_intros) simp_all

lemma spiffe_jwt_svid [spiffe_fails]:
  "points_in_range C \<Longrightarrow> fails_in spiffe_err (verify_jwt_svid C V identity env self cands now)"
  unfolding verify_jwt_svid_def Let_def
  by (intro fails_intros spiffe_fails) simp_all

section \<open>Errors of the certification path\<close>

lemma spiffe_ext: "documented_cert c \<Longrightarrow> fails_in spiffe_err (ext f c)"
  unfolding ext_def documented_cert_def
  by (auto intro!: fails_intros intro: fails_in_weaken simp: spiffe_err_def spiffe_caught_def)

lemma spiffe_in_validity [spiffe_fails]: "fails_in spiffe_err (in_validity c when)"
  unfolding in_validity_def by (intro fails_intros) simp

lemma spiffe_check_critical: "documented_cert c \<Longrightarrow> fails_in spiffe_err (check_critical c)"
  unfolding check_critical_def documented_cert_def
  by (auto intro!: fails_intros intro: fails_in_weaken simp: spiffe_err_def spiffe_caught_def)

lemma spiffe_check_ca: "documented_cert c \<Longrightarrow> fails_in spiffe_err (check_ca c n)"
  unfolding check_ca_def
  by (auto intro!: fails_intros spiffe_ext split: option.split)

lemma spiffe_name_constraints: "documented_cert c \<Longrightarrow> fails_in spiffe_err (check_name_constraints c td)"
  unfolding check_name_constraints_def
  by (auto intro!: fails_intros spiffe_ext split: option.split)

lemma spiffe_leaf_key: "documented_cert c \<Longrightarrow> fails_in spiffe_err (leaf_key_of c)"
  unfolding leaf_key_of_def documented_cert_def
  by (auto intro!: fails_intros intro: fails_in_weaken simp: spiffe_err_def spiffe_caught_def
      split: option.split key_object.split)

lemma spiffe_check_path:
  "\<forall>c \<in> set chain. documented_cert c \<Longrightarrow> fails_in spiffe_err (check_path V td t i chain)"
  by (induction V td t i chain rule: check_path.induct)
    (auto intro!: fails_intros spiffe_fails spiffe_check_critical spiffe_check_ca spiffe_name_constraints)

lemma der_documented: "documented_certs V \<Longrightarrow> der V e = Inr c \<Longrightarrow> documented_cert c"
  by (auto simp: der_def ok_simps documented_certs_def documented_cert_def split: option.splits)

lemma spiffe_der [spiffe_fails]: "fails_in spiffe_err (der V e)"
proof -
  have "fails_in (\<lambda>x. x = BinasciiError \<or> spiffe_err x) (std_b64_decode s)" for s
    by (rule fails_inI) (auto simp: std_b64_decode_def dest: b64url_decode_err spiffe_err_value)
  then show ?thesis
    unfolding der_def by (intro fails_intros fails_in_catchE) (auto split: option.split)
qed

lemma spiffe_anchors [spiffe_fails]: "fails_in spiffe_err (anchors V cands)"
  unfolding anchors_def Let_def by (intro fails_intros spiffe_fails) simp

lemma anchors_documented: "documented_certs V \<Longrightarrow> anchors V cands = Inr cs \<Longrightarrow> \<forall>c \<in> set cs. documented_cert c"
  unfolding anchors_def Let_def
  by (auto simp: ensure_raise_ok intro: der_documented dest!: mapE_ok_set)

lemma chain_documented: "documented_certs V \<Longrightarrow> mapE (der V) xs = Inr cs \<Longrightarrow> \<forall>c \<in> set cs. documented_cert c"
  by (auto intro: der_documented dest!: mapE_ok_set)

lemma ascii_str_int: "\<exists>b. ascii_encode (str_int i) = Inr b"
proof -
  have "list_all (\<lambda>c. c < 128) (str_int i)"
    using str_nat_range by (auto simp: str_int_def list_all_iff u_def dest!: str_nat_range)
  then show ?thesis by (rule ascii_encode_total)
qed

text \<open>The exceptions of reading members of a message that has no schema\<close>

definition reading_err :: "exn \<Rightarrow> bool" where
  "reading_err e \<longleftrightarrow>
     e = TypeError \<or> is_value_error e \<or> e = KeyError \<or> e = AttributeError \<or> e = OverflowError"

lemma reading_errs:
  "fails_in reading_err (item d k)" "fails_in reading_err (subscript v k)" "fails_in reading_err (str_of v)"
  "fails_in reading_err (py_int v)" "fails_in reading_err (utf8_encode s)" "fails_in reading_err (b64url_decode s)"
  "fails_in reading_err (agent_id_of env)"
proof -
  show item: "fails_in reading_err (item d k)" for d k
    by (auto simp: item_def reading_err_def split: option.split)
  show sub: "fails_in reading_err (subscript v k)" for v k
    by (auto simp: subscript_def item reading_err_def split: pyval.split)
  show "fails_in reading_err (str_of v)" for v
    by (auto simp: str_of_def reading_err_def split: pyval.split)
  show "fails_in reading_err (py_int v)" for v
    by (rule fails_inI) (auto dest: py_int_caught simp: reading_err_def)
  show "fails_in reading_err (utf8_encode s)" for s
    by (auto simp: utf8_encode_def reading_err_def)
  show "fails_in reading_err (b64url_decode s)" for s
    by (rule fails_inI) (auto dest: b64url_decode_err simp: reading_err_def)
  show "fails_in reading_err (agent_id_of env)" for env
    unfolding agent_id_of_def by (intro fails_intros item sub)
qed

lemma proof_input_err: "fails_in reading_err (message_proof_input domain env self_aid)"
proof -
  have asc: "fails_in reading_err (ascii_encode (str_int i))" for i
    using ascii_str_int [of i] by auto
  show ?thesis
    unfolding message_proof_input_def handshake_proof_input_def
    by (intro fails_intros reading_errs asc) (simp add: reading_err_def)
qed

lemma spiffe_proof_input [spiffe_fails]: "fails_in spiffe_err (message_proof_input domain env self_aid)"
  by (rule fails_in_weaken [OF proof_input_err]) (auto simp: reading_err_def spiffe_err_def spiffe_caught_def)

lemma b64url_decode_fails: "(\<And>e. is_value_error e \<Longrightarrow> P e) \<Longrightarrow> fails_in P (b64url_decode s)"
  by (rule fails_inI) (blast dest: b64url_decode_err)

lemma decode_tagged_err: "fails_in (\<lambda>e. e = AitpError c False) (decode_tagged_signature_for sig alg c)"
  unfolding decode_tagged_signature_for_def Let_def
  by (auto intro!: fails_intros fails_in_catchE b64url_decode_fails split: pyval.split prod.split)

lemma spiffe_tagged [spiffe_fails]: "fails_in spiffe_err (decode_tagged_signature_for sig alg ''IDENTITY_FAILED'')"
  by (rule fails_in_weaken [OF decode_tagged_err]) simp

lemma leaf_key_wf: "leaf_key_of c = Inr pk \<Longrightarrow> key_wf pk \<and> pk_alg pk \<noteq> ALG_RSA"
proof -
  assume "leaf_key_of c = Inr pk"
  then obtain k where "(case k of Some (Ed_key b) \<Rightarrow> Inr \<lparr>pk_alg = ALG_ED25519, pk_key = Ed_key b\<rparr>
       | Some (P256_key q) \<Rightarrow> Inr \<lparr>pk_alg = ALG_P256, pk_key = P256_key q\<rparr> | _ \<Rightarrow> identity_failed) = Inr pk"
    unfolding leaf_key_of_def bindE_ok by blast
  then show ?thesis by (cases k; cases "the k") (auto simp: key_wf_def)
qed

lemma find_member: "List.find P xs = Some x \<Longrightarrow> x \<in> set xs \<and> P x"
  by (auto simp: find_Some_iff)

lemma spiffe_x509_svid:
  assumes V: "documented_certs V"
  shows "fails_in spiffe_err (verify_x509_svid C V identity env self cands now)"
proof -
  have leaf: "documented_cert (hd chain)" if "mapE (der V) xs = Inr chain" "xs \<noteq> []" for xs chain
    using chain_documented [OF V that(1)] mapE_ok_length [OF that(1)] that(2) by (cases chain) auto
  have anchor: "documented_cert a" if "anchors V cands = Inr ancs" "List.find P ancs = Some a" for P ancs a
    using anchors_documented [OF V that(1)] find_member [OF that(2)] by blast
  have path: "fails_in spiffe_err (check_path V td t i chain)" if "mapE (der V) xs = Inr chain" for xs chain td t i
    using chain_documented [OF V that] by (rule spiffe_check_path)
  have digest: "fails_in spiffe_err (verify_digest C k d s)" if "leaf_key_of c = Inr k" for c k d s
    using verify_digest_total [of k C d s] leaf_key_wf [OF that] by auto
  show ?thesis
    unfolding verify_x509_svid_def Let_def
    by (auto intro!: fails_intros spiffe_fails spiffe_ext spiffe_leaf_key spiffe_check_ca spiffe_name_constraints
        intro: leaf anchor path digest simp: fromtimestamp_def split: option.split)
qed

lemma verify_spiffe_err:
  assumes "points_in_range C" and "documented_certs V"
    and "verify_spiffe C V identity env self_aid store now = Inl e"
  shows "e = AitpError ''IDENTITY_FAILED'' False \<or> e = DuplicateExtension"
proof -
  have "fails_in spiffe_err (verify_spiffe_body C V identity env self_aid store now)"
    unfolding verify_spiffe_body_def Let_def
    by (auto intro!: fails_intros spiffe_fails spiffe_x509_svid assms(1,2))
  then have "fails_in (\<lambda>e. e = AitpError ''IDENTITY_FAILED'' False \<or> e = DuplicateExtension)
      (verify_spiffe C V identity env self_aid store now)"
    unfolding verify_spiffe_def
    by (intro fails_in_catchE) (auto elim: fails_in_weaken simp: spiffe_err_def)
  then show ?thesis using assms(3) by simp
qed

section \<open>What an accepted binding establishes\<close>

lemma in_validity_ok [ok_simps]:
  "in_validity c t = Inr w \<longleftrightarrow> not_valid_before c \<le> t \<and> t \<le> not_valid_after c"
  by (auto simp: in_validity_def ok_simps)

lemma check_ca_ok [ok_simps]:
  "check_ca c n = Inr w \<longleftrightarrow>
     (\<exists>pl ds crl. ext basic_constraints c = Inr (Some (True, pl)) \<and> (\<forall>m. pl = Some m \<longrightarrow> n \<le> m) \<and>
        ext key_usage c = Inr (Some (ds, True, crl)))"
  by (cases "ext basic_constraints c"; cases "ext key_usage c")
    (auto simp: check_ca_def bindE_ok ensure_raise_ok split: option.splits prod.splits)

lemma option_raise_ok [ok_simps]:
  "(case x of None \<Rightarrow> raise c | Some y \<Rightarrow> f y) = Inr z \<longleftrightarrow> (\<exists>y. x = Some y \<and> f y = Inr z)"
  by (cases x) simp_all

text \<open>The loop over the chain as a condition on every position\<close>

lemma check_path_ok:
  "check_path V td t i chain = Inr () \<longleftrightarrow>
     (\<forall>j < length chain. cert_v3 (chain ! j) \<and> in_validity (chain ! j) t = Inr () \<and>
        check_critical (chain ! j) = Inr () \<and>
        (0 < i + j \<longrightarrow> check_ca (chain ! j) (i + j - 1) = Inr () \<and> check_name_constraints (chain ! j) td = Inr ()) \<and>
        (Suc j < length chain \<longrightarrow> issued_by V (chain ! j) (chain ! Suc j)))"
proof (induction V td t i chain rule: check_path.induct)
  case (2 V td t i cert rest)
  have split: "(\<forall>j < length (cert # rest). P j) \<longleftrightarrow> P 0 \<and> (\<forall>j < length rest. P (Suc j))" for P
    by (auto simp: less_Suc_eq_0_disj)
  show ?case
    unfolding check_path.simps(2) split
    using 2 by (cases rest) (auto simp: bindE_ok ensure_raise_ok split: if_splits)
qed simp

definition is_issuer :: "certificate \<Rightarrow> bool" where
  "is_issuer c \<longleftrightarrow>
     (\<exists>pl ds crl. ext basic_constraints c = Inr (Some (True, pl)) \<and> ext key_usage c = Inr (Some (ds, True, crl)))"

text \<open>The keys of one use in the bundle of a trust domain\<close>

definition bundle_keys :: "pyval \<Rightarrow> ustr \<Rightarrow> string \<Rightarrow> dict list" where
  "bundle_keys store td use =
     (case bundle_for store td of
        Inr (PDict bundle) \<Rightarrow>
          map the_dict (filter (\<lambda>k. is_dict k \<and> get (the_dict k) (u ''use'') = PStr (u use))
            (the_list (get bundle (u ''keys''))))
      | _ \<Rightarrow> [])"

lemma verify_spiffe_ok:
  assumes "verify_spiffe C V identity env self_aid store now = Inr ()"
  shows "\<not> has identity (u ''issuer'') \<and> \<not> has identity (u ''public_key'') \<and>
    (\<exists>td path. parse_spiffe_id (get identity (u ''subject'')) = Inr (td, path) \<and>
       (get identity (u ''svid_type'') = PStr (u ''jwt-svid'') \<and> \<not> has identity (u ''x5c'') \<and>
          verify_jwt_svid C V identity env self_aid (bundle_keys store td ''jwt-svid'') now = Inr () \<or>
        get identity (u ''svid_type'') = PStr (u ''x509-svid'') \<and> has identity (u ''x5c'') \<and>
          verify_x509_svid C V identity env self_aid (bundle_keys store td ''x509-svid'') now = Inr ()))"
proof -
  from assms have "verify_spiffe_body C V identity env self_aid store now = Inr ()"
    by (simp add: verify_spiffe_def ok_simps)
  then obtain td path bdl where no: "\<not> has identity (u ''issuer'')" "\<not> has identity (u ''public_key'')"
    and kind: "in_str_set (get identity (u ''svid_type'')) SVID_TYPES = Inr True"
    and x5c: "(get identity (u ''svid_type'') = PStr (u ''x509-svid'')) = has identity (u ''x5c'')"
    and id: "parse_spiffe_id (get identity (u ''subject'')) = Inr (td, path)"
    and bdl: "bundle_for store td = Inr bdl"
      "is_list (if is_dict bdl then get (the_dict bdl) (u ''keys'') else PNone)"
    and run: "(if get identity (u ''svid_type'') = PStr (u ''jwt-svid'')
        then verify_jwt_svid C V identity env self_aid (map the_dict
           (filter (\<lambda>k. is_dict k \<and> get (the_dict k) (u ''use'') = get identity (u ''svid_type''))
             (the_list (if is_dict bdl then get (the_dict bdl) (u ''keys'') else PNone)))) now
        else verify_x509_svid C V identity env self_aid (map the_dict
           (filter (\<lambda>k. is_dict k \<and> get (the_dict k) (u ''use'') = get identity (u ''svid_type''))
             (the_list (if is_dict bdl then get (the_dict bdl) (u ''keys'') else PNone)))) now) = Inr ()"
    unfolding verify_spiffe_body_def Let_def bindE_ok ensure_raise_ok by (auto simp: bindE_ok ensure_raise_ok)
  obtain b where b: "bdl = PDict b" using bdl(2) by (cases bdl) auto
  from kind have "get identity (u ''svid_type'') = PStr (u ''jwt-svid'') \<or> get identity (u ''svid_type'') = PStr (u ''x509-svid'')"
    by (auto simp: in_str_set_True SVID_TYPES_def)
  with no x5c id run b bdl(1) show ?thesis
    by (auto simp: bundle_keys_def)
qed

lemma filter_uri_single: "length (filter (\<lambda>n. n \<noteq> Other_name) ns) = 1 \<Longrightarrow>
    PStr (uri_of (hd (filter (\<lambda>n. n \<noteq> Other_name) ns))) = PStr s \<Longrightarrow> filter (\<lambda>n. n \<noteq> Other_name) ns = [Uri_name s]"
proof -
  assume len: "length (filter (\<lambda>n. n \<noteq> Other_name) ns) = 1"
    and eq: "PStr (uri_of (hd (filter (\<lambda>n. n \<noteq> Other_name) ns))) = PStr s"
  then obtain n where n: "filter (\<lambda>n. n \<noteq> Other_name) ns = [n]" by (auto simp: length_Suc_conv)
  then have "n \<in> set (filter (\<lambda>n. n \<noteq> Other_name) ns)" by simp
  then have "n \<noteq> Other_name" by simp
  with eq n show ?thesis by (cases n) auto
qed

section \<open>A sample certification path\<close>

definition sample_leaf :: certificate where
  "sample_leaf =
     \<lparr>cert_v3 = True, not_valid_before = 0, not_valid_after = REFERENCE_CLOCK,
      cert_extensions = Inr [(True, Basic_constraints False None), (True, Key_usage True False False),
        (False, Subject_alt_name [Uri_name (u ''spiffe://td/a'')])],
      cert_public_key = Inr (Some (Ed_key (replicate 32 0)))\<rparr>"

definition sample_root :: certificate where
  "sample_root =
     \<lparr>cert_v3 = True, not_valid_before = 0, not_valid_after = REFERENCE_CLOCK,
      cert_extensions = Inr [(True, Basic_constraints True None), (True, Key_usage False True True)],
      cert_public_key = Inr (Some (Ed_key (replicate 32 1)))\<rparr>"

text \<open>The package: three zero bytes are the leaf, anything else the root, which issued every certificate.\<close>

definition sample_svid :: "certificate \<Rightarrow> svid_api" where
  "sample_svid leaf =
     \<lparr>ec_accepts = (\<lambda>_ _. True), ec_verify = (\<lambda>_ _ _ _ _. True), rsa_pkcs1_verify = (\<lambda>_ _ _ _ _. True),
      rsa_pss_verify = (\<lambda>_ _ _ _ _. True), load_der = (\<lambda>b. Some (if b = [0, 0, 0] then leaf else sample_root)),
      issued_by = (\<lambda>_ d. d = sample_root)\<rparr>"

definition spiffe_identity :: dict where
  "spiffe_identity =
     [(u ''type'', PStr (u ''spiffe'')), (u ''svid_type'', PStr (u ''x509-svid'')),
      (u ''subject'', PStr (u ''spiffe://td/a'')), (u ''x5c'', PList [PStr (u ''AAAA'')]), (u ''proof'', PStr sample_sig)]"

definition spiffe_store :: pyval where
  "spiffe_store =
     PList [PDict [(u ''trust_domain'', PStr (u ''td'')), (u ''bundle'', PDict [(u ''keys'', PList
       [PDict [(u ''use'', PStr (u ''x509-svid'')), (u ''x5c'', PList [PStr (u ''BBBB'')])]])])]]"

definition spiffe_envelope :: dict where
  "spiffe_envelope = sample_envelope ''mutual_hello'' [(u ''pop_nonce'', PStr sample_sig)]"

lemma sample_der [simp]:
  "der (sample_svid leaf) (PStr (u ''AAAA'')) = Inr leaf" "der (sample_svid leaf) (PStr (u ''BBBB'')) = Inr sample_root"
proof -
  have "std_b64_text (u ''AAAA'')" "std_b64_text (u ''BBBB'')"
    "std_b64_decode (u ''AAAA'') = Inr [0, 0, 0]" "std_b64_decode (u ''BBBB'') = Inr [4, 16, 65]"
    by code_simp+
  then show "der (sample_svid leaf) (PStr (u ''AAAA'')) = Inr leaf"
    "der (sample_svid leaf) (PStr (u ''BBBB'')) = Inr sample_root"
    by (simp_all add: der_def sample_svid_def)
qed

lemma sample_spiffe_id [simp]: "parse_spiffe_id (PStr (u ''spiffe://td/a'')) = Inr (u ''td'', u ''/a'')"
  by code_simp

lemma sample_message_proof: "\<exists>inp. message_proof_input domain spiffe_envelope (PStr peer_aid) = Inr inp"
proof -
  have utf: "\<exists>b. utf8_encode s = Inr b" if "list_all scalar s" for s
    using that by (auto simp: utf8_encode_def)
  obtain a b c where "utf8_encode sample_aid = Inr a" "utf8_encode peer_aid = Inr b" "utf8_encode (u ''m-1'') = Inr c"
    using utf [of sample_aid] utf [of peer_aid] utf [of "u ''m-1''"] by auto
  then show ?thesis
    using ascii_str_int [of REFERENCE_CLOCK]
    by (auto simp: message_proof_input_def handshake_proof_input_def spiffe_envelope_def agent_id_of_def sample_envelope_def)
qed

lemma sample_spiffe_reduces:
  "verify_spiffe sample_crypto (sample_svid leaf) spiffe_identity spiffe_envelope (PStr peer_aid) spiffe_store REFERENCE_CLOCK =
     catchE spiffe_caught (verify_x509_svid sample_crypto (sample_svid leaf) spiffe_identity spiffe_envelope (PStr peer_aid)
       [[(u ''use'', PStr (u ''x509-svid'')), (u ''x5c'', PList [PStr (u ''BBBB'')])]] REFERENCE_CLOCK) (\<lambda>_. identity_failed)"
  by (simp add: verify_spiffe_def verify_spiffe_body_def spiffe_identity_def in_str_set_def SVID_TYPES_def bundle_for_def
      spiffe_store_def Let_def hashable_def)

lemma sample_cert_sel [simp]:
  "cert_v3 sample_leaf" "not_valid_before sample_leaf = 0" "not_valid_after sample_leaf = REFERENCE_CLOCK"
  "cert_extensions sample_leaf = Inr [(True, Basic_constraints False None), (True, Key_usage True False False),
     (False, Subject_alt_name [Uri_name (u ''spiffe://td/a'')])]"
  "cert_public_key sample_leaf = Inr (Some (Ed_key (replicate 32 0)))"
  "not_valid_before sample_root = 0" "not_valid_after sample_root = REFERENCE_CLOCK"
  "cert_extensions sample_root = Inr [(True, Basic_constraints True None), (True, Key_usage False True True)]"
  "issued_by (sample_svid leaf) c sample_root"
  by (simp_all add: sample_leaf_def sample_root_def sample_svid_def)

lemma clock_in_range [simp]: "0 \<le> REFERENCE_CLOCK" "fromtimestamp REFERENCE_CLOCK = Inr REFERENCE_CLOCK"
  by (simp_all add: REFERENCE_CLOCK_def fromtimestamp_def)

lemma sample_x509_svid:
  "verify_spiffe sample_crypto (sample_svid sample_leaf) spiffe_identity spiffe_envelope (PStr peer_aid) spiffe_store
     REFERENCE_CLOCK = Inr ()"
  unfolding sample_spiffe_reduces using sample_message_proof [of SPIFFE_X509_DOMAIN]
  by (auto simp: verify_x509_svid_def spiffe_identity_def MAX_CHAIN_def anchors_def Let_def ext_def opt_list_def
      leaf_key_of_def in_validity_def check_critical_def check_ca_def check_name_constraints_def)

section \<open>Properties\<close>

text \<open>
  C9. An accepted X509-SVID is a certification path of at most eight certificates from a leaf
  whose only URI name is the subject, through CA certificates each of which issued the one
  before, to a CA certificate of the subject's own trust domain bundle, all in their validity
  period; and the leaf's key signed this message's proof input.
\<close>

theorem x509_svid_sound:
  assumes "verify_spiffe C V identity env self_aid store now = Inr ()"
    and "get identity (u ''svid_type'') = PStr (u ''x509-svid'')"
  shows "\<exists>subject td path chain anchor ns key inp sig.
    get identity (u ''subject'') = PStr subject \<and> parse_spiffe_id (PStr subject) = Inr (td, path) \<and>
    mapE (der V) (the_list (get identity (u ''x5c''))) = Inr chain \<and> 1 \<le> length chain \<and> length chain \<le> 8 \<and>
    ext subject_alt_name (hd chain) = Inr (Some ns) \<and> filter (\<lambda>n. n \<noteq> Other_name) ns = [Uri_name subject] \<and>
    \<not> is_issuer (hd chain) \<and>
    (\<forall>j. Suc j < length chain \<longrightarrow> issued_by V (chain ! j) (chain ! Suc j) \<and> is_issuer (chain ! Suc j)) \<and>
    issued_by V (last chain) anchor \<and> is_issuer anchor \<and>
    (\<exists>k \<in> set (bundle_keys store td ''x509-svid''). der V (hd (the_list (get k (u ''x5c'')))) = Inr anchor) \<and>
    (\<forall>c \<in> set (anchor # chain). not_valid_before c \<le> now \<and> now \<le> not_valid_after c) \<and>
    leaf_key_of (hd chain) = Inr key \<and> message_proof_input SPIFFE_X509_DOMAIN env self_aid = Inr inp \<and>
    decode_tagged_signature_for (get identity (u ''proof'')) (pk_alg key) ''IDENTITY_FAILED'' = Inr sig \<and>
    verify_digest C key (sha256 inp) sig = Inr True"
proof -
  obtain td path where id: "parse_spiffe_id (get identity (u ''subject'')) = Inr (td, path)"
    and run: "verify_x509_svid C V identity env self_aid (bundle_keys store td ''x509-svid'') now = Inr ()"
    using verify_spiffe_ok [OF assms(1)] assms(2) by auto
  obtain subject where subject: "get identity (u ''subject'') = PStr subject"
    using id by (cases "get identity (u ''subject'')") (auto simp: parse_spiffe_id_def)
  from run obtain chain ancs t san bc ku key anchor inp sig where
      x5c: "the_list (get identity (u ''x5c'')) \<noteq> []" "length (the_list (get identity (u ''x5c''))) \<le> MAX_CHAIN"
    and chain: "mapE (der V) (the_list (get identity (u ''x5c''))) = Inr chain"
    and ancs: "anchors V (bundle_keys store td ''x509-svid'') = Inr ancs"
    and t: "fromtimestamp now = Inr t"
    and san: "ext subject_alt_name (hd chain) = Inr san" "length (filter (\<lambda>n. n \<noteq> Other_name) (opt_list san)) = 1"
      "PStr (uri_of (hd (filter (\<lambda>n. n \<noteq> Other_name) (opt_list san)))) = get identity (u ''subject'')"
    and bc: "ext basic_constraints (hd chain) = Inr bc" "case bc of None \<Rightarrow> False | Some (ca, n) \<Rightarrow> \<not> ca"
    and key: "leaf_key_of (hd chain) = Inr key"
    and path: "check_path V td t 0 chain = Inr ()"
    and anchor: "List.find (issued_by V (last chain)) ancs = Some anchor"
      "in_validity anchor t = Inr ()" "check_ca anchor (length chain - 1) = Inr ()"
    and sgn: "message_proof_input SPIFFE_X509_DOMAIN env self_aid = Inr inp"
      "decode_tagged_signature_for (get identity (u ''proof'')) (pk_alg key) ''IDENTITY_FAILED'' = Inr sig"
      "verify_digest C key (sha256 inp) sig = Inr True"
    unfolding verify_x509_svid_def Let_def
    by (auto simp: bindE_ok ensure_raise_ok item_ok id option_raise_ok)
  have len: "1 \<le> length chain" "length chain \<le> 8"
    using mapE_ok_length [OF chain] x5c by (auto simp: MAX_CHAIN_def Suc_le_eq)
  have t: "t = now" using t by (auto simp: fromtimestamp_def ok_simps)
  note path = path [unfolded check_path_ok t]
  obtain ns where ns: "san = Some ns" using san(2) by (cases san) (auto simp: opt_list_def)
  have "filter (\<lambda>n. n \<noteq> Other_name) ns = [Uri_name subject]"
    using filter_uri_single san(2,3) by (simp add: ns opt_list_def subject)
  moreover have "\<not> is_issuer (hd chain)" using bc by (auto simp: is_issuer_def)
  moreover have "issued_by V (chain ! j) (chain ! Suc j) \<and> is_issuer (chain ! Suc j)" if "Suc j < length chain" for j
    using path that by (auto simp: is_issuer_def check_ca_ok)
  moreover have "\<forall>c \<in> set (anchor # chain). not_valid_before c \<le> now \<and> now \<le> not_valid_after c"
    using anchor(2) path by (auto simp: in_validity_ok t in_set_conv_nth)
  moreover have "is_issuer anchor" using anchor(3) by (auto simp: is_issuer_def check_ca_ok)
  moreover have "\<exists>k \<in> set (bundle_keys store td ''x509-svid''). der V (hd (the_list (get k (u ''x5c'')))) = Inr anchor"
    using mapE_ok_set [OF ancs [unfolded anchors_def]] find_member [OF anchor(1)]
    by (force simp: Let_def ensure_raise_ok)
  ultimately show ?thesis
    using subject id chain len san(1) ns find_member [OF anchor(1)] key sgn
    by (intro exI [of _ subject] exI [of _ td] exI [of _ path] exI [of _ chain] exI [of _ anchor] exI [of _ ns]
        exI [of _ key] exI [of _ inp] exI [of _ sig]) auto
qed

lemma x509_svid_sound_witness:
  "\<exists>chain. mapE (der (sample_svid sample_leaf)) [PStr (u ''AAAA'')] = Inr chain \<and> \<not> is_issuer (hd chain)"
  using x509_svid_sound [OF sample_x509_svid] by (auto simp: spiffe_identity_def)



text \<open>
  That exception does get out: a leaf whose certificate repeats an extension makes the binding
  raise \<open>DuplicateExtension\<close>, although the module promises \<open>IDENTITY_FAILED\<close> for every failure.
\<close>

lemma duplicate_extension_escapes:
  "verify_spiffe sample_crypto (sample_svid (sample_leaf\<lparr>cert_extensions := Inl DuplicateExtension\<rparr>)) spiffe_identity
     spiffe_envelope (PStr peer_aid) spiffe_store REFERENCE_CLOCK = Inl DuplicateExtension"
  unfolding sample_spiffe_reduces
  by (simp add: verify_x509_svid_def spiffe_identity_def MAX_CHAIN_def anchors_def Let_def ext_def spiffe_caught_def)

lemma check_exp_iat_ok [ok_simps]:
  "check_exp_iat cl now = Inr w \<longleftrightarrow>
     (\<exists>exp iat. get cl (u ''exp'') = PInt exp \<and> now < exp \<and> get cl (u ''iat'') = PInt iat \<and>
        \<bar>now - iat\<bar> \<le> IAT_TOLERANCE_SECS)"
  by (auto simp: check_exp_iat_def Let_def ensure_raise_ok is_int_iff)

lemma check_nonce_binding_ok [ok_simps]:
  "check_nonce_binding cl env = Inr w \<longleftrightarrow>
     (\<exists>n. pop_nonce_of env = Inr n \<and> n \<noteq> PNone \<and> get cl (u ''nonce'') \<noteq> PNone \<and> py_eq (get cl (u ''nonce'')) n)"
  by (auto simp: check_nonce_binding_def Let_def ok_simps)

lemma check_key_binding_ok [ok_simps]:
  "check_key_binding C cl env = Inr w \<longleftrightarrow>
     (\<exists>s a jkt. agent_id_of env = Inr (PStr s) \<and> parse_aid C s = Inr a \<and> thumbprint a = Inr jkt \<and> jkt_of cl = PStr jkt)"
  by (auto simp: check_key_binding_def bindE_ok ensure_raise_ok parse_agent_ok)

text \<open>
  C10. An accepted JWT-SVID is signed, under an allowed algorithm, by the one key of the trust
  domain's bundle its header names; it is this subject's, for this receiver, not expired and
  recently issued, and bound to this message's nonce and to the sender's AID key.
\<close>

theorem jwt_svid_sound:
  assumes "verify_spiffe C V identity env self_aid store now = Inr ()"
    and "get identity (u ''svid_type'') = PStr (u ''jwt-svid'')"
  shows "\<exists>td path p alg jwk exp iat n s a jkt.
    parse_spiffe_id (get identity (u ''subject'')) = Inr (td, path) \<and>
    parse_compact (get_or (PStr []) identity (u ''proof'')) ''IDENTITY_FAILED'' = Inr p \<and>
    fst ` set (header p) \<subseteq> set JWT_SVID_HEADER \<and>
    get (header p) (u ''alg'') = PStr alg \<and> alg \<in> set JWT_SVID_ALGS \<and>
    filter (\<lambda>k. get k (u ''kid'') = get (header p) (u ''kid'')) (bundle_keys store td ''jwt-svid'') = [jwk] \<and>
    verify_jwt_svid_signature C V jwk alg (signing_input p) (signature p) = Inr True \<and>
    py_eq (get (claims p) (u ''sub'')) (get identity (u ''subject'')) \<and>
    get (claims p) (u ''aud'') \<in> {self_aid, PList [self_aid]} \<and> truthy self_aid \<and>
    get (claims p) (u ''exp'') = PInt exp \<and> now < exp \<and>
    get (claims p) (u ''iat'') = PInt iat \<and> \<bar>now - iat\<bar> \<le> IAT_TOLERANCE_SECS \<and>
    pop_nonce_of env = Inr n \<and> n \<noteq> PNone \<and> py_eq (get (claims p) (u ''nonce'')) n \<and>
    agent_id_of env = Inr (PStr s) \<and> parse_aid C s = Inr a \<and> thumbprint a = Inr jkt \<and> jkt_of (claims p) = PStr jkt"
proof -
  obtain td path where id: "parse_spiffe_id (get identity (u ''subject'')) = Inr (td, path)"
    and run: "verify_jwt_svid C V identity env self_aid (bundle_keys store td ''jwt-svid'') now = Inr ()"
    using verify_spiffe_ok [OF assms(1)] assms(2) by auto
  let ?aud = "\<lambda>cl. case get cl (u ''aud'') of PList [a] \<Rightarrow> a | a \<Rightarrow> a"
  let ?keys = "\<lambda>p. filter (\<lambda>k. get k (u ''kid'') = get (header p) (u ''kid'')) (bundle_keys store td ''jwt-svid'')"
  from run obtain p where p: "parse_compact (get_or (PStr []) identity (u ''proof'')) ''IDENTITY_FAILED'' = Inr p"
      "fst ` set (header p) \<subseteq> set JWT_SVID_HEADER"
    and alg: "in_str_set (get (header p) (u ''alg'')) JWT_SVID_ALGS = Inr True"
    and keys: "length (?keys p) = 1"
      "verify_jwt_svid_signature C V (hd (?keys p)) (the_str (get (header p) (u ''alg''))) (signing_input p) (signature p) = Inr True"
    and cl: "py_eq (get (claims p) (u ''sub'')) (get identity (u ''subject''))"
      "truthy self_aid" "?aud (claims p) = self_aid" "check_exp_iat (claims p) now = Inr ()"
      "check_nonce_binding (claims p) env = Inr ()" "check_key_binding C (claims p) env = Inr ()"
    unfolding verify_jwt_svid_def Let_def bindE_ok ensure_raise_ok item_ok
    by (elim exE conjE) (rule that, (assumption | simp)+)
  obtain a where a: "get (header p) (u ''alg'') = PStr a" "a \<in> set JWT_SVID_ALGS" using alg by (auto simp: in_str_set_True)
  obtain jwk where jwk: "?keys p = [jwk]" using keys(1) by (auto simp: length_Suc_conv)
  have aud: "get (claims p) (u ''aud'') \<in> {self_aid, PList [self_aid]}"
    using cl(3) by (auto split: pyval.splits list.splits)
  obtain exp iat where times: "get (claims p) (u ''exp'') = PInt exp" "now < exp" "get (claims p) (u ''iat'') = PInt iat"
      "\<bar>now - iat\<bar> \<le> IAT_TOLERANCE_SECS"
    using cl(4) by (auto simp: check_exp_iat_ok)
  obtain n where nonce: "pop_nonce_of env = Inr n" "n \<noteq> PNone" "py_eq (get (claims p) (u ''nonce'')) n"
    using cl(5) by (auto simp: check_nonce_binding_ok)
  obtain s b jkt where key: "agent_id_of env = Inr (PStr s)" "parse_aid C s = Inr b" "thumbprint b = Inr jkt"
      "jkt_of (claims p) = PStr jkt"
    using cl(6) by (auto simp: check_key_binding_ok)
  show ?thesis
    by (intro exI [of _ td] exI [of _ path] exI [of _ p] exI [of _ a] exI [of _ jwk] exI [of _ exp] exI [of _ iat] exI [of _ n]
        exI [of _ s] exI [of _ b] exI [of _ jkt] conjI)
      (rule id p a jwk keys(2) [unfolded jwk list.sel a(1) the_str.simps] cl aud times nonce key)+
qed

definition jwt_header :: dict where
  "jwt_header = [(u ''alg'', PStr (u ''ES256'')), (u ''kid'', PStr (u ''k1''))]"

definition jwt_claims :: dict where
  "jwt_claims =
     [(u ''aud'', PStr peer_aid), (u ''cnf'', PDict [(u ''jkt'', PStr (sample_jkt (replicate 32 0)))]),
      (u ''exp'', PInt (REFERENCE_CLOCK + 60)), (u ''iat'', PInt REFERENCE_CLOCK), (u ''nonce'', PStr sample_sig),
      (u ''sub'', PStr (u ''spiffe://td/a''))]"

definition jwt_identity :: dict where
  "jwt_identity =
     [(u ''type'', PStr (u ''spiffe'')), (u ''svid_type'', PStr (u ''jwt-svid'')),
      (u ''subject'', PStr (u ''spiffe://td/a'')), (u ''proof'', PStr (compact_text jwt_header jwt_claims))]"

definition jwt_key :: dict where
  "jwt_key =
     [(u ''use'', PStr (u ''jwt-svid'')), (u ''kid'', PStr (u ''k1'')), (u ''kty'', PStr (u ''EC'')),
      (u ''crv'', PStr (u ''P-256'')), (u ''x'', PStr (b64url_encode (replicate 32 0))),
      (u ''y'', PStr (b64url_encode (replicate 32 0)))]"

definition jwt_store :: pyval where
  "jwt_store =
     PList [PDict [(u ''trust_domain'', PStr (u ''td'')), (u ''bundle'', PDict [(u ''keys'', PList [PDict jwt_key])])]]"

lemma jwt_canonical: "canonical_object jwt_header" "canonical_object jwt_claims"
proof -
  have "sorted (map utf16_key (map fst jwt_header))" "sorted (map utf16_key (map fst jwt_claims))"
    by (simp_all add: jwt_header_def jwt_claims_def) code_simp+
  then have "canon (PDict jwt_header) = PDict jwt_header" "canon (PDict jwt_claims) = PDict jwt_claims"
    by (simp_all only: canon_sorted) (simp_all add: jwt_header_def jwt_claims_def canon_sorted)
  moreover have "plain (PDict jwt_header)" "plain (PDict jwt_claims)"
    by (simp_all add: jwt_header_def jwt_claims_def REFERENCE_CLOCK_def)
  ultimately show "canonical_object jwt_header" "canonical_object jwt_claims"
    by (simp_all add: canonical_object_def del: canon.simps plain.simps) (simp_all add: jwt_header_def jwt_claims_def)
qed

lemma sample_jwt_svid:
  "verify_spiffe sample_crypto (sample_svid sample_leaf) jwt_identity spiffe_envelope (PStr peer_aid) jwt_store
     REFERENCE_CLOCK = Inr ()"
proof -
  obtain inp where tok: "\<And>c. parse_compact (PStr (compact_text jwt_header jwt_claims)) c =
      Inr \<lparr>header = jwt_header, claims = jwt_claims, signing_input = inp, signature = replicate 64 0\<rparr>"
    using compact_text_parse [OF jwt_canonical] by blast
  have coord: "decode_jwk_member jwt_key (u k) = Inr (replicate 32 0)" if "k \<in> {''x'', ''y''}" for k
    using that by (auto simp: decode_jwk_member_def jwt_key_def require_str_def b64url_decode_encode b64url_encode_length
        MAX_B64_MEMBER_CHARS_def)
  have es: "take 2 (u ''ES256'') = u ''ES''" by (simp add: u_def)
  have sig: "verify_jwt_svid_signature sample_crypto (sample_svid sample_leaf) jwt_key (u ''ES256'') inp (replicate 64 0) = Inr True"
    using coord
    by (simp add: verify_jwt_svid_signature_def Let_def es_curve_def es) (simp add: jwt_key_def sample_svid_def)
  have checks: "check_exp_iat jwt_claims REFERENCE_CLOCK = Inr ()" "check_nonce_binding jwt_claims spiffe_envelope = Inr ()"
    "check_key_binding sample_crypto jwt_claims spiffe_envelope = Inr ()"
    by (simp_all add: check_exp_iat_def IAT_TOLERANCE_SECS_def check_nonce_binding_def pop_nonce_of_def dict_get_def get_or_def
        check_key_binding_ok agent_id_of_def jkt_of_def spiffe_envelope_def jwt_claims_def item_def subscript_def
        sample_envelope_def Let_def)
  have gets: "get jwt_key (u ''kid'') = PStr (u ''k1'')" "get jwt_header (u ''kid'') = PStr (u ''k1'')"
    "get jwt_header (u ''alg'') = PStr (u ''ES256'')" "\<not> has jwt_header (u ''typ'')"
    "fst ` set jwt_header \<subseteq> set JWT_SVID_HEADER" "get jwt_claims (u ''sub'') = PStr (u ''spiffe://td/a'')"
    "get jwt_claims (u ''aud'') = PStr peer_aid" "in_str_set (PStr (u ''ES256'')) JWT_SVID_ALGS = Inr True"
    by (simp_all add: jwt_key_def jwt_header_def jwt_claims_def JWT_SVID_HEADER_def in_str_set_def hashable_def JWT_SVID_ALGS_def)
  have "peer_aid \<noteq> []" by (simp add: peer_aid_def ed_aid_def)
  then have "verify_jwt_svid sample_crypto (sample_svid sample_leaf) jwt_identity spiffe_envelope (PStr peer_aid) [jwt_key]
      REFERENCE_CLOCK = Inr ()"
    using tok sig checks gets
    by (simp add: verify_jwt_svid_def Let_def jwt_identity_def)
  then show ?thesis
    by (simp add: verify_spiffe_def verify_spiffe_body_def jwt_identity_def in_str_set_def SVID_TYPES_def bundle_for_def
      jwt_store_def Let_def hashable_def jwt_key_def)
qed

lemma jwt_svid_sound_witness:
  "\<exists>p. parse_compact (PStr (compact_text jwt_header jwt_claims)) ''IDENTITY_FAILED'' = Inr p \<and>
     py_eq (get (claims p) (u ''sub'')) (PStr (u ''spiffe://td/a''))"
  using jwt_svid_sound [OF sample_jwt_svid] by (auto simp: jwt_identity_def)

end
