(* ===== verification/Identity.thy ===== *)
theory Identity
  imports Spiffe
begin

text \<open>
  \<open>aitp_verifier/identity.py\<close>: the OIDC and pinned-key identity bindings, trust-store entries,
  and the dispatch on the descriptor's type. The local configuration (trust anchors, trust store,
  issuer keys, SPIFFE bundles) are arguments, as in the code.
\<close>

section \<open>Constants\<close>

definition ALLOWED_OIDC_ALGS :: "ustr list" where
  "ALLOWED_OIDC_ALGS = map u [''EdDSA'', ''ES256'', ''RS256'']"

definition FORBIDDEN_HEADER_PARAMS :: "ustr list" where
  "FORBIDDEN_HEADER_PARAMS = map u [''jwk'', ''jku'', ''x5u'', ''x5c'', ''crit'']"

definition IDENTITY_FIELDS :: "ustr list" where
  "IDENTITY_FIELDS =
     map u [''type'', ''issuer'', ''subject'', ''proof'', ''public_key'', ''svid_type'', ''x5c'', ''extensions'']"

definition SPIFFE_ONLY_FIELDS :: "ustr list" where
  "SPIFFE_ONLY_FIELDS = map u [''svid_type'', ''x5c'']"

section \<open>OIDC\<close>

definition kid_value :: "issuer_key \<Rightarrow> pyval" where
  "kid_value k = (case ik_kid k of None \<Rightarrow> PNone | Some s \<Rightarrow> PStr s)"

definition select_issuer_key :: "issuer_key list \<Rightarrow> pyval \<Rightarrow> issuer_key res" where
  "select_issuer_key candidates kid =
     (if kid \<noteq> PNone then
        (let matches = filter (\<lambda>c. kid_value c = kid) candidates in
         ensure (length matches = 1) identity_failed (Inr (hd matches)))
      else ensure (length candidates = 1) identity_failed (Inr (hd candidates)))"

definition key_resolution_failed :: "'a res" where
  "key_resolution_failed = raise_retryable ''KEY_RESOLUTION_FAILED''"

text \<open>Steps 8 to 14: what the claims of a token with a verified signature must say.\<close>

definition check_oidc_claims ::
  "crypto \<Rightarrow> dict \<Rightarrow> ustr \<Rightarrow> dict \<Rightarrow> dict \<Rightarrow> pyval \<Rightarrow> int \<Rightarrow> unit res" where
  "check_oidc_claims C cl issuer identity env self_aid now =
     ensure (get cl (u ''iss'') = PStr issuer) identity_failed (
     ensure (py_eq (get cl (u ''sub'')) (get identity (u ''subject''))) identity_failed (
     bindE (check_exp_iat cl now) (\<lambda>_.
     let aud = get cl (u ''aud'') in
     ensure (aud \<noteq> PNone) identity_failed (
     ensure (\<not> (truthy self_aid \<and> \<not> py_eq aud self_aid)) identity_failed (
     bindE (check_nonce_binding cl env) (\<lambda>_.
       check_key_binding C cl env))))))"

definition verify_oidc ::
  "crypto \<Rightarrow> dict \<Rightarrow> dict \<Rightarrow> pyval \<Rightarrow> ustr list \<Rightarrow> pyval \<Rightarrow> int \<Rightarrow> unit res" where
  "verify_oidc C identity env self_aid trust_anchors issuer_keys now =
     ensure (get identity (u ''public_key'') = PNone) identity_failed (
     ensure (is_str (get identity (u ''issuer''))) identity_failed (
     let issuer = the_str (get identity (u ''issuer'')) in
     ensure (issuer \<in> set trust_anchors) (raise ''INCOMPATIBLE_TRUST_ANCHORS'') (
     bindE (parse_compact (get_or (PStr []) identity (u ''proof'')) ''IDENTITY_FAILED'') (\<lambda>parsed.
     ensure (\<not> list_ex (has (header parsed)) FORBIDDEN_HEADER_PARAMS) identity_failed (
     let alg = get (header parsed) (u ''alg'') in
     ensure (is_str alg \<and> the_str alg \<in> set ALLOWED_OIDC_ALGS) identity_failed (
     let resolved = (if is_dict issuer_keys then get (the_dict issuer_keys) issuer else PNone) in
     bindE (catchE is_value_error (issuer_keys_from C resolved) (\<lambda>_. key_resolution_failed)) (\<lambda>candidates.
     ensure (candidates \<noteq> []) key_resolution_failed (
     bindE (select_issuer_key candidates (get (header parsed) (u ''kid''))) (\<lambda>key.
     ensure (PStr (ik_jose_alg key) = alg) identity_failed (
     bindE (verify_jose C (ik_key key) (signing_input parsed) (signature parsed) True) (\<lambda>good.
     ensure good identity_failed (
       check_oidc_claims C (claims parsed) issuer identity env self_aid now))))))))))))"

section \<open>Pinned keys\<close>

definition trust_store_entry :: "crypto \<Rightarrow> pyval \<Rightarrow> (ustr \<times> bytes) option" where
  "trust_store_entry C v =
     (case v of
        PStr s \<Rightarrow>
          (case (if strip_prefix (u ''aid:'') s \<noteq> None then parse_aid C s
                 else if length s = 44 then parse_aid C (u ''aid:pubkey:p256:'' @ s)
                 else parse_aid C (u ''aid:pubkey:'' @ s)) of
             Inl e \<Rightarrow> None
           | Inr a \<Rightarrow> Some (aid_alg a, raw_key a))
      | _ \<Rightarrow> None)"

text \<open>The set of the entries that parse.\<close>

definition trusted_keys :: "crypto \<Rightarrow> pyval list \<Rightarrow> (ustr \<times> bytes) list" where
  "trusted_keys C entries = List.map_filter (trust_store_entry C) entries"

definition pinned_key_proof_input :: "ustr \<Rightarrow> ustr \<Rightarrow> ustr \<Rightarrow> pyval \<Rightarrow> ustr \<Rightarrow> bytes res" where
  "pinned_key_proof_input = handshake_proof_input PINNED_KEY_DOMAIN"

text \<open>The exceptions of a malformed descriptor\<close>

definition pinned_caught :: "exn \<Rightarrow> bool" where
  "pinned_caught e \<longleftrightarrow>
     e = TypeError \<or> is_value_error e \<or> e = AttributeError \<or> e = OverflowError \<or> e = KeyError"

text \<open>The guarded part of \<open>_verify_pinned_key\<close>: it yields the sender, the proof input and the signature.\<close>

definition pinned_key_checks ::
  "crypto \<Rightarrow> dict \<Rightarrow> dict \<Rightarrow> pyval \<Rightarrow> pyval \<Rightarrow> (aid \<times> bytes \<times> bytes) res" where
  "pinned_key_checks C identity env self_aid trust_store =
     (let pub = get identity (u ''public_key'') in
      ensure (is_str pub) identity_failed (
      bindE (agent_id_of env) (\<lambda>agent.
      bindE (parse_aid C (py_str agent)) (\<lambda>sender.
      let expected_len = (if aid_alg sender = ALG_ED25519 then 43 else 44) in
      bindE (if length (the_str pub) \<noteq> expected_len then Inr False
             else bindE (b64url_decode (the_str pub)) (\<lambda>raw. Inr (raw = raw_key sender))) (\<lambda>same_key.
      ensure same_key identity_failed (
      ensure ((aid_alg sender, raw_key sender) \<in> set (trusted_keys C (the_list trust_store))) identity_failed (
      bindE (message_proof_input PINNED_KEY_DOMAIN env self_aid) (\<lambda>proof_input.
      bindE (decode_tagged_signature (get identity (u ''proof'')) sender ''IDENTITY_FAILED'') (\<lambda>sig.
        Inr (sender, proof_input, sig))))))))))"

definition verify_pinned_key :: "crypto \<Rightarrow> dict \<Rightarrow> dict \<Rightarrow> pyval \<Rightarrow> pyval \<Rightarrow> unit res" where
  "verify_pinned_key C identity env self_aid trust_store =
     ensure (\<not> has identity (u ''issuer'')) identity_failed (
     bindE (catchE pinned_caught (pinned_key_checks C identity env self_aid trust_store) (\<lambda>_. identity_failed))
       (\<lambda>(sender, proof_input, sig).
     bindE (verify_digest C (aid_key sender) (sha256 proof_input) sig) (\<lambda>good.
     ensure good identity_failed (Inr ()))))"

section \<open>Dispatch\<close>

definition verify_identity ::
  "crypto \<Rightarrow> svid_api \<Rightarrow> pyval \<Rightarrow> dict \<Rightarrow> pyval \<Rightarrow> ustr list \<Rightarrow> pyval \<Rightarrow> pyval \<Rightarrow> int \<Rightarrow> pyval \<Rightarrow> unit res"
where
  "verify_identity C V identity env self_aid trust_anchors trust_store issuer_keys now spiffe_bundles =
     bindE (reject_unknown_fields IDENTITY_FIELDS ''IDENTITY_FAILED'' identity) (\<lambda>_.
     let d = the_dict identity; itype = get d (u ''type'') in
     if itype = PStr (u ''spiffe'') \<and> spiffe_bundles \<noteq> PNone then
       verify_spiffe C V d env self_aid spiffe_bundles now
     else
       ensure (\<not> (itype \<in> {PStr (u ''oidc''), PStr (u ''pinned_key'')} \<and> list_ex (has d) SPIFFE_ONLY_FIELDS))
         identity_failed (
       if itype = PStr (u ''oidc'') then verify_oidc C d env self_aid trust_anchors issuer_keys now
       else if itype = PStr (u ''pinned_key'') then verify_pinned_key C d env self_aid trust_store
       else identity_failed))"

section \<open>What an accepted binding establishes\<close>

lemma trusted_keys_member: "x \<in> set (trusted_keys C es) \<longleftrightarrow> (\<exists>e \<in> set es. trust_store_entry C e = Some x)"
  by (induction es) (auto simp: trusted_keys_def split: option.split)

lemma select_issuer_key_ok: "select_issuer_key cands kid = Inr k \<Longrightarrow> k \<in> set cands \<and> (kid \<noteq> PNone \<longrightarrow> kid_value k = kid)"
proof -
  assume ok: "select_issuer_key cands kid = Inr k"
  have hd: "length xs = 1 \<Longrightarrow> hd xs \<in> set xs" for xs :: "issuer_key list" by (cases xs) auto
  show ?thesis
    using ok hd [of cands] hd [of "filter (\<lambda>c. kid_value c = kid) cands"]
    by (auto simp: select_issuer_key_def Let_def ensure_raise_ok split: if_splits)
qed

lemma verify_identity_oidc:
  assumes "get (the_dict v) (u ''type'') = PStr (u ''oidc'')"
  shows "verify_identity C V v env self_aid anch ts keys now bundles = Inr () \<longleftrightarrow>
    reject_unknown_fields IDENTITY_FIELDS ''IDENTITY_FAILED'' v = Inr () \<and>
    \<not> list_ex (has (the_dict v)) SPIFFE_ONLY_FIELDS \<and> verify_oidc C (the_dict v) env self_aid anch keys now = Inr ()"
  using assms by (auto simp: verify_identity_def Let_def bindE_ok ensure_raise_ok)

lemma verify_identity_pinned:
  assumes "get (the_dict v) (u ''type'') = PStr (u ''pinned_key'')"
  shows "verify_identity C V v env self_aid anch ts keys now bundles = Inr () \<longleftrightarrow>
    reject_unknown_fields IDENTITY_FIELDS ''IDENTITY_FAILED'' v = Inr () \<and>
    \<not> list_ex (has (the_dict v)) SPIFFE_ONLY_FIELDS \<and> verify_pinned_key C (the_dict v) env self_aid ts = Inr ()"
  using assms by (auto simp: verify_identity_def Let_def bindE_ok ensure_raise_ok)

lemma pinned_key_checks_ok:
  "pinned_key_checks C d env self_aid ts = Inr (sender, inp, sig) \<longleftrightarrow>
    (\<exists>pub agent. get d (u ''public_key'') = PStr pub \<and> agent_id_of env = Inr agent \<and> parse_aid C (py_str agent) = Inr sender \<and>
       length pub = (if aid_alg sender = ALG_ED25519 then 43 else 44) \<and> b64url_decode pub = Inr (raw_key sender) \<and>
       (aid_alg sender, raw_key sender) \<in> set (trusted_keys C (the_list ts)) \<and>
       message_proof_input PINNED_KEY_DOMAIN env self_aid = Inr inp \<and>
       decode_tagged_signature (get d (u ''proof'')) sender ''IDENTITY_FAILED'' = Inr sig)"
  by (cases "get d (u ''public_key'')") (auto simp: pinned_key_checks_def Let_def bindE_ok ensure_raise_ok)

section \<open>Errors\<close>

lemma agent_id_of_shaped: "envelope_shaped env \<Longrightarrow> agent_id_of env = Inr (PStr (sender_agent_id env))"
  by (auto simp: envelope_shaped_def agent_id_of_def sender_agent_id_def has_item get_not_PNone_has)

lemma pop_nonce_of_shaped: "envelope_shaped env \<Longrightarrow> \<exists>v. pop_nonce_of env = Inr v"
  by (cases "has env (u ''payload'')")
    (auto simp: envelope_shaped_def pop_nonce_of_def is_dict_iff get_or_def has_def split: option.splits)

lemma issuer_keys_from_wf: "issuer_keys_from C v = Inr ks \<Longrightarrow> k \<in> set ks \<Longrightarrow> key_wf (ik_key k)"
proof -
  assume ok: "issuer_keys_from C v = Inr ks" and k: "k \<in> set ks"
  obtain n where "issuer_keys_walk C v 0 [] 0 = Inr (ks, n)" using ok by (auto simp: issuer_keys_from_def ok_simps)
  then have "candidates_ok ks" by (rule issuer_keys_walk_candidates(1)) (simp add: candidates_ok_def)
  then show ?thesis using k by (simp add: candidates_ok_def issuer_key_wf_def)
qed

lemma key_resolution_failed_aitp [aitp_intros, simp]: "aitp_or es key_resolution_failed"
  by (simp add: key_resolution_failed_def)

lemma verify_identity_aitp:
  assumes C: "points_in_range C" and V: "documented_certs V"
    and env: "envelope_shaped env" and sender: "parse_aid C (sender_agent_id env) = Inr a"
  shows "aitp_or [DuplicateExtension] (verify_identity C V v env self_aid anch ts keys now bundles)"
proof -
  let ?aitp = "aitp_or [DuplicateExtension]"
  have spiffe: "?aitp (verify_spiffe C V d env self_aid store now)" for d store
    using verify_spiffe_err [OF C V, of d env self_aid store now] by (cases "verify_spiffe C V d env self_aid store now") auto
  have binding: "?aitp (check_key_binding C cl env)" "?aitp (check_nonce_binding cl env)" for cl
    using agent_id_of_shaped [OF env] sender pop_nonce_of_shaped [OF env]
    by (auto simp: check_key_binding_def parse_agent_def parse_aid_value_def check_nonce_binding_def Let_def
        intro!: aitp_intros thumbprint_aitp [OF C])
  have times: "?aitp (check_exp_iat cl now)" for cl
    by (auto simp: check_exp_iat_def Let_def intro!: aitp_intros)
  have keys: "?aitp (catchE is_value_error (issuer_keys_from C r) (\<lambda>_. key_resolution_failed))" for r
    by (intro aitp_or_catchE) (auto dest: issuer_keys_from_err)
  have jose: "?aitp (verify_jose C (ik_key k) m s h)" if "issuer_keys_from C r = Inr ks" "select_issuer_key ks kid = Inr k" for r ks kid k m s h
  proof -
    have "key_wf (ik_key k)" using issuer_keys_from_wf [OF that(1)] select_issuer_key_ok [OF that(2)] by simp
    from verify_jose_total [OF this] obtain b where "verify_jose C (ik_key k) m s h = Inr b" by blast
    then show ?thesis by simp
  qed
  have select: "?aitp (select_issuer_key ks kid)" for ks kid
    by (auto simp: select_issuer_key_def Let_def intro!: aitp_intros)
  have oidc: "?aitp (verify_oidc C d env self_aid anch keys now)" for d
    unfolding verify_oidc_def check_oidc_claims_def Let_def
    by (intro aitp_intros keys select binding times) (auto simp: catchE_retryable_ok key_resolution_failed_def intro: jose)
  have caught: "fails_in (\<lambda>e. pinned_caught e \<or> is_aitp e \<or> e \<in> set [DuplicateExtension]) (pinned_key_checks C d env self_aid ts)" for d
  proof -
    have read: "fails_in (\<lambda>e. pinned_caught e \<or> is_aitp e \<or> e \<in> set [DuplicateExtension]) m"
      if "fails_in reading_err m" for m :: "'z res"
      by (rule fails_in_weaken [OF that]) (auto simp: reading_err_def pinned_caught_def)
    have aid: "fails_in reading_err (parse_aid C s)" for s
      by (rule fails_inI) (auto dest: parse_aid_err simp: reading_err_def)
    have sig: "fails_in (\<lambda>e. pinned_caught e \<or> is_aitp e \<or> e \<in> set [DuplicateExtension])
        (decode_tagged_signature s k ''IDENTITY_FAILED'')" for s k
      unfolding decode_tagged_signature_def by (rule fails_in_weaken [OF decode_tagged_err]) simp
    show ?thesis
      unfolding pinned_key_checks_def Let_def
      by (intro fails_intros sig reading_errs [THEN read] aid [THEN read] proof_input_err [THEN read]) simp_all
  qed
  have pinned: "?aitp (verify_pinned_key C d env self_aid ts)" for d
  proof -
    have "?aitp (catchE pinned_caught (pinned_key_checks C d env self_aid ts) (\<lambda>_. identity_failed))"
      using caught [of d] by (intro aitp_or_catchE) (auto simp: fails_in_def)
    moreover have "\<exists>s. parse_aid C s = Inr sender" if "pinned_key_checks C d env self_aid ts = Inr (sender, inp, sig)"
      for sender inp sig
      using that unfolding pinned_key_checks_ok by blast
    ultimately show ?thesis
      unfolding verify_pinned_key_def
      by (auto intro!: aitp_intros simp: catchE_raise_ok intro: verify_digest_aitp)
  qed
  show ?thesis
    unfolding verify_identity_def Let_def
    by (intro aitp_intros spiffe oidc pinned)
qed

section \<open>Properties\<close>

text \<open>
  C7. An accepted OIDC binding rests on a token of a trusted issuer, signed under the algorithm
  of one of that issuer's own keys and not under one the token brings along; its claims name this
  issuer and subject, this verifier, a live time window, this message's nonce and the key of the
  sender's AID.
\<close>

theorem oidc_sound:
  assumes "verify_identity C V v env self_aid anch ts keys now bundles = Inr ()"
    and "get (the_dict v) (u ''type'') = PStr (u ''oidc'')"
  shows "\<exists>issuer p alg cands key exp iat n s a jkt.
    get (the_dict v) (u ''issuer'') = PStr issuer \<and> issuer \<in> set anch \<and>
    parse_compact (get_or (PStr []) (the_dict v) (u ''proof'')) ''IDENTITY_FAILED'' = Inr p \<and>
    (\<forall>f. f \<in> set FORBIDDEN_HEADER_PARAMS \<longrightarrow> \<not> has (header p) f) \<and>
    get (header p) (u ''alg'') = PStr alg \<and> alg \<in> set ALLOWED_OIDC_ALGS \<and>
    issuer_keys_from C (if is_dict keys then get (the_dict keys) issuer else PNone) = Inr cands \<and>
    key \<in> set cands \<and> ik_jose_alg key = alg \<and>
    verify_jose C (ik_key key) (signing_input p) (signature p) True = Inr True \<and>
    get (claims p) (u ''iss'') = PStr issuer \<and>
    py_eq (get (claims p) (u ''sub'')) (get (the_dict v) (u ''subject'')) \<and>
    get (claims p) (u ''exp'') = PInt exp \<and> now < exp \<and>
    get (claims p) (u ''iat'') = PInt iat \<and> \<bar>now - iat\<bar> \<le> IAT_TOLERANCE_SECS \<and>
    (get (claims p) (u ''aud'') \<noteq> PNone \<and> (truthy self_aid \<longrightarrow> py_eq (get (claims p) (u ''aud'')) self_aid)) \<and>
    pop_nonce_of env = Inr n \<and> n \<noteq> PNone \<and> py_eq (get (claims p) (u ''nonce'')) n \<and>
    agent_id_of env = Inr (PStr s) \<and> parse_aid C s = Inr a \<and> thumbprint a = Inr jkt \<and> jkt_of (claims p) = PStr jkt"
proof -
  have run: "verify_oidc C (the_dict v) env self_aid anch keys now = Inr ()"
    using assms verify_identity_oidc by blast
  let ?iss = "the_str (get (the_dict v) (u ''issuer''))"
  from run obtain p cands key where issuer: "is_str (get (the_dict v) (u ''issuer''))" "?iss \<in> set anch"
    and p: "parse_compact (get_or (PStr []) (the_dict v) (u ''proof'')) ''IDENTITY_FAILED'' = Inr p"
      "\<not> list_ex (has (header p)) FORBIDDEN_HEADER_PARAMS"
    and alg: "is_str (get (header p) (u ''alg''))" "the_str (get (header p) (u ''alg'')) \<in> set ALLOWED_OIDC_ALGS"
    and key: "issuer_keys_from C (if is_dict keys then get (the_dict keys) ?iss else PNone) = Inr cands"
      "select_issuer_key cands (get (header p) (u ''kid'')) = Inr key" "PStr (ik_jose_alg key) = get (header p) (u ''alg'')"
      "verify_jose C (ik_key key) (signing_input p) (signature p) True = Inr True"
    and cl: "check_oidc_claims C (claims p) ?iss (the_dict v) env self_aid now = Inr ()"
    unfolding verify_oidc_def Let_def bindE_ok ensure_raise_ok key_resolution_failed_def catchE_retryable_ok ensure_retryable_ok
    by (elim exE conjE) (rule that, (assumption | simp)+)
  obtain iss where iss: "get (the_dict v) (u ''issuer'') = PStr iss" using issuer(1) by (auto simp: is_str_iff)
  obtain exp iat n s a jkt where c: "get (claims p) (u ''iss'') = PStr iss" "py_eq (get (claims p) (u ''sub'')) (get (the_dict v) (u ''subject''))"
      "get (claims p) (u ''exp'') = PInt exp" "now < exp" "get (claims p) (u ''iat'') = PInt iat" "\<bar>now - iat\<bar> \<le> IAT_TOLERANCE_SECS"
      "get (claims p) (u ''aud'') \<noteq> PNone" "truthy self_aid \<longrightarrow> py_eq (get (claims p) (u ''aud'')) self_aid"
      "pop_nonce_of env = Inr n" "n \<noteq> PNone" "py_eq (get (claims p) (u ''nonce'')) n"
      "agent_id_of env = Inr (PStr s)" "parse_aid C s = Inr a" "thumbprint a = Inr jkt" "jkt_of (claims p) = PStr jkt"
    using cl unfolding check_oidc_claims_def Let_def bindE_ok ensure_raise_ok check_exp_iat_ok check_nonce_binding_ok
      check_key_binding_ok iss the_str.simps
    by (elim exE conjE) (rule that, (assumption | blast)+)
  have forb: "\<forall>f. f \<in> set FORBIDDEN_HEADER_PARAMS \<longrightarrow> \<not> has (header p) f" using p(2) by (auto simp: list_ex_iff)
  have member: "key \<in> set cands" using select_issuer_key_ok [OF key(2)] by simp
  have algs: "ik_jose_alg key \<in> set ALLOWED_OIDC_ALGS" using alg(2) key(3) [symmetric] by simp
  show ?thesis
    by (intro exI [of _ iss] exI [of _ p] exI [of _ "ik_jose_alg key"] exI [of _ cands] exI [of _ key] exI [of _ exp]
        exI [of _ iat] exI [of _ n] exI [of _ s] exI [of _ a] exI [of _ jkt] conjI)
      (rule iss issuer(2) [unfolded iss the_str.simps] p(1) forb key(3) [symmetric] algs key(1) [unfolded iss the_str.simps]
        member refl key(4) c)+
qed

text \<open>
  C8. An accepted pinned-key binding: the descriptor's key is the sender AID's own key, the pair
  of algorithm and key is in the local trust store, and that key signed the five-field proof input
  of this message.
\<close>

theorem pinned_key_sound:
  assumes "verify_identity C V v env self_aid anch ts keys now bundles = Inr ()"
    and "get (the_dict v) (u ''type'') = PStr (u ''pinned_key'')"
  shows "\<not> has (the_dict v) (u ''issuer'') \<and>
    (\<exists>pub agent sender inp sig. get (the_dict v) (u ''public_key'') = PStr pub \<and> agent_id_of env = Inr agent \<and>
       parse_aid C (py_str agent) = Inr sender \<and> b64url_decode pub = Inr (raw_key sender) \<and>
       (\<exists>e \<in> set (the_list ts). trust_store_entry C e = Some (aid_alg sender, raw_key sender)) \<and>
       message_proof_input PINNED_KEY_DOMAIN env self_aid = Inr inp \<and>
       decode_tagged_signature (get (the_dict v) (u ''proof'')) sender ''IDENTITY_FAILED'' = Inr sig \<and>
       verify_digest C (aid_key sender) (sha256 inp) sig = Inr True)"
proof -
  have run: "verify_pinned_key C (the_dict v) env self_aid ts = Inr ()"
    using assms verify_identity_pinned by blast
  then obtain sender inp sig where no: "\<not> has (the_dict v) (u ''issuer'')"
    and checks: "pinned_key_checks C (the_dict v) env self_aid ts = Inr (sender, inp, sig)"
    and good: "verify_digest C (aid_key sender) (sha256 inp) sig = Inr True"
    by (auto simp: verify_pinned_key_def bindE_ok ensure_raise_ok catchE_raise_ok)
  have store: "(a, k) \<in> set (trusted_keys C es) \<longleftrightarrow> (\<exists>e \<in> set es. trust_store_entry C e = Some (a, k))" for a k es
    by (induction es) (auto simp: trusted_keys_def split: option.split)
  show ?thesis
    using no good checks unfolding pinned_key_checks_ok trusted_keys_member by blast
qed

section \<open>Sample bindings\<close>

definition oidc_claims :: dict where
  "oidc_claims =
     [(u ''aud'', PStr peer_aid), (u ''cnf'', PDict [(u ''jkt'', PStr (sample_jkt (replicate 32 0)))]),
      (u ''exp'', PInt (REFERENCE_CLOCK + 60)), (u ''iat'', PInt REFERENCE_CLOCK), (u ''iss'', PStr (u ''https://idp'')),
      (u ''nonce'', PStr sample_sig), (u ''sub'', PStr (u ''agent''))]"

definition oidc_identity :: dict where
  "oidc_identity =
     [(u ''type'', PStr (u ''oidc'')), (u ''issuer'', PStr (u ''https://idp'')), (u ''subject'', PStr (u ''agent'')),
      (u ''proof'', sample_token (u ''JWT'') oidc_claims)]"

definition oidc_keys :: pyval where
  "oidc_keys = PDict [(u ''https://idp'', PStr (b64url_encode (replicate 32 0)))]"

lemma oidc_canonical: "canonical_object oidc_claims"
proof -
  have "sorted (map utf16_key (map fst oidc_claims))"
    by (simp add: oidc_claims_def) code_simp
  then have "canon (PDict oidc_claims) = PDict oidc_claims"
    by (simp only: canon_sorted) (simp add: oidc_claims_def canon_sorted)
  moreover have "plain (PDict oidc_claims)" by (simp add: oidc_claims_def REFERENCE_CLOCK_def)
  ultimately show ?thesis
    by (simp add: canonical_object_def del: canon.simps plain.simps) (simp add: oidc_claims_def)
qed

lemma sample_oidc_in:
  assumes env: "agent_id_of env = Inr (PStr sample_aid)" "pop_nonce_of env = Inr (PStr sample_sig)"
  shows "verify_identity sample_crypto V (PDict oidc_identity) env (PStr peer_aid) [u ''https://idp''] PNone oidc_keys
     REFERENCE_CLOCK PNone = Inr ()"
proof -
  obtain inp where tok: "\<And>c. parse_compact (sample_token (u ''JWT'') oidc_claims) c =
      Inr \<lparr>header = sample_header (u ''JWT''), claims = oidc_claims, signing_input = inp, signature = replicate 64 0\<rparr>"
    using compact_text_parse [OF canonical_sample_header [of "u ''JWT''"] oidc_canonical] by (auto simp: sample_token_def)
  have key: "issuer_keys_from sample_crypto (PStr (b64url_encode (replicate 32 0))) =
      Inr [\<lparr>ik_kid = None, ik_jose_alg = u ''EdDSA'',
        ik_key = \<lparr>pk_alg = ALG_ED25519, pk_key = Ed_key (replicate 32 0)\<rparr>\<rparr>]"
    by (simp add: issuer_keys_from_def issuer_keys_walk.simps visit_key_def MAX_NODES_VISITED_def MAX_DEPTH_def reserve_def
        MAX_CANDIDATES_def issuer_key_from_config_def b64url_encode_length b64url_decode_encode from_raw_def sample_crypto_def)
  have cl: "check_oidc_claims sample_crypto oidc_claims (u ''https://idp'') oidc_identity env (PStr peer_aid)
      REFERENCE_CLOCK = Inr ()"
    using env by (simp add: check_oidc_claims_def Let_def check_exp_iat_def IAT_TOLERANCE_SECS_def check_nonce_binding_def
        dict_get_def get_or_def check_key_binding_ok jkt_of_def oidc_claims_def oidc_identity_def)
  have "verify_oidc sample_crypto oidc_identity env (PStr peer_aid) [u ''https://idp''] oidc_keys REFERENCE_CLOCK = Inr ()"
    using tok key cl
    by (simp add: verify_oidc_def Let_def)
      (simp add: oidc_identity_def oidc_keys_def sample_header_def FORBIDDEN_HEADER_PARAMS_def ALLOWED_OIDC_ALGS_def
        select_issuer_key_def get_or_def)
  then show ?thesis
    by (simp add: verify_identity_oidc oidc_identity_def reject_unknown_fields_def IDENTITY_FIELDS_def SPIFFE_ONLY_FIELDS_def)
qed

lemma sample_oidc:
  "verify_identity sample_crypto V (PDict oidc_identity) spiffe_envelope (PStr peer_aid) [u ''https://idp''] PNone oidc_keys
     REFERENCE_CLOCK PNone = Inr ()"
  by (rule sample_oidc_in)
    (simp_all add: agent_id_of_def pop_nonce_of_def subscript_def item_def sample_envelope_def spiffe_envelope_def)

lemma oidc_sound_witness:
  "\<exists>p. parse_compact (sample_token (u ''JWT'') oidc_claims) ''IDENTITY_FAILED'' = Inr p \<and>
     get (claims p) (u ''iss'') = PStr (u ''https://idp'')"
  using oidc_sound [OF sample_oidc] by (auto simp: oidc_identity_def get_or_def)

definition pinned_identity :: dict where
  "pinned_identity =
     [(u ''type'', PStr (u ''pinned_key'')), (u ''public_key'', PStr (b64url_encode (replicate 32 0))),
      (u ''proof'', PStr sample_sig)]"

lemma sample_pinned:
  "verify_identity sample_crypto V (PDict pinned_identity) spiffe_envelope (PStr peer_aid) [] (PList [PStr sample_aid]) PNone
     REFERENCE_CLOCK PNone = Inr ()"
proof -
  obtain inp where inp: "message_proof_input PINNED_KEY_DOMAIN spiffe_envelope (PStr peer_aid) = Inr inp"
    using sample_message_proof [of PINNED_KEY_DOMAIN] by blast
  have entry: "trust_store_entry sample_crypto (PStr sample_aid) = Some (ALG_ED25519, replicate 32 0)"
  proof -
    have "sample_aid = u ''aid:'' @ (u ''pubkey:'' @ b64url_encode (replicate 32 0))"
      by (simp add: sample_aid_def ed_aid_def flip: append_assoc u_append)
    then have "strip_prefix (u ''aid:'') sample_aid = Some (u ''pubkey:'' @ b64url_encode (replicate 32 0))"
      by (simp only: strip_prefix_Some)
    then show ?thesis by (simp add: trust_store_entry_def del: strip_prefix_Some)
  qed
  have "pinned_key_checks sample_crypto pinned_identity spiffe_envelope (PStr peer_aid) (PList [PStr sample_aid]) =
      Inr (sample_key (replicate 32 0), inp, replicate 64 0)"
    unfolding pinned_key_checks_ok using inp entry
    by (auto simp: pinned_identity_def agent_id_of_def spiffe_envelope_def item_def subscript_def sample_envelope_def
        trusted_keys_def b64url_encode_length b64url_decode_encode)
  then show ?thesis
    by (simp add: verify_identity_pinned pinned_identity_def reject_unknown_fields_def IDENTITY_FIELDS_def
        SPIFFE_ONLY_FIELDS_def verify_pinned_key_def)
qed

lemma pinned_key_sound_witness:
  "\<exists>sender. parse_aid sample_crypto sample_aid = Inr sender \<and>
     trust_store_entry sample_crypto (PStr sample_aid) = Some (aid_alg sender, raw_key sender)"
  using pinned_key_sound [OF sample_pinned]
  by (auto simp: pinned_identity_def agent_id_of_def spiffe_envelope_def item_def subscript_def sample_envelope_def)

end
