(* ===== verification/Tct.thy ===== *)
theory Tct
  imports Identity Revocation
begin

text \<open>
  \<open>aitp_verifier/tct.py\<close>: trust-carrying tokens. The claims gate that three components share,
  the grant-context rule, the relying-party, issuer-side and attestation verifiers, and the
  revocation decision of a token, which runs strictly last. \<open>aitp_verifier/voucher.py\<close>: grant
  vouchers, the same shape of check for another token type.
\<close>

section \<open>The claims gate\<close>

definition TCT_CLAIM_FIELDS :: "ustr list" where
  "TCT_CLAIM_FIELDS =
     map u [''ver'', ''jti'', ''iss'', ''sub'', ''aud'', ''iat'', ''exp'', ''grants'', ''cnf'', ''ext'']"

definition TCT_CNF_FIELDS :: "ustr list" where
  "TCT_CNF_FIELDS = [u ''jkt'']"

definition is_lower_hex :: "nat \<Rightarrow> bool" where
  "is_lower_hex c \<longleftrightarrow> is_digit c \<or> (97 \<le> c \<and> c \<le> 102)"

text \<open>\<open>_JTI_V4.fullmatch\<close>\<close>

definition jti_v4 :: "ustr \<Rightarrow> bool" where
  "jti_v4 s \<longleftrightarrow>
     map length (split_on 45 s) = [8, 4, 4, 4, 12] \<and> list_all (list_all is_lower_hex) (split_on 45 s) \<and>
     hd (split_on 45 s ! 2) = 52 \<and> hd (split_on 45 s ! 3) \<in> {56, 57, 97, 98}"

definition ATTESTATION_MARKER :: ustr where
  "ATTESTATION_MARKER = u ''aitp.attestation''"

definition TCT_REQUIRED_CLAIMS :: "ustr list" where
  "TCT_REQUIRED_CLAIMS =
     map u [''ver'', ''jti'', ''iss'', ''sub'', ''aud'', ''iat'', ''exp'', ''grants'', ''cnf'']"

definition TCT_CLAIM_TYPES :: "(ustr \<times> jtype list) list" where
  "TCT_CLAIM_TYPES =
     [(u ''ver'', [TStr]), (u ''jti'', [TStr]), (u ''iss'', [TStr]), (u ''sub'', [TStr]), (u ''aud'', [TStr]),
      (u ''iat'', [TInt]), (u ''exp'', [TInt]), (u ''grants'', [TList]), (u ''cnf'', [TDict])]"

definition check_tct_claims_shape :: "string \<Rightarrow> dict \<Rightarrow> unit res" where
  "check_tct_claims_shape code cl =
     bindE (require_members TCT_REQUIRED_CLAIMS code cl) (\<lambda>_.
     bindE (check_types TCT_CLAIM_TYPES code cl) (\<lambda>_.
     ensure (list_all is_str (the_list (get cl (u ''grants'')))) (raise code) (
     bindE (reject_unknown_fields TCT_CLAIM_FIELDS code (PDict cl)) (\<lambda>_.
     bindE (reject_unknown_fields TCT_CNF_FIELDS code (get cl (u ''cnf''))) (\<lambda>_.
     ensure (jti_v4 (the_str (get cl (u ''jti'')))) (raise code) (Inr ()))))))"

definition check_grant_context :: "string \<Rightarrow> dict \<Rightarrow> unit res" where
  "check_grant_context code cl =
     ensure (get cl (u ''iss'') \<noteq> get cl (u ''sub'')) (raise code) (
     ensure (PStr ATTESTATION_MARKER \<notin> set (the_list (get cl (u ''grants'')))) (raise code) (Inr ()))"

section \<open>Revocation of a token\<close>

definition apply_absence :: "fail_mode \<Rightarrow> unit res" where
  "apply_absence m = ensure (m \<noteq> Fail_closed) (raise ''TCT_REVOKED'') (Inr ())"

definition check_revocation :: "crypto \<Rightarrow> dict \<Rightarrow> dict \<Rightarrow> int \<Rightarrow> unit res" where
  "check_revocation C cl inp now =
     (let mode = policy_fail_mode inp; revlist = get inp (u ''issuer_revocation_list'') in
      if \<not> is_dict revlist then apply_absence mode
      else
        (case verify_snapshot_trust C (get (the_dict revlist) (u ''snapshot'')) of
           Inl e \<Rightarrow> (if is_aitp e then apply_absence mode else Inl e)
         | Inr body \<Rightarrow>
             if \<not> py_eq (get body (u ''issuer'')) (get cl (u ''iss'')) then apply_absence mode
             else
               bindE (snapshot_is_stale body (policy_of inp) now) (\<lambda>stale.
               if stale then apply_absence mode
               else ensure (\<not> on_deny_list (get cl (u ''jti'')) body) (raise ''TCT_REVOKED'') (Inr ()))))"

section \<open>Relying party\<close>

text \<open>The manifest is the caller's: its \<open>expires_at\<close> is read as it comes.\<close>

definition outlives_manifest :: "dict \<Rightarrow> pyval \<Rightarrow> bool res" where
  "outlives_manifest cl manifest =
     bindE (py_int (get cl (u ''exp''))) (\<lambda>exp.
     bindE (subscript manifest (u ''expires_at'')) (\<lambda>v.
     bindE (py_int v) (\<lambda>expires_at. Inr (expires_at < exp))))"

definition check_manifest_cap :: "dict \<Rightarrow> pyval \<Rightarrow> unit res" where
  "check_manifest_cap cl manifest =
     (if manifest = PNone then Inr ()
      else bindE (outlives_manifest cl manifest) (\<lambda>late.
        ensure (\<not> late) (raise ''TCT_EXPIRES_AFTER_MANIFEST'') (Inr ())))"

text \<open>\<open>parse_compact(token).claims.get("iss")\<close>, read before any verification.\<close>

definition peek_iss :: "pyval \<Rightarrow> string \<Rightarrow> pyval res" where
  "peek_iss token code = bindE (parse_compact token code) (\<lambda>p. Inr (get (claims p) (u ''iss'')))"

text \<open>The token check all TCT verifiers share: \<open>typ\<close>, then the claims gate, then \<open>alg\<close> and signature.\<close>

definition verify_tct_jws :: "crypto \<Rightarrow> pyval \<Rightarrow> ustr \<Rightarrow> (dict \<Rightarrow> unit res) \<Rightarrow> dict res" where
  "verify_tct_jws C token iss after =
     verify_jws C token iss (u ''aitp-tct+jwt'') ''TOKEN_TYP_MISMATCH'' ''TOKEN_ALG_MISMATCH''
       ''TCT_SIGNATURE_INVALID'' after"

definition tct_gate :: "dict \<Rightarrow> unit res" where
  "tct_gate = check_tct_claims_shape ''TCT_SIGNATURE_INVALID''"

text \<open>\<open>cnf.jkt\<close> is the thumbprint of the key in the subject's AID.\<close>

definition check_cnf_binding :: "crypto \<Rightarrow> dict \<Rightarrow> unit res" where
  "check_cnf_binding C cl =
     bindE (catchE is_value_error (parse_aid C (py_str (get cl (u ''sub'')))) (\<lambda>_. raise ''TCT_SIGNATURE_INVALID''))
       (\<lambda>sub_aid.
     bindE (thumbprint sub_aid) (\<lambda>jkt.
     ensure (jkt_of cl = PStr jkt) (raise ''TCT_CNF_MISMATCH'') (Inr ())))"

definition grants_verdict :: "dict \<Rightarrow> pyval" where
  "grants_verdict cl = PDict [(u ''grants'', get cl (u ''grants''))]"

definition verify_tct :: "crypto \<Rightarrow> dict \<Rightarrow> int \<Rightarrow> pyval res" where
  "verify_tct C inp now =
     bindE (item inp (u ''tct_token'')) (\<lambda>token.
     bindE (peek_iss token ''TCT_SIGNATURE_INVALID'') (\<lambda>iss.
     bindE (verify_tct_jws C token (py_str iss) tct_gate) (\<lambda>cl.
     ensure (get cl (u ''ver'') = PStr PROTOCOL_VERSION) (raise ''UNKNOWN_VERSION'') (
     let expected_aud = get inp (u ''expected_audience'') in
     ensure (\<not> (expected_aud \<noteq> PNone \<and> \<not> py_eq (get cl (u ''aud'')) expected_aud)) (raise ''AUDIENCE_MISMATCH'') (
     bindE (py_int (get cl (u ''exp''))) (\<lambda>exp.
     ensure (now < exp) (raise ''TCT_EXPIRED'') (
     bindE (check_grant_context ''TCT_SIGNATURE_INVALID'' cl) (\<lambda>_.
     bindE (check_cnf_binding C cl) (\<lambda>_.
     bindE (check_manifest_cap cl (get inp (u ''issuer_manifest''))) (\<lambda>_.
     bindE (check_revocation C cl inp now) (\<lambda>_.
       Inr (grants_verdict cl))))))))))))"

section \<open>Issuer side\<close>

text \<open>The live challenges that the response echoes.\<close>

definition matching_challenges :: "pyval list \<Rightarrow> pyval \<Rightarrow> pyval \<Rightarrow> dict list" where
  "matching_challenges challenges jti nonce_echo =
     map the_dict (filter (\<lambda>c. is_dict c \<and> py_eq (get (the_dict c) (u ''tct_jti'')) jti \<and>
       py_eq (get (the_dict c) (u ''nonce'')) nonce_echo) challenges)"

definition presenter_from_pop :: "crypto \<Rightarrow> dict \<Rightarrow> dict \<Rightarrow> int \<Rightarrow> ustr res" where
  "presenter_from_pop C inp cl now =
     bindE (catchE (\<lambda>e. is_aitp e \<or> is_value_error e)
              (bindE (item inp (u ''envelope'')) (\<lambda>v.
               bindE (validate_envelope_shape v) (\<lambda>env.
               bindE (parse_aid C (sender_agent_id env)) (\<lambda>sender. Inr (env, sender)))))
              (\<lambda>_. raise ''POP_RESPONSE_INVALID'')) (\<lambda>(env, sender).
     let payload = the_dict (get env (u ''payload'')) in
     ensure (get env (u ''message_type'') = PStr (u ''pop_response'') \<and>
             list_all (\<lambda>k. is_str (get payload (u k))) [''tct_jti'', ''nonce_echo'', ''pop_signature''])
       (raise ''POP_RESPONSE_INVALID'') (
     bindE (decode_tagged_signature (get env (u ''signature'')) sender ''POP_RESPONSE_INVALID'') (\<lambda>raw.
     bindE (envelope_signing_input env) (\<lambda>b.
     bindE (verify_digest C (aid_key sender) (sha256 b) raw) (\<lambda>good.
     ensure good (raise ''POP_RESPONSE_INVALID'') (
     bindE (item cl (u ''jti'')) (\<lambda>jti.
     ensure (get payload (u ''tct_jti'') = jti) (raise ''POP_RESPONSE_INVALID'') (
     bindE (py_iter (py_or (get inp (u ''outstanding_pop_challenges'')) (PList []))) (\<lambda>outstanding.
     let challenges = matching_challenges outstanding jti (get payload (u ''nonce_echo'')) in
     ensure (challenges \<noteq> []) (raise ''POP_RESPONSE_INVALID'') (
     let challenge = hd challenges; expires_at = get challenge (u ''expires_at'') in
     ensure (is_int expires_at \<and> now < the_int expires_at) (raise ''POP_CHALLENGE_INVALID'') (
     bindE (catchE is_value_error (b64url_decode (the_str (get challenge (u ''nonce''))))
              (\<lambda>_. raise ''POP_CHALLENGE_INVALID'')) (\<lambda>nonce.
     bindE (item cl (u ''sub'')) (\<lambda>sub.
     bindE (parse_aid_value C sub) (\<lambda>sub_aid.
     bindE (decode_tagged_signature (get payload (u ''pop_signature'')) sub_aid ''POP_RESPONSE_INVALID'') (\<lambda>sig.
     bindE (verify_digest C (aid_key sub_aid) (sha256 nonce) sig) (\<lambda>good.
     ensure good (raise ''POP_RESPONSE_INVALID'') (Inr (the_str sub))))))))))))))))))"

definition verify_tct_as_issuer :: "crypto \<Rightarrow> dict \<Rightarrow> int \<Rightarrow> pyval res" where
  "verify_tct_as_issuer C inp now =
     bindE (item inp (u ''tct_token'')) (\<lambda>token.
     bindE (item inp (u ''self_aid'')) (\<lambda>self_aid.
     bindE (peek_iss token ''TCT_SIGNATURE_INVALID'') (\<lambda>iss.
     ensure (py_eq iss self_aid) (raise ''TCT_SIGNATURE_INVALID'') (
     bindE (verify_tct_jws C token (py_str self_aid) tct_gate) (\<lambda>cl.
     ensure (get cl (u ''ver'') = PStr PROTOCOL_VERSION) (raise ''UNKNOWN_VERSION'') (
     ensure (get cl (u ''aud'') = get cl (u ''sub'')) (raise ''TCT_SIGNATURE_INVALID'') (
     bindE (py_int (get cl (u ''exp''))) (\<lambda>exp.
     ensure (now < exp) (raise ''TCT_EXPIRED'') (
     bindE (check_grant_context ''TCT_SIGNATURE_INVALID'' cl) (\<lambda>_.
     bindE (check_cnf_binding C cl) (\<lambda>_.
     bindE (if get inp (u ''envelope'') \<noteq> PNone then
              bindE (presenter_from_pop C inp cl now) (\<lambda>s. Inr (PStr s))
            else if get inp (u ''channel_bound_aid'') \<noteq> PNone then Inr (get inp (u ''channel_bound_aid''))
            else raise ''POP_RESPONSE_INVALID'') (\<lambda>presenter.
     ensure (py_eq presenter (get cl (u ''sub''))) (raise ''POP_RESPONSE_INVALID'') (
     bindE (check_revocation C cl inp now) (\<lambda>_.
       Inr (PDict [(u ''presenter_aid'', presenter), (u ''grants'', get cl (u ''grants''))])))))))))))))))"

section \<open>Attestations\<close>

definition attestation_pre_signature :: "crypto \<Rightarrow> pyval \<Rightarrow> dict \<Rightarrow> unit res" where
  "attestation_pre_signature C trust_store cl =
     bindE (tct_gate cl) (\<lambda>_.
     let issuer = trust_store_entry C (get cl (u ''iss'')) in
     bindE (py_iter (py_or trust_store (PList []))) (\<lambda>entries.
     ensure (case issuer of None \<Rightarrow> False | Some k \<Rightarrow> k \<in> set (trusted_keys C entries))
       (raise ''TCT_SIGNATURE_INVALID'') (Inr ())))"

definition verify_attestation :: "crypto \<Rightarrow> dict \<Rightarrow> int \<Rightarrow> pyval res" where
  "verify_attestation C inp now =
     bindE (item inp (u ''tct_token'')) (\<lambda>token.
     bindE (item inp (u ''expected_ext_key'')) (\<lambda>statement_key.
     let issuer_manifest = get inp (u ''issuer_manifest'') in
     ensure (\<not> (issuer_manifest = PNone \<and> get inp (u ''waive_manifest_cap'') \<noteq> PBool True)) (Inl ValueError) (
     bindE (peek_iss token ''TCT_SIGNATURE_INVALID'') (\<lambda>iss.
     bindE (verify_tct_jws C token (py_str iss) (attestation_pre_signature C (get inp (u ''trust_store'')))) (\<lambda>cl.
     ensure (get cl (u ''ver'') = PStr PROTOCOL_VERSION) (raise ''UNKNOWN_VERSION'') (
     bindE (py_int (get cl (u ''exp''))) (\<lambda>exp.
     ensure (now < exp) (raise ''TCT_EXPIRED'') (
     ensure (get cl (u ''iss'') = get cl (u ''sub'') \<and> get cl (u ''sub'') = get cl (u ''aud''))
       (raise ''TCT_SIGNATURE_INVALID'') (
     ensure (get cl (u ''grants'') = PList [PStr ATTESTATION_MARKER]) (raise ''TCT_SIGNATURE_INVALID'') (
     bindE (parse_aid C (py_str (get cl (u ''sub'')))) (\<lambda>sub_aid.
     bindE (thumbprint sub_aid) (\<lambda>jkt.
     ensure (jkt_of cl = PStr jkt) (raise ''TCT_SIGNATURE_INVALID'') (
     let ext = get cl (u ''ext'') in
     bindE (if is_dict ext then py_in statement_key ext else Inr False) (\<lambda>present.
     ensure present (raise ''TCT_SIGNATURE_INVALID'') (
     bindE (check_manifest_cap cl issuer_manifest) (\<lambda>_.
     bindE (check_revocation C cl inp now) (\<lambda>_.
       Inr (PDict [(u ''statement'', get (the_dict ext) (the_str statement_key))]))))))))))))))))))"

section \<open>Grant vouchers\<close>

definition VOUCHER_CLAIM_FIELDS :: "ustr list" where
  "VOUCHER_CLAIM_FIELDS = map u [''ver'', ''iss'', ''sub'', ''grants'', ''iat'', ''exp'', ''src_jti'', ''ext'']"

definition VOUCHER_REQUIRED_CLAIMS :: "ustr list" where
  "VOUCHER_REQUIRED_CLAIMS = map u [''ver'', ''iss'', ''sub'', ''grants'', ''iat'', ''exp'', ''src_jti'']"

definition VOUCHER_CLAIM_TYPES :: "(ustr \<times> jtype list) list" where
  "VOUCHER_CLAIM_TYPES =
     [(u ''ver'', [TStr]), (u ''iss'', [TStr]), (u ''sub'', [TStr]), (u ''grants'', [TList]),
      (u ''iat'', [TInt]), (u ''exp'', [TInt]), (u ''src_jti'', [TStr])]"

definition check_voucher_claims_shape :: "string \<Rightarrow> dict \<Rightarrow> unit res" where
  "check_voucher_claims_shape code cl =
     bindE (require_members VOUCHER_REQUIRED_CLAIMS code cl) (\<lambda>_.
     bindE (check_types VOUCHER_CLAIM_TYPES code cl) (\<lambda>_.
     ensure (list_all is_str (the_list (get cl (u ''grants'')))) (raise code) (
       reject_unknown_fields VOUCHER_CLAIM_FIELDS code (PDict cl))))"

text \<open>\<open>verify_jws\<close> without an \<open>after_typ_check\<close>\<close>

definition no_check :: "dict \<Rightarrow> unit res" where
  "no_check cl = Inr ()"

definition verify_voucher_jws :: "crypto \<Rightarrow> pyval \<Rightarrow> ustr \<Rightarrow> dict res" where
  "verify_voucher_jws C token iss =
     bindE (verify_jws C token iss (u ''aitp-grant+jwt'') ''TOKEN_TYP_MISMATCH'' ''TOKEN_ALG_MISMATCH''
              ''DELEGATION_INVALID_VOUCHER'' no_check) (\<lambda>cl.
     bindE (check_voucher_claims_shape ''DELEGATION_INVALID_VOUCHER'' cl) (\<lambda>_. Inr cl))"

definition verify_grant_voucher :: "crypto \<Rightarrow> dict \<Rightarrow> int \<Rightarrow> pyval res" where
  "verify_grant_voucher C inp now =
     bindE (item inp (u ''voucher_token'')) (\<lambda>token.
     bindE (peek_iss token ''DELEGATION_INVALID_VOUCHER'') (\<lambda>iss.
     bindE (verify_voucher_jws C token (py_str iss)) (\<lambda>cl.
     ensure (get cl (u ''ver'') = PStr PROTOCOL_VERSION) (raise ''UNKNOWN_VERSION'') (
     ensure (truthy (get cl (u ''grants''))) (raise ''DELEGATION_INVALID_VOUCHER'') (
     bindE (py_int (get cl (u ''exp''))) (\<lambda>exp.
     ensure (now < exp) (raise ''DELEGATION_EXPIRED'') (
       Inr (grants_verdict cl))))))))"

section \<open>Facts\<close>

text \<open>The typed view of claims that passed the gate\<close>

definition numeric :: "pyval \<Rightarrow> bool" where
  "numeric v \<longleftrightarrow> is_int v \<or> is_integral_float v"

definition tct_shaped :: "dict \<Rightarrow> bool" where
  "tct_shaped cl \<longleftrightarrow>
     is_str (get cl (u ''ver'')) \<and> is_str (get cl (u ''jti'')) \<and> is_str (get cl (u ''iss'')) \<and>
     is_str (get cl (u ''sub'')) \<and> is_str (get cl (u ''aud'')) \<and> numeric (get cl (u ''iat'')) \<and>
     numeric (get cl (u ''exp'')) \<and> (\<exists>gs. get cl (u ''grants'') = PList gs \<and> list_all is_str gs) \<and>
     is_dict (get cl (u ''cnf'')) \<and> jti_v4 (the_str (get cl (u ''jti''))) \<and>
     (\<forall>k. has cl k \<longrightarrow> k \<in> set TCT_CLAIM_FIELDS) \<and>
     (\<forall>k. has (the_dict (get cl (u ''cnf''))) k \<longrightarrow> k = u ''jkt'')"

lemma tct_claims_shape_ok: "check_tct_claims_shape code cl = Inr w \<Longrightarrow> tct_shaped cl"
proof -
  assume ok: "check_tct_claims_shape code cl = Inr w"
  then have req: "require_members TCT_REQUIRED_CLAIMS code cl = Inr ()"
    and tys: "check_types TCT_CLAIM_TYPES code cl = Inr ()"
    and gs: "list_all is_str (the_list (get cl (u ''grants'')))"
    and rest: "reject_unknown_fields TCT_CLAIM_FIELDS code (PDict cl) = Inr ()"
      "reject_unknown_fields TCT_CNF_FIELDS code (get cl (u ''cnf'')) = Inr ()" "jti_v4 (the_str (get cl (u ''jti'')))"
    by (simp_all add: check_tct_claims_shape_def bindE_ok ensure_raise_ok)
  note m = typed_member [OF req tys, unfolded TCT_REQUIRED_CLAIMS_def TCT_CLAIM_TYPES_def]
  have "is_str (get cl (u ''ver''))" "is_str (get cl (u ''jti''))" "is_str (get cl (u ''iss''))"
    "is_str (get cl (u ''sub''))" "is_str (get cl (u ''aud''))"
    using m [of "u ''ver''" "[TStr]"] m [of "u ''jti''" "[TStr]"] m [of "u ''iss''" "[TStr]"]
      m [of "u ''sub''" "[TStr]"] m [of "u ''aud''" "[TStr]"] by simp_all
  moreover have "numeric (get cl (u ''iat''))" "numeric (get cl (u ''exp''))"
    using m [of "u ''iat''" "[TInt]"] m [of "u ''exp''" "[TInt]"] by (simp_all add: numeric_def)
  moreover have "is_list (get cl (u ''grants''))" "is_dict (get cl (u ''cnf''))"
    using m [of "u ''grants''" "[TList]"] m [of "u ''cnf''" "[TDict]"] by simp_all
  moreover have "\<forall>k. has cl k \<longrightarrow> k \<in> set TCT_CLAIM_FIELDS"
    "\<forall>k. has (the_dict (get cl (u ''cnf''))) k \<longrightarrow> k = u ''jkt''"
    using rest(1,2) calculation by (auto simp: reject_unknown_fields_ok TCT_CNF_FIELDS_def is_dict_iff)
  ultimately show ?thesis
    using gs rest(3) by (auto simp: tct_shaped_def is_list_iff)
qed

lemma tct_gate_ok: "tct_gate cl = Inr w \<Longrightarrow> tct_shaped cl"
  unfolding tct_gate_def by (rule tct_claims_shape_ok)

lemma numeric_py_int: "numeric v \<Longrightarrow> \<exists>i. py_int v = Inr i"
  unfolding numeric_def by (rule int_value_py_int)

lemma tct_shaped_exp: "tct_shaped cl \<Longrightarrow> \<exists>i. py_int (get cl (u ''exp'')) = Inr i"
  by (simp add: tct_shaped_def numeric_py_int)

lemma check_grant_context_ok [ok_simps]:
  "check_grant_context c cl = Inr w \<longleftrightarrow>
     get cl (u ''iss'') \<noteq> get cl (u ''sub'') \<and> PStr ATTESTATION_MARKER \<notin> set (the_list (get cl (u ''grants'')))"
  by (auto simp: check_grant_context_def ensure_raise_ok)

lemma check_cnf_binding_ok [ok_simps]:
  "check_cnf_binding C cl = Inr w \<longleftrightarrow>
     (\<exists>a jkt. parse_aid C (py_str (get cl (u ''sub''))) = Inr a \<and> thumbprint a = Inr jkt \<and> jkt_of cl = PStr jkt)"
  by (auto simp: check_cnf_binding_def bindE_ok ensure_raise_ok catchE_raise_ok)

lemma check_manifest_cap_ok [ok_simps]:
  "check_manifest_cap cl v = Inr w \<longleftrightarrow>
     (v \<noteq> PNone \<longrightarrow> (\<exists>m x e. subscript v (u ''expires_at'') = Inr m \<and> py_int m = Inr x \<and>
        py_int (get cl (u ''exp'')) = Inr e \<and> e \<le> x))"
  by (auto simp: check_manifest_cap_def outlives_manifest_def ok_simps)

text \<open>The issuer read before verification is the issuer of the verified claims.\<close>

lemma peek_iss_signed:
  assumes "peek_iss token c = Inr v" and "jws_signed C token s ty cl"
  shows "v = get cl (u ''iss'')"
proof -
  obtain p where "parse_compact token c = Inr p" "claims p = cl" using jws_signed_parse [OF assms(2)] by blast
  then show ?thesis using assms(1) by (simp add: peek_iss_def)
qed

text \<open>A token whose \<open>iss\<close> claim is the AID that signed it, with the claims of a TCT\<close>

definition tct_signed :: "crypto \<Rightarrow> pyval \<Rightarrow> dict \<Rightarrow> bool" where
  "tct_signed C token cl \<longleftrightarrow>
     tct_shaped cl \<and> jws_signed C token (the_str (get cl (u ''iss''))) (u ''aitp-tct+jwt'') cl"

lemma verify_tct_jws_ok:
  assumes "peek_iss token c = Inr v" and "verify_tct_jws C token (py_str v) after = Inr cl"
    and "\<And>cl. after cl = Inr () \<Longrightarrow> tct_shaped cl"
  shows "tct_signed C token cl" and "after cl = Inr ()"
proof -
  have s: "jws_signed C token (py_str v) (u ''aitp-tct+jwt'') cl" and after: "after cl = Inr ()"
    using assms(2) by (simp_all add: verify_tct_jws_def verify_jws_signed)
  have "v = get cl (u ''iss'')" using peek_iss_signed [OF assms(1) s] .
  moreover have "tct_shaped cl" using assms(3) [OF after] .
  ultimately show "tct_signed C token cl"
    using s by (auto simp: tct_signed_def tct_shaped_def is_str_iff)
  show "after cl = Inr ()" by (rule after)
qed

lemma tct_signed_unique: "tct_signed C token cl \<Longrightarrow> tct_signed C' token cl' \<Longrightarrow> cl = cl'"
  unfolding tct_signed_def jws_signed_def by auto

lemma fail_closed_iff:
  "policy_fail_mode inp = Fail_closed \<longleftrightarrow>
     get (policy_of inp) (u ''fail_mode'') \<notin> {PStr (u ''fail_open''), PStr (u ''soft_fail'')}"
  by (cases "has (policy_of inp) (u ''fail_mode'')")
    (auto simp: policy_fail_mode_def resolve_fail_mode_def get_or_def has_def split: option.splits dest: map_of_SomeD)

text \<open>When the revocation decision lets a token pass\<close>

lemma check_revocation_ok:
  "check_revocation C cl inp now = Inr () \<longleftrightarrow>
     (\<exists>rl body. get inp (u ''issuer_revocation_list'') = PDict rl \<and>
        verify_snapshot_trust C (get rl (u ''snapshot'')) = Inr body \<and>
        py_eq (get body (u ''issuer'')) (get cl (u ''iss'')) \<and>
        snapshot_is_stale body (policy_of inp) now = Inr False \<and> \<not> on_deny_list (get cl (u ''jti'')) body) \<or>
     policy_fail_mode inp \<noteq> Fail_closed \<and>
     (\<forall>rl. get inp (u ''issuer_revocation_list'') = PDict rl \<longrightarrow>
        (case verify_snapshot_trust C (get rl (u ''snapshot'')) of
           Inl e \<Rightarrow> is_aitp e
         | Inr body \<Rightarrow> \<not> py_eq (get body (u ''issuer'')) (get cl (u ''iss'')) \<or>
             snapshot_is_stale body (policy_of inp) now = Inr True))"
proof (cases "is_dict (get inp (u ''issuer_revocation_list''))")
  case True
  then obtain rl where rl: "get inp (u ''issuer_revocation_list'') = PDict rl" by (auto simp: is_dict_iff)
  show ?thesis
  proof (cases "verify_snapshot_trust C (get rl (u ''snapshot''))")
    case (Inr body)
    obtain st where "snapshot_is_stale body (policy_of inp) now = Inr st"
      using snapshot_is_stale_total [OF trusted_snapshot_shaped [OF Inr]] by blast
    with rl Inr show ?thesis
      by (cases st) (auto simp: check_revocation_def apply_absence_def ensure_raise_ok Let_def split: if_splits)
  qed (simp add: check_revocation_def rl apply_absence_def ensure_raise_ok)
next
  case False
  then show ?thesis by (cases "get inp (u ''issuer_revocation_list'')") (simp_all add: check_revocation_def apply_absence_def ensure_raise_ok)
qed

text \<open>What an accepted token is, for the properties below\<close>

lemma tct_accepted:
  assumes "verify_tct C inp now = Inr verdict"
  shows "\<exists>cl. tct_signed C (get inp (u ''tct_token'')) cl \<and> get cl (u ''iss'') \<noteq> get cl (u ''sub'') \<and>
    PStr ATTESTATION_MARKER \<notin> set (the_list (get cl (u ''grants''))) \<and> check_revocation C cl inp now = Inr ()"
proof -
  let ?token = "get inp (u ''tct_token'')"
  from assms obtain v cl where v: "peek_iss ?token ''TCT_SIGNATURE_INVALID'' = Inr v"
      "verify_tct_jws C ?token (py_str v) tct_gate = Inr cl"
    and "check_grant_context ''TCT_SIGNATURE_INVALID'' cl = Inr ()" "check_revocation C cl inp now = Inr ()"
    unfolding verify_tct_def Let_def item_bind_ok unfolding bindE_ok ensure_raise_ok
    by (elim exE conjE) (rule that, (assumption | simp)+)
  then show ?thesis using verify_tct_jws_ok(1) [OF v] tct_gate_ok by (auto simp: check_grant_context_ok)
qed

text \<open>The same for the other two verifiers\<close>

lemma issuer_accepted:
  assumes "verify_tct_as_issuer C inp now = Inr verdict"
  shows "\<exists>cl presenter. tct_signed C (get inp (u ''tct_token'')) cl \<and> py_eq (get cl (u ''iss'')) (get inp (u ''self_aid'')) \<and>
    get cl (u ''aud'') = get cl (u ''sub'') \<and> get cl (u ''iss'') \<noteq> get cl (u ''sub'') \<and>
    (if get inp (u ''envelope'') \<noteq> PNone then bindE (presenter_from_pop C inp cl now) (\<lambda>s. Inr (PStr s))
     else if get inp (u ''channel_bound_aid'') \<noteq> PNone then Inr (get inp (u ''channel_bound_aid''))
     else raise ''POP_RESPONSE_INVALID'') = Inr presenter \<and>
    py_eq presenter (get cl (u ''sub'')) \<and>
    verdict = PDict [(u ''presenter_aid'', presenter), (u ''grants'', get cl (u ''grants''))]"
proof -
  let ?token = "get inp (u ''tct_token'')" and ?self = "get inp (u ''self_aid'')"
  from assms obtain v cl presenter where peek: "peek_iss ?token ''TCT_SIGNATURE_INVALID'' = Inr v" "py_eq v ?self"
    and jws: "verify_tct_jws C ?token (py_str ?self) tct_gate = Inr cl"
    and aud: "get cl (u ''aud'') = get cl (u ''sub'')" and ctx: "check_grant_context ''TCT_SIGNATURE_INVALID'' cl = Inr ()"
    and presenter: "(if get inp (u ''envelope'') \<noteq> PNone then bindE (presenter_from_pop C inp cl now) (\<lambda>s. Inr (PStr s))
       else if get inp (u ''channel_bound_aid'') \<noteq> PNone then Inr (get inp (u ''channel_bound_aid''))
       else raise ''POP_RESPONSE_INVALID'') = Inr presenter" "py_eq presenter (get cl (u ''sub''))"
    and verdict: "verdict = PDict [(u ''presenter_aid'', presenter), (u ''grants'', get cl (u ''grants''))]"
    unfolding verify_tct_as_issuer_def item_bind_ok unfolding bindE_ok ensure_raise_ok
    by (elim exE conjE) (rule that, (assumption | simp)+)
  have s: "jws_signed C ?token (py_str ?self) (u ''aitp-tct+jwt'') cl" and gate: "tct_gate cl = Inr ()"
    using jws by (simp_all add: verify_tct_jws_def verify_jws_signed)
  have v: "v = get cl (u ''iss'')" using peek_iss_signed [OF peek(1) s] .
  obtain i where i: "get cl (u ''iss'') = PStr i" using tct_gate_ok [OF gate] by (auto simp: tct_shaped_def is_str_iff)
  have self: "?self = PStr i" using peek(2) by (simp add: v i py_eq_PStr_left)
  have "tct_signed C ?token cl" using s tct_gate_ok [OF gate] by (simp add: tct_signed_def self i)
  then show ?thesis
    using peek(2) aud ctx presenter verdict unfolding v check_grant_context_ok by blast
qed

lemma attestation_accepted:
  assumes "verify_attestation C inp now = Inr statement"
  shows "\<exists>cl exp key a. tct_signed C (get inp (u ''tct_token'')) cl \<and>
    attestation_pre_signature C (get inp (u ''trust_store'')) cl = Inr () \<and>
    (get inp (u ''issuer_manifest'') \<noteq> PNone \<or> get inp (u ''waive_manifest_cap'') = PBool True) \<and>
    py_int (get cl (u ''exp'')) = Inr exp \<and> now < exp \<and>
    get cl (u ''iss'') = get cl (u ''sub'') \<and> get cl (u ''sub'') = get cl (u ''aud'') \<and>
    get cl (u ''grants'') = PList [PStr ATTESTATION_MARKER] \<and> parse_aid C (py_str (get cl (u ''sub''))) = Inr a \<and>
    get inp (u ''expected_ext_key'') = key \<and> is_dict (get cl (u ''ext'')) \<and>
    py_in key (get cl (u ''ext'')) = Inr True \<and> check_revocation C cl inp now = Inr () \<and>
    statement = PDict [(u ''statement'', get (the_dict (get cl (u ''ext''))) (the_str key))]"
proof -
  let ?token = "get inp (u ''tct_token'')" and ?key = "get inp (u ''expected_ext_key'')"
  from assms obtain v cl exp a where man: "\<not> (get inp (u ''issuer_manifest'') = PNone \<and> get inp (u ''waive_manifest_cap'') \<noteq> PBool True)"
    and v: "peek_iss ?token ''TCT_SIGNATURE_INVALID'' = Inr v"
      "verify_tct_jws C ?token (py_str v) (attestation_pre_signature C (get inp (u ''trust_store''))) = Inr cl"
    and exp: "py_int (get cl (u ''exp'')) = Inr exp" "now < exp"
    and self: "get cl (u ''iss'') = get cl (u ''sub'')" "get cl (u ''sub'') = get cl (u ''aud'')"
    and gs: "get cl (u ''grants'') = PList [PStr ATTESTATION_MARKER]" and a: "parse_aid C (py_str (get cl (u ''sub''))) = Inr a"
    and ext: "(if is_dict (get cl (u ''ext'')) then py_in ?key (get cl (u ''ext'')) else Inr False) = Inr True"
    and rev: "check_revocation C cl inp now = Inr ()"
    and st: "statement = PDict [(u ''statement'', get (the_dict (get cl (u ''ext''))) (the_str ?key))]"
    unfolding verify_attestation_def Let_def item_bind_ok unfolding bindE_ok ensure_raise_ok ensure_Inl_ok
    by (elim exE conjE) (rule that, (assumption | simp)+)
  have shaped: "tct_shaped c" if "attestation_pre_signature C t c = Inr ()" for c t
    using that tct_gate_ok by (auto simp: attestation_pre_signature_def bindE_ok)
  have ext: "is_dict (get cl (u ''ext''))" "py_in ?key (get cl (u ''ext'')) = Inr True"
    using ext by (auto split: if_splits)
  show ?thesis
    by (intro exI [of _ cl] exI [of _ exp] exI [of _ ?key] exI [of _ a] conjI)
      (rule verify_tct_jws_ok [OF v shaped] exp self gs a ext rev st refl | assumption | use man in blast)+
qed

text \<open>A trust-store entry that is an AID stands for that AID's key.\<close>

lemma trust_store_entry_aid: "parse_aid C s = Inr a \<Longrightarrow> trust_store_entry C (PStr s) = Some (aid_alg a, raw_key a)"
proof -
  assume a: "parse_aid C s = Inr a"
  then obtain r where "s = u ''aid:pubkey:'' @ r" by (auto simp: parse_aid_def split: option.splits)
  then have "s = u ''aid:'' @ (u ''pubkey:'' @ r)" by (simp flip: append_assoc u_append)
  then have "strip_prefix (u ''aid:'') s = Some (u ''pubkey:'' @ r)" by (simp only: strip_prefix_Some)
  then show ?thesis using a by (simp add: trust_store_entry_def del: strip_prefix_Some)
qed

text \<open>The presenter of an accepted proof-of-possession response signed a live recorded challenge.\<close>

text \<open>
  What a proof of possession is: a \<open>pop_response\<close> envelope signed by its sender that names the token
  and echoes the nonce of a live challenge recorded for it, with a signature of that nonce by the key
  of the token's subject.
\<close>

definition pop_answers :: "crypto \<Rightarrow> pyval \<Rightarrow> dict \<Rightarrow> int \<Rightarrow> dict \<Rightarrow> ustr \<Rightarrow> bool" where
  "pop_answers C envelope cl now challenge s \<longleftrightarrow>
     (\<exists>env sender raw b payload n x nonce a sig.
        envelope = PDict env \<and> envelope_shaped env \<and> get env (u ''message_type'') = PStr (u ''pop_response'') \<and>
        parse_aid C (sender_agent_id env) = Inr sender \<and>
        decode_tagged_signature (get env (u ''signature'')) sender ''POP_RESPONSE_INVALID'' = Inr raw \<and>
        canonicalize (PDict (without (u ''signature'') env)) = Inr b \<and>
        verify_digest C (aid_key sender) (sha256 (ENVELOPE_DOMAIN_TAG @ b)) raw = Inr True \<and>
        get env (u ''payload'') = PDict payload \<and> get payload (u ''tct_jti'') = get cl (u ''jti'') \<and>
        get payload (u ''nonce_echo'') = PStr n \<and>
        py_eq (get challenge (u ''tct_jti'')) (get cl (u ''jti'')) \<and> get challenge (u ''nonce'') = PStr n \<and>
        get challenge (u ''expires_at'') = PInt x \<and> now < x \<and> b64url_decode n = Inr nonce \<and>
        get cl (u ''sub'') = PStr s \<and> parse_aid C s = Inr a \<and>
        decode_tagged_signature (get payload (u ''pop_signature'')) a ''POP_RESPONSE_INVALID'' = Inr sig \<and>
        verify_digest C (aid_key a) (sha256 nonce) sig = Inr True)"

definition pop_answered :: "crypto \<Rightarrow> dict \<Rightarrow> dict \<Rightarrow> int \<Rightarrow> ustr \<Rightarrow> bool" where
  "pop_answered C inp cl now s \<longleftrightarrow>
     (\<exists>os challenge. py_iter (py_or (get inp (u ''outstanding_pop_challenges'')) (PList [])) = Inr os \<and>
        PDict challenge \<in> set os \<and> pop_answers C (get inp (u ''envelope'')) cl now challenge s)"

lemma matching_challengesD:
  assumes "matching_challenges os jti (PStr n) \<noteq> []"
  shows "PDict (hd (matching_challenges os jti (PStr n))) \<in> set os"
    and "py_eq (get (hd (matching_challenges os jti (PStr n))) (u ''tct_jti'')) jti"
    and "get (hd (matching_challenges os jti (PStr n))) (u ''nonce'') = PStr n"
proof -
  have "hd (matching_challenges os jti (PStr n)) \<in> set (matching_challenges os jti (PStr n))" using assms by simp
  then show "PDict (hd (matching_challenges os jti (PStr n))) \<in> set os"
    "py_eq (get (hd (matching_challenges os jti (PStr n))) (u ''tct_jti'')) jti"
    "get (hd (matching_challenges os jti (PStr n))) (u ''nonce'') = PStr n"
    by (auto simp: matching_challenges_def is_dict_iff py_eq_PStr_right)
qed

lemma presenter_from_pop_ok:
  assumes "presenter_from_pop C inp cl now = Inr s"
  shows "pop_answered C inp cl now s"
proof -
  let ?os = "py_iter (py_or (get inp (u ''outstanding_pop_challenges'')) (PList []))"
  let ?pl = "\<lambda>env. the_dict (get env (u ''payload''))"
  let ?cs = "\<lambda>env os jti. matching_challenges os jti (get (?pl env) (u ''nonce_echo''))"
  from assms obtain env sender v raw env' b sender' jti os nonce sub a sig where
    v: "item inp (u ''envelope'') = Inr v"
    and mt: "get env (u ''message_type'') = PStr (u ''pop_response'')"
      "list_all (\<lambda>k. is_str (get (?pl env) (u k))) [''tct_jti'', ''nonce_echo'', ''pop_signature'']"
    and sig1: "decode_tagged_signature (get env (u ''signature'')) sender ''POP_RESPONSE_INVALID'' = Inr raw"
    and v': "validate_envelope_shape v = Inr env'" and b: "envelope_signing_input env = Inr b"
    and snd: "parse_aid C (sender_agent_id env') = Inr sender'" and same: "(env', sender') = (env, sender)"
    and good1: "verify_digest C (aid_key sender) (sha256 b) raw = Inr True"
    and jti: "item cl (u ''jti'') = Inr jti" "get (?pl env) (u ''tct_jti'') = jti"
    and os: "?os = Inr os" and ne: "?cs env os jti \<noteq> []"
    and live: "is_int (get (hd (?cs env os jti)) (u ''expires_at''))" "now < the_int (get (hd (?cs env os jti)) (u ''expires_at''))"
    and nonce: "b64url_decode (the_str (get (hd (?cs env os jti)) (u ''nonce''))) = Inr nonce"
    and sub: "item cl (u ''sub'') = Inr sub" "parse_aid_value C sub = Inr a"
    and sig2: "decode_tagged_signature (get (?pl env) (u ''pop_signature'')) a ''POP_RESPONSE_INVALID'' = Inr sig"
      "verify_digest C (aid_key a) (sha256 nonce) sig = Inr True" and s: "the_str sub = s"
    unfolding presenter_from_pop_def Let_def runs
    by (elim exE conjE) (rule that, assumption+)
  have v: "item inp (u ''envelope'') = Inr v" "validate_envelope_shape v = Inr env"
    and snd: "parse_aid C (sender_agent_id env) = Inr sender"
    using v v' snd same by simp_all
  have shaped: "v = PDict env" "envelope_shaped env" using validate_envelope_shape_ok [OF v(2)] by auto
  then obtain pl where pl: "get env (u ''payload'') = PDict pl" by (auto simp: envelope_shaped_def is_dict_iff)
  then have dict: "?pl env = pl" by simp
  obtain n where n: "get pl (u ''nonce_echo'') = PStr n" using mt(2) unfolding dict by (auto simp: is_str_iff)
  obtain body where body: "canonicalize (PDict (without (u ''signature'') env)) = Inr body" "b = ENVELOPE_DOMAIN_TAG @ body"
    using b by (auto simp: envelope_signing_input_def ok_simps)
  have item: "get inp (u ''envelope'') = PDict env" "get cl (u ''jti'') = jti"
    using v(1) jti(1) shaped(1) by (simp_all add: item_ok)
  have sub': "parse_aid C s = Inr a" "get cl (u ''sub'') = PStr s"
    using sub s by (auto simp: parse_aid_value_def item_ok split: pyval.splits)
  let ?c = "hd (matching_challenges os jti (PStr n))"
  note c = matching_challengesD [OF ne [unfolded dict n]]
  obtain x where x: "get ?c (u ''expires_at'') = PInt x" "now < x" using live unfolding dict n by (auto simp: is_int_iff)
  have j: "py_eq (get ?c (u ''tct_jti'')) (get cl (u ''jti''))" "get pl (u ''tct_jti'') = get cl (u ''jti'')"
    using c(2) jti(2) unfolding dict item(2) by simp_all
  have raw: "b64url_decode n = Inr nonce" using nonce unfolding dict n c(3) by simp
  have "pop_answers C (get inp (u ''envelope'')) cl now ?c s"
    unfolding pop_answers_def
    by (rule exI [of _ env], rule exI [of _ sender], rule exI [of _ raw], rule exI [of _ body], rule exI [of _ pl],
        rule exI [of _ n], rule exI [of _ x], rule exI [of _ nonce], rule exI [of _ a], rule exI [of _ sig], intro conjI)
      (rule item(1) shaped(2) mt(1) snd sig1 body(1) good1 [unfolded body(2)] pl n c(3) x raw sub' sig2(2)
        j sig2(1) [unfolded dict])+
  then show ?thesis unfolding pop_answered_def using os c(1) by blast
qed

lemma apply_absence_mono: "apply_absence m = Inr () \<Longrightarrow> m \<le> n \<Longrightarrow> apply_absence n = Inr ()"
  by (cases "n = Fail_closed") (auto simp: apply_absence_def fail_closed_le ok_simps)

lemma check_revocation_relaxed:
  assumes "check_revocation C cl inp now = Inr ()" and r: "policy_relaxed inp inp'"
  shows "check_revocation C cl inp' now = Inr ()"
proof -
  have le: "policy_fail_mode inp \<le> policy_fail_mode inp'" using r by (simp add: policy_relaxed_def)
  have rl: "get inp' (u ''issuer_revocation_list'') = get inp (u ''issuer_revocation_list'')" by (rule relaxed_get [OF r]) simp
  show ?thesis
  proof (cases "is_dict (get inp (u ''issuer_revocation_list''))")
    case False
    then show ?thesis using assms(1) apply_absence_mono [OF _ le] by (simp add: check_revocation_def rl)
  next
    case True
    let ?trust = "verify_snapshot_trust C (get (the_dict (get inp (u ''issuer_revocation_list''))) (u ''snapshot''))"
    note run = assms(1) [unfolded check_revocation_def Let_def]
    show ?thesis
    proof (cases ?trust)
      case (Inl e)
      then show ?thesis using run True apply_absence_mono [OF _ le] by (simp add: check_revocation_def rl split: if_splits)
    next
      case (Inr body)
      then show ?thesis
        using run True apply_absence_mono [OF _ le]
        by (cases "snapshot_is_stale body (policy_of inp) now") (simp_all add: check_revocation_def rl relaxed_stale [OF r] split: if_splits)
    qed
  qed
qed

lemma presenter_from_pop_relaxed:
  assumes r: "policy_relaxed inp inp'"
  shows "presenter_from_pop C inp' cl now = presenter_from_pop C inp cl now"
proof -
  have "item inp' (u ''envelope'') = item inp (u ''envelope'')" by (rule relaxed_item [OF r]) simp
  moreover have "get inp' (u ''outstanding_pop_challenges'') = get inp (u ''outstanding_pop_challenges'')"
    by (rule relaxed_get [OF r]) simp
  ultimately show ?thesis by (simp only: presenter_from_pop_def)
qed

section \<open>Properties\<close>

text \<open>
  C1. A token a relying party accepts is a compact JWS of the TCT type, signed under the AID its
  \<open>iss\<close> claim names, with exactly the schema's claims; it is for the expected audience, unexpired,
  issued to another party, no attestation, bound by \<open>cnf.jkt\<close> to the key of the subject's AID,
  outlived by the issuer's manifest, and not refused by the revocation decision. The verdict
  returns its grants and nothing else.
\<close>

theorem verify_tct_sound:
  assumes "verify_tct C inp now = Inr verdict"
  shows "\<exists>cl exp a jkt. tct_signed C (get inp (u ''tct_token'')) cl \<and> get cl (u ''ver'') = PStr PROTOCOL_VERSION \<and>
    (get inp (u ''expected_audience'') \<noteq> PNone \<longrightarrow> get cl (u ''aud'') = get inp (u ''expected_audience'')) \<and>
    py_int (get cl (u ''exp'')) = Inr exp \<and> now < exp \<and>
    get cl (u ''iss'') \<noteq> get cl (u ''sub'') \<and> PStr ATTESTATION_MARKER \<notin> set (the_list (get cl (u ''grants''))) \<and>
    parse_aid C (the_str (get cl (u ''sub''))) = Inr a \<and> thumbprint a = Inr jkt \<and> jkt_of cl = PStr jkt \<and>
    (get inp (u ''issuer_manifest'') \<noteq> PNone \<longrightarrow>
       (\<exists>m x. subscript (get inp (u ''issuer_manifest'')) (u ''expires_at'') = Inr m \<and> py_int m = Inr x \<and> exp \<le> x)) \<and>
    check_revocation C cl inp now = Inr () \<and> verdict = PDict [(u ''grants'', get cl (u ''grants''))]"
proof -
  let ?token = "get inp (u ''tct_token'')"
  from assms obtain v cl exp where v: "peek_iss ?token ''TCT_SIGNATURE_INVALID'' = Inr v"
      "verify_tct_jws C ?token (py_str v) tct_gate = Inr cl"
    and ver: "get cl (u ''ver'') = PStr PROTOCOL_VERSION"
    and aud: "\<not> (get inp (u ''expected_audience'') \<noteq> PNone \<and> \<not> py_eq (get cl (u ''aud'')) (get inp (u ''expected_audience'')))"
    and exp: "py_int (get cl (u ''exp'')) = Inr exp" "now < exp"
    and rest: "check_grant_context ''TCT_SIGNATURE_INVALID'' cl = Inr ()" "check_cnf_binding C cl = Inr ()"
      "check_manifest_cap cl (get inp (u ''issuer_manifest'')) = Inr ()" "check_revocation C cl inp now = Inr ()"
    and verdict: "verdict = grants_verdict cl"
    unfolding verify_tct_def Let_def item_bind_ok unfolding bindE_ok ensure_raise_ok
    by (elim exE conjE) (rule that, (assumption | simp)+)
  have signed: "tct_signed C ?token cl" using verify_tct_jws_ok(1) [OF v] tct_gate_ok by blast
  then obtain a s where strs: "get cl (u ''aud'') = PStr a" "get cl (u ''sub'') = PStr s"
    by (auto simp: tct_signed_def tct_shaped_def is_str_iff)
  have aud': "get inp (u ''expected_audience'') \<noteq> PNone \<longrightarrow> get cl (u ''aud'') = get inp (u ''expected_audience'')"
    using aud by (auto simp: strs py_eq_PStr_left)
  obtain k jkt where cnf: "parse_aid C (the_str (get cl (u ''sub''))) = Inr k" "thumbprint k = Inr jkt" "jkt_of cl = PStr jkt"
    using rest(2) by (auto simp: check_cnf_binding_ok strs)
  have cap: "get inp (u ''issuer_manifest'') \<noteq> PNone \<longrightarrow>
       (\<exists>m x. subscript (get inp (u ''issuer_manifest'')) (u ''expires_at'') = Inr m \<and> py_int m = Inr x \<and> exp \<le> x)"
    using rest(3) exp(1) by (auto simp: check_manifest_cap_ok)
  show ?thesis
    by (intro exI [of _ cl] exI [of _ exp] exI [of _ k] exI [of _ jkt] conjI)
      (rule signed ver aud' exp rest(1) [unfolded check_grant_context_ok, THEN conjunct1]
        rest(1) [unfolded check_grant_context_ok, THEN conjunct2] cnf cap rest(4) verdict [unfolded grants_verdict_def])+
qed

text \<open>
  C4. Fail closed: under any policy but \<open>fail_open\<close> and \<open>soft_fail\<close>, an accepted token's issuer
  has a revocation list that is trusted, its own and unexpired, and that does not list the token.
  A missing, forged, foreign or stale list is a refusal.
\<close>

theorem tct_revocation_fail_closed:
  assumes "verify_tct C inp now = Inr verdict"
    and "get (policy_of inp) (u ''fail_mode'') \<notin> {PStr (u ''fail_open''), PStr (u ''soft_fail'')}"
  shows "\<exists>cl rl body x. tct_signed C (get inp (u ''tct_token'')) cl \<and>
    get inp (u ''issuer_revocation_list'') = PDict rl \<and>
    trusted_snapshot C (get rl (u ''snapshot'')) body \<and> get body (u ''issuer'') = get cl (u ''iss'') \<and>
    py_int (get body (u ''expires_at'')) = Inr x \<and> now < x \<and> \<not> on_deny_list (get cl (u ''jti'')) body"
proof -
  obtain cl where cl: "tct_signed C (get inp (u ''tct_token'')) cl" and rev: "check_revocation C cl inp now = Inr ()"
    using tct_accepted [OF assms(1)] by blast
  have mode: "policy_fail_mode inp = Fail_closed" using assms(2) by (simp add: fail_closed_iff)
  from rev obtain rl body where rl: "get inp (u ''issuer_revocation_list'') = PDict rl"
    and body: "verify_snapshot_trust C (get rl (u ''snapshot'')) = Inr body"
    and issuer: "py_eq (get body (u ''issuer'')) (get cl (u ''iss''))"
    and fresh: "snapshot_is_stale body (policy_of inp) now = Inr False" and clear: "\<not> on_deny_list (get cl (u ''jti'')) body"
    unfolding check_revocation_ok mode by blast
  obtain s where "get cl (u ''iss'') = PStr s" using cl by (auto simp: tct_signed_def tct_shaped_def is_str_iff)
  then have "get body (u ''issuer'') = get cl (u ''iss'')" using issuer by (simp add: py_eq_PStr_right)
  then show ?thesis
    using cl rl verify_snapshot_trust_body [OF body] snapshot_is_stale_expiry [OF fresh] clear by blast
qed

text \<open>
  C6. A token on its issuer's own current list is refused under every policy, \<open>fail_open\<close>
  included.
\<close>

theorem listed_tct_refused:
  assumes "tct_signed C (get inp (u ''tct_token'')) cl"
    and "get inp (u ''issuer_revocation_list'') = PDict rl" and "verify_snapshot_trust C (get rl (u ''snapshot'')) = Inr body"
    and "get body (u ''issuer'') = get cl (u ''iss'')" and "snapshot_is_stale body (policy_of inp) now = Inr False"
    and "on_deny_list (get cl (u ''jti'')) body"
  shows "verify_tct C inp now \<noteq> Inr verdict"
proof
  assume "verify_tct C inp now = Inr verdict"
  then obtain cl' where "tct_signed C (get inp (u ''tct_token'')) cl'" and rev: "check_revocation C cl' inp now = Inr ()"
    using tct_accepted by blast
  then have eq: "cl' = cl" using assms(1) tct_signed_unique by blast
  obtain s where "get cl (u ''iss'') = PStr s" using assms(1) by (auto simp: tct_signed_def tct_shaped_def is_str_iff)
  then have "py_eq (get body (u ''issuer'')) (get cl (u ''iss''))" using assms(4) by (simp add: py_eq_PStr_right)
  then show False
    using rev [unfolded eq] assms(2,3,5,6) unfolding check_revocation_ok by auto
qed

text \<open>
  C18. Attestations and capability grants are disjoint: a token the attestation verifier accepts is
  refused by the relying party's and the issuer's verifiers, whatever their inputs and clocks.
\<close>

theorem attestation_never_a_grant:
  assumes "verify_attestation C inp now = Inr statement"
    and "get inp' (u ''tct_token'') = get inp (u ''tct_token'')"
  shows "verify_tct C' inp' now' \<noteq> Inr verdict \<and> verify_tct_as_issuer C' inp' now' \<noteq> Inr verdict"
proof (intro conjI)
  obtain cl where cl: "tct_signed C (get inp (u ''tct_token'')) cl" "get cl (u ''iss'') = get cl (u ''sub'')"
    using attestation_accepted [OF assms(1)] by blast
  show "verify_tct C' inp' now' \<noteq> Inr verdict"
    using tct_accepted [of C' inp' now' verdict] tct_signed_unique [OF cl(1)] cl(2) assms(2) by metis
  show "verify_tct_as_issuer C' inp' now' \<noteq> Inr verdict"
    using issuer_accepted [of C' inp' now' verdict] tct_signed_unique [OF cl(1)] cl(2) assms(2) by metis
qed

text \<open>
  C17. An accepted attestation is a self-issued token of an AID in the relying party's trust store,
  holding nothing but the attestation marker, bound by \<open>cnf.jkt\<close> to that AID's key, within its
  manifest's life unless the caller waived that, and carrying the statement that is returned.
\<close>

theorem attestation_sound:
  assumes "verify_attestation C inp now = Inr statement"
  shows "\<exists>cl aid_text a exp key ext entries e. tct_signed C (get inp (u ''tct_token'')) cl \<and>
    get cl (u ''iss'') = PStr aid_text \<and> get cl (u ''sub'') = PStr aid_text \<and> get cl (u ''aud'') = PStr aid_text \<and>
    get cl (u ''grants'') = PList [PStr ATTESTATION_MARKER] \<and>
    parse_aid C aid_text = Inr a \<and> py_iter (py_or (get inp (u ''trust_store'')) (PList [])) = Inr entries \<and>
    e \<in> set entries \<and> trust_store_entry C e = Some (aid_alg a, raw_key a) \<and>
    py_int (get cl (u ''exp'')) = Inr exp \<and> now < exp \<and>
    (get inp (u ''issuer_manifest'') \<noteq> PNone \<or> get inp (u ''waive_manifest_cap'') = PBool True) \<and>
    get inp (u ''expected_ext_key'') = PStr key \<and> get cl (u ''ext'') = PDict ext \<and> has ext key \<and>
    check_revocation C cl inp now = Inr () \<and> statement = PDict [(u ''statement'', get ext key)]"
proof -
  let ?entries = "py_iter (py_or (get inp (u ''trust_store'')) (PList []))"
  obtain cl exp key a where cl: "tct_signed C (get inp (u ''tct_token'')) cl"
    and pre: "attestation_pre_signature C (get inp (u ''trust_store'')) cl = Inr ()"
    and man: "get inp (u ''issuer_manifest'') \<noteq> PNone \<or> get inp (u ''waive_manifest_cap'') = PBool True"
    and exp: "py_int (get cl (u ''exp'')) = Inr exp" "now < exp"
    and self: "get cl (u ''iss'') = get cl (u ''sub'')" "get cl (u ''sub'') = get cl (u ''aud'')"
    and gs: "get cl (u ''grants'') = PList [PStr ATTESTATION_MARKER]" and a: "parse_aid C (py_str (get cl (u ''sub''))) = Inr a"
    and key: "get inp (u ''expected_ext_key'') = key" "is_dict (get cl (u ''ext''))" "py_in key (get cl (u ''ext'')) = Inr True"
    and rev: "check_revocation C cl inp now = Inr ()"
    and st: "statement = PDict [(u ''statement'', get (the_dict (get cl (u ''ext''))) (the_str key))]"
    using attestation_accepted [OF assms] by (elim exE conjE) (rule that)
  obtain s where s: "get cl (u ''iss'') = PStr s" using cl by (auto simp: tct_signed_def tct_shaped_def is_str_iff)
  have strs: "get cl (u ''sub'') = PStr s" "get cl (u ''aud'') = PStr s" using self s by simp_all
  have a: "parse_aid C s = Inr a" using a by (simp add: strs)
  obtain ext where ext: "get cl (u ''ext'') = PDict ext" using key(2) by (auto simp: is_dict_iff)
  obtain k where k: "key = PStr k" "has ext k" using key(3) by (cases key) (auto simp: ext py_in_def)
  from pre obtain entries where entries: "?entries = Inr entries"
    and trusted: "case trust_store_entry C (get cl (u ''iss'')) of None \<Rightarrow> False | Some x \<Rightarrow> x \<in> set (trusted_keys C entries)"
    by (auto simp: attestation_pre_signature_def Let_def bindE_ok ensure_raise_ok)
  have "(aid_alg a, raw_key a) \<in> set (trusted_keys C entries)"
    using trusted by (simp add: s trust_store_entry_aid [OF a])
  then obtain e where "e \<in> set entries" "trust_store_entry C e = Some (aid_alg a, raw_key a)"
    unfolding trusted_keys_member by blast
  then show ?thesis
    using entries by (intro exI [of _ cl] exI [of _ s] exI [of _ a] exI [of _ exp] exI [of _ k] exI [of _ ext] exI [of _ entries]
      exI [of _ e] conjI) (rule cl s strs gs a exp man key(1) [unfolded k(1)] ext k(2) rev st [unfolded ext the_dict.simps k(1) the_str.simps] | assumption)+
qed

text \<open>
  C16. On the issuer's own side a token counts only for its holder: it is one the issuer itself
  signed, for its subject, and the presenter returned is that subject, established either by the
  authenticated channel or by a signed answer to a live challenge this issuer recorded.
\<close>

theorem issuer_side_sound:
  assumes "verify_tct_as_issuer C inp now = Inr verdict"
  shows "\<exists>cl sub. tct_signed C (get inp (u ''tct_token'')) cl \<and>
    py_eq (get cl (u ''iss'')) (get inp (u ''self_aid'')) \<and> get cl (u ''sub'') = PStr sub \<and> get cl (u ''aud'') = PStr sub \<and>
    verdict = PDict [(u ''presenter_aid'', PStr sub), (u ''grants'', get cl (u ''grants''))] \<and>
    (get inp (u ''envelope'') = PNone \<and> get inp (u ''channel_bound_aid'') = PStr sub \<or> pop_answered C inp cl now sub)"
proof -
  obtain cl presenter where cl: "tct_signed C (get inp (u ''tct_token'')) cl" "py_eq (get cl (u ''iss'')) (get inp (u ''self_aid''))"
      "get cl (u ''aud'') = get cl (u ''sub'')"
    and presenter: "(if get inp (u ''envelope'') \<noteq> PNone then bindE (presenter_from_pop C inp cl now) (\<lambda>s. Inr (PStr s))
       else if get inp (u ''channel_bound_aid'') \<noteq> PNone then Inr (get inp (u ''channel_bound_aid''))
       else raise ''POP_RESPONSE_INVALID'') = Inr presenter" "py_eq presenter (get cl (u ''sub''))"
    and verdict: "verdict = PDict [(u ''presenter_aid'', presenter), (u ''grants'', get cl (u ''grants''))]"
    using issuer_accepted [OF assms] by (elim exE conjE) (rule that)
  obtain s where s: "get cl (u ''sub'') = PStr s" using cl(1) by (auto simp: tct_signed_def tct_shaped_def is_str_iff)
  have p: "presenter = PStr s" using presenter(2) by (simp add: s py_eq_PStr_right)
  have aud: "get cl (u ''aud'') = PStr s" using cl(3) s by simp
  have "get inp (u ''envelope'') = PNone \<and> get inp (u ''channel_bound_aid'') = PStr s \<or> presenter_from_pop C inp cl now = Inr s"
    using presenter(1) by (auto simp: p bindE_ok split: if_splits)
  then have "get inp (u ''envelope'') = PNone \<and> get inp (u ''channel_bound_aid'') = PStr s \<or> pop_answered C inp cl now s"
    using presenter_from_pop_ok by blast
  then show ?thesis
    by (intro exI [of _ cl] exI [of _ s] conjI) (rule cl(1,2) s aud verdict [unfolded p] | assumption)+
qed

text \<open>
  C5. Relaxing the policy never refuses a token: whatever a verifier accepts under one fail mode, a
  relying party, an issuer and an attestation check alike accept under every more permissive mode,
  with the same verdict, all other inputs being equal.
\<close>

theorem looser_policy_accepts:
  assumes r: "policy_relaxed inp inp'"
  shows "(verify_tct C inp now = Inr v \<longrightarrow> verify_tct C inp' now = Inr v) \<and>
    (verify_tct_as_issuer C inp now = Inr v \<longrightarrow> verify_tct_as_issuer C inp' now = Inr v) \<and>
    (verify_attestation C inp now = Inr v \<longrightarrow> verify_attestation C inp' now = Inr v)"
proof -
  have i: "item inp' (u k) = item inp (u k)" "get inp' (u k) = get inp (u k)" if "k \<noteq> ''policy''" for k
    using relaxed_item [OF r] relaxed_get [OF r] that by simp_all
  have same: "item inp' (u ''tct_token'') = item inp (u ''tct_token'')" "item inp' (u ''self_aid'') = item inp (u ''self_aid'')"
    "item inp' (u ''expected_ext_key'') = item inp (u ''expected_ext_key'')"
    "get inp' (u ''expected_audience'') = get inp (u ''expected_audience'')"
    "get inp' (u ''issuer_manifest'') = get inp (u ''issuer_manifest'')" "get inp' (u ''envelope'') = get inp (u ''envelope'')"
    "get inp' (u ''channel_bound_aid'') = get inp (u ''channel_bound_aid'')"
    "get inp' (u ''waive_manifest_cap'') = get inp (u ''waive_manifest_cap'')" "get inp' (u ''trust_store'') = get inp (u ''trust_store'')"
    by (simp_all add: i)
  note rev = check_revocation_relaxed [OF _ r]
  have "verify_tct C inp now = Inr v \<Longrightarrow> verify_tct C inp' now = Inr v"
    unfolding verify_tct_def Let_def same runs using rev by blast
  moreover have "verify_tct_as_issuer C inp now = Inr v \<Longrightarrow> verify_tct_as_issuer C inp' now = Inr v"
    unfolding verify_tct_as_issuer_def Let_def presenter_from_pop_relaxed [OF r] same runs using rev by blast
  moreover have "verify_attestation C inp now = Inr v \<Longrightarrow> verify_attestation C inp' now = Inr v"
    unfolding verify_attestation_def Let_def same runs using rev by blast
  ultimately show ?thesis by blast
qed

section \<open>A sample token\<close>

definition sample_jti :: ustr where
  "sample_jti = u ''00000000-0000-4000-8000-000000000000''"

definition tct_claims :: "bytes \<Rightarrow> bytes \<Rightarrow> ustr \<Rightarrow> ustr list \<Rightarrow> dict" where
  "tct_claims k l aud gs =
     [(u ''aud'', PStr aud), (u ''cnf'', PDict [(u ''jkt'', PStr (sample_jkt l))]), (u ''exp'', PInt (REFERENCE_CLOCK + 60)),
      (u ''ext'', PDict [(u ''s'', PInt 1)]), (u ''grants'', PList (map PStr gs)), (u ''iat'', PInt REFERENCE_CLOCK),
      (u ''iss'', PStr (ed_aid k)), (u ''jti'', PStr sample_jti), (u ''sub'', PStr (ed_aid l)), (u ''ver'', PStr PROTOCOL_VERSION)]"

definition sample_tct :: "bytes \<Rightarrow> bytes \<Rightarrow> ustr \<Rightarrow> ustr list \<Rightarrow> pyval" where
  "sample_tct k l aud gs = sample_token (u ''aitp-tct+jwt'') (tct_claims k l aud gs)"

lemma sorted_tct_claims: "canon (PDict (tct_claims k l aud gs)) = PDict (tct_claims k l aud gs)"
proof -
  have "sorted (map utf16_key (map u [''aud'', ''cnf'', ''exp'', ''ext'', ''grants'', ''iat'', ''iss'', ''jti'', ''sub'', ''ver'']))"
    by code_simp
  then have "sorted (map utf16_key (map fst (tct_claims k l aud gs)))" by (simp add: tct_claims_def)
  then show ?thesis by (simp only: canon_sorted) (simp add: tct_claims_def canon_sorted comp_def)
qed

lemma tct_claims_canonical:
  assumes "list_all scalar aud" and "list_all (list_all scalar) gs" and "length gs \<le> 100"
  shows "canonical_object (tct_claims k l aud gs)"
proof -
  have n: "sum_list (map (nodes \<circ> PStr) gs) = length gs" "foldr max (map ((\<lambda>x. Suc (nesting x)) \<circ> PStr) gs) 0 \<le> 1"
    by (induction gs) auto
  have "list_all scalar sample_jti" by (simp add: sample_jti_def)
  then have "plain (PDict (tct_claims k l aud gs))"
    using assms by (simp add: tct_claims_def REFERENCE_CLOCK_def ed_aid_def list.pred_map comp_def)
      (simp add: list_all_iff)
  moreover have "nesting (PDict (tct_claims k l aud gs)) \<le> 256" "nodes (PDict (tct_claims k l aud gs)) \<le> 200000"
    using n assms(3) by (simp_all add: tct_claims_def)
  ultimately show ?thesis unfolding canonical_object_def using sorted_tct_claims by blast
qed

lemma sample_jti_v4: "jti_v4 sample_jti"
  by (simp add: sample_jti_def) code_simp

lemma tct_claims_gate [simp]: "check_tct_claims_shape c (tct_claims k l aud gs) = Inr ()"
  by (simp add: check_tct_claims_shape_def require_members_def TCT_REQUIRED_CLAIMS_def check_types_def TCT_CLAIM_TYPES_def
      type_ok_def reject_unknown_fields_def TCT_CLAIM_FIELDS_def TCT_CNF_FIELDS_def tct_claims_def sample_jti_v4 list_all_iff)

text \<open>A sample token parses to its claims and verifies under its issuer.\<close>

lemma sample_tct_verified:
  assumes "list_all scalar aud" and "list_all (list_all scalar) gs" and "length gs \<le> 100" and "length k = 32"
  shows "peek_iss (sample_tct k l aud gs) c = Inr (PStr (ed_aid k))"
    and "jws_signed sample_crypto (sample_tct k l aud gs) (ed_aid k) (u ''aitp-tct+jwt'') (tct_claims k l aud gs)"
    and "tct_signed sample_crypto (sample_tct k l aud gs) (tct_claims k l aud gs)"
proof -
  show s: "jws_signed sample_crypto (sample_tct k l aud gs) (ed_aid k) (u ''aitp-tct+jwt'') (tct_claims k l aud gs)"
    unfolding sample_tct_def using assms(4) by (intro sample_token_signed tct_claims_canonical assms) simp_all
  then show "peek_iss (sample_tct k l aud gs) c = Inr (PStr (ed_aid k))"
    using jws_signed_parse [OF s, of c] by (auto simp: peek_iss_def) (simp add: tct_claims_def)
  have "tct_shaped (tct_claims k l aud gs)" by (rule tct_claims_shape_ok [OF tct_claims_gate])
  then show "tct_signed sample_crypto (sample_tct k l aud gs) (tct_claims k l aud gs)"
    using s by (simp add: tct_signed_def) (simp add: tct_claims_def)
qed

lemma sample_revocation_body [simp]:
  "get (sample_body es) (u ''issuer'') = PStr sample_aid" "get (sample_body es) (u ''entries'') = PList (map PDict es)"
  "snapshot_is_stale (sample_body es) [] REFERENCE_CLOCK = Inr False"
  by (simp_all add: sample_body_def snapshot_is_stale_def)

definition tct_input :: "ustr list \<Rightarrow> dict" where
  "tct_input js =
     [(u ''tct_token'', sample_tct (replicate 32 0) (replicate 32 1) peer_aid [u ''read'']),
      (u ''expected_audience'', PStr peer_aid),
      (u ''issuer_revocation_list'', PDict [(u ''snapshot'', sample_snapshot (map sample_entry js))])]"

lemma tct_input_get:
  "get (tct_input js) (u ''issuer_revocation_list'') = PDict [(u ''snapshot'', sample_snapshot (map sample_entry js))]"
  "policy_of (tct_input js) = []"
  by (simp_all add: tct_input_def policy_of_def)

lemma sample_tct_accepted:
  "verify_tct sample_crypto (tct_input []) REFERENCE_CLOCK = Inr (PDict [(u ''grants'', PList [PStr (u ''read'')])])"
proof -
  let ?cl = "tct_claims (replicate 32 0) (replicate 32 1) peer_aid [u ''read'']"
  let ?token = "sample_tct (replicate 32 0) (replicate 32 1) peer_aid [u ''read'']"
  have ok: "list_all scalar peer_aid" "list_all (list_all scalar) [u ''read'']" "length [u ''read''] \<le> 100"
    "length (replicate 32 (0 :: byte)) = 32" by simp_all
  note t = sample_tct_verified [OF ok, where l = "replicate 32 1"]
  have jws: "verify_tct_jws sample_crypto ?token (ed_aid (replicate 32 0)) tct_gate = Inr ?cl"
    using t(2) by (simp add: verify_tct_jws_def verify_jws_signed tct_gate_def)
  have "check_cnf_binding sample_crypto ?cl = Inr ()"
    unfolding check_cnf_binding_ok by (simp add: tct_claims_def jkt_of_def)
  moreover have "check_grant_context ''TCT_SIGNATURE_INVALID'' ?cl = Inr ()"
    unfolding check_grant_context_ok
    using sample_aids_differ by (simp add: tct_claims_def ATTESTATION_MARKER_def sample_aid_def peer_aid_def)
  moreover have "check_revocation sample_crypto ?cl (tct_input []) REFERENCE_CLOCK = Inr ()"
    using sample_snapshot_trusted [of "[]"]
    by (simp add: check_revocation_def tct_input_get) (simp add: tct_claims_def sample_aid_def tct_input_get on_deny_list_def)
  ultimately show ?thesis
    using t(1) jws
    by (simp add: verify_tct_def tct_input_def Let_def check_manifest_cap_def grants_verdict_def) (simp add: tct_claims_def)
qed

lemma verify_tct_sound_witness:
  "\<exists>cl. tct_signed sample_crypto (get (tct_input []) (u ''tct_token'')) cl \<and> get cl (u ''aud'') = PStr peer_aid"
  using verify_tct_sound [OF sample_tct_accepted] by (auto simp: tct_input_def)

lemma tct_revocation_fail_closed_witness:
  "\<exists>cl body. tct_signed sample_crypto (get (tct_input []) (u ''tct_token'')) cl \<and>
     get body (u ''issuer'') = get cl (u ''iss'') \<and> \<not> on_deny_list (get cl (u ''jti'')) body"
  using tct_revocation_fail_closed [OF sample_tct_accepted] by (auto simp: policy_of_def tct_input_def)

lemma listed_tct_refused_witness:
  "\<forall>verdict. verify_tct sample_crypto
     ((u ''policy'', PDict [(u ''fail_mode'', PStr (u ''fail_open''))]) # tct_input [sample_jti]) REFERENCE_CLOCK \<noteq> Inr verdict"
proof (intro allI listed_tct_refused)
  have ok: "list_all scalar peer_aid" "list_all (list_all scalar) [u ''read'']" "length [u ''read''] \<le> 100"
    "length (replicate 32 (0 :: byte)) = 32" by simp_all
  let ?inp = "(u ''policy'', PDict [(u ''fail_mode'', PStr (u ''fail_open''))]) # tct_input [sample_jti]"
  let ?cl = "tct_claims (replicate 32 0) (replicate 32 1) peer_aid [u ''read'']"
  show "tct_signed sample_crypto (get ?inp (u ''tct_token'')) ?cl"
    using sample_tct_verified(3) [OF ok] by (simp add: tct_input_def)
  show "get ?inp (u ''issuer_revocation_list'') = PDict [(u ''snapshot'', sample_snapshot (map sample_entry [sample_jti]))]"
    by (simp add: tct_input_def)
  show "verify_snapshot_trust sample_crypto (get [(u ''snapshot'', sample_snapshot (map sample_entry [sample_jti]))] (u ''snapshot'')) =
      Inr (sample_body (map sample_entry [sample_jti]))"
    using sample_snapshot_trusted [of "[sample_jti]"] by (simp add: sample_jti_def)
  show "get (sample_body (map sample_entry [sample_jti])) (u ''issuer'') = get ?cl (u ''iss'')"
    by (simp add: tct_claims_def sample_aid_def)
  show "snapshot_is_stale (sample_body (map sample_entry [sample_jti])) (policy_of ?inp) REFERENCE_CLOCK = Inr False"
    by (simp add: policy_of_def snapshot_is_stale_def sample_body_def)
  show "on_deny_list (get ?cl (u ''jti'')) (sample_body (map sample_entry [sample_jti]))"
    by (simp add: on_deny_list_def tct_claims_def sample_entry_def)
qed

definition attestation_input :: dict where
  "attestation_input =
     [(u ''tct_token'', sample_tct (replicate 32 0) (replicate 32 0) sample_aid [ATTESTATION_MARKER]),
      (u ''expected_ext_key'', PStr (u ''s'')), (u ''waive_manifest_cap'', PBool True),
      (u ''trust_store'', PList [PStr sample_aid]), (u ''policy'', PDict [(u ''fail_mode'', PStr (u ''fail_open''))])]"

lemma sample_attestation_accepted:
  "verify_attestation sample_crypto attestation_input REFERENCE_CLOCK = Inr (PDict [(u ''statement'', PInt 1)])"
proof -
  let ?cl = "tct_claims (replicate 32 0) (replicate 32 0) sample_aid [ATTESTATION_MARKER]"
  let ?token = "sample_tct (replicate 32 0) (replicate 32 0) sample_aid [ATTESTATION_MARKER]"
  have ok: "list_all scalar sample_aid" "list_all (list_all scalar) [ATTESTATION_MARKER]" "length [ATTESTATION_MARKER] \<le> 100"
    "length (replicate 32 (0 :: byte)) = 32" by (simp_all add: ATTESTATION_MARKER_def)
  note t = sample_tct_verified [OF ok, where l = "replicate 32 0"]
  have "attestation_pre_signature sample_crypto (PList [PStr sample_aid]) ?cl = Inr ()"
    using trust_store_entry_aid [OF parse_sample_aid(1)]
    by (simp add: attestation_pre_signature_def tct_gate_def py_or_def)
      (simp add: tct_claims_def trusted_keys_def flip: sample_aid_def)
  then have "verify_tct_jws sample_crypto ?token (ed_aid (replicate 32 0)) (attestation_pre_signature sample_crypto (PList [PStr sample_aid]))
      = Inr ?cl"
    using t(2) by (simp add: verify_tct_jws_def verify_jws_signed)
  moreover have "check_revocation sample_crypto ?cl attestation_input REFERENCE_CLOCK = Inr ()"
    by (simp add: check_revocation_def attestation_input_def policy_fail_mode_def policy_of_def resolve_fail_mode_def apply_absence_def)
  ultimately show ?thesis
    using t(1)
    by (simp add: verify_attestation_def attestation_input_def Let_def check_manifest_cap_def)
      (simp add: tct_claims_def sample_aid_def jkt_of_def py_in_def)
qed

lemma attestation_never_a_grant_witness:
  "\<forall>verdict. verify_tct sample_crypto attestation_input 0 \<noteq> Inr verdict"
  using attestation_never_a_grant [OF sample_attestation_accepted refl] by blast

lemma attestation_sound_witness:
  "\<exists>cl. tct_signed sample_crypto (get attestation_input (u ''tct_token'')) cl \<and>
     get cl (u ''grants'') = PList [PStr ATTESTATION_MARKER]"
  using attestation_sound [OF sample_attestation_accepted] by blast

definition issuer_input :: dict where
  "issuer_input =
     [(u ''tct_token'', sample_tct (replicate 32 0) (replicate 32 1) peer_aid [u ''read'']),
      (u ''self_aid'', PStr sample_aid), (u ''channel_bound_aid'', PStr peer_aid),
      (u ''policy'', PDict [(u ''fail_mode'', PStr (u ''fail_open''))])]"

lemma sample_issuer_accepted:
  "verify_tct_as_issuer sample_crypto issuer_input REFERENCE_CLOCK =
     Inr (PDict [(u ''presenter_aid'', PStr peer_aid), (u ''grants'', PList [PStr (u ''read'')])])"
proof -
  let ?cl = "tct_claims (replicate 32 0) (replicate 32 1) peer_aid [u ''read'']"
  have ok: "list_all scalar peer_aid" "list_all (list_all scalar) [u ''read'']" "length [u ''read''] \<le> 100"
    "length (replicate 32 (0 :: byte)) = 32" by simp_all
  note t = sample_tct_verified [OF ok, where l = "replicate 32 1"]
  have "verify_tct_jws sample_crypto (sample_tct (replicate 32 0) (replicate 32 1) peer_aid [u ''read'']) sample_aid tct_gate = Inr ?cl"
    using t(2) by (simp add: verify_tct_jws_def verify_jws_signed tct_gate_def sample_aid_def)
  moreover have "check_cnf_binding sample_crypto ?cl = Inr ()" "check_grant_context ''TCT_SIGNATURE_INVALID'' ?cl = Inr ()"
    unfolding check_cnf_binding_ok check_grant_context_ok
    using sample_aids_differ by (simp_all add: tct_claims_def jkt_of_def ATTESTATION_MARKER_def sample_aid_def peer_aid_def)
  moreover have "check_revocation sample_crypto ?cl issuer_input REFERENCE_CLOCK = Inr ()"
    by (simp add: check_revocation_def issuer_input_def policy_fail_mode_def policy_of_def resolve_fail_mode_def apply_absence_def)
  ultimately show ?thesis
    using t(1)
    by (simp add: verify_tct_as_issuer_def issuer_input_def flip: sample_aid_def) (simp add: tct_claims_def peer_aid_def)
qed

lemma looser_policy_accepts_witness:
  "verify_tct sample_crypto ((u ''policy'', PDict [(u ''fail_mode'', PStr (u ''soft_fail''))]) # tct_input []) REFERENCE_CLOCK =
     Inr (PDict [(u ''grants'', PList [PStr (u ''read'')])])"
proof -
  let ?p = "(u ''policy'', PDict [(u ''fail_mode'', PStr (u ''soft_fail''))])"
  have "policy_relaxed (tct_input []) (?p # tct_input [])"
    by (simp add: policy_relaxed_def policy_fail_mode_def tct_input_get) (simp add: policy_of_def resolve_fail_mode_def)
  from looser_policy_accepts [OF this] sample_tct_accepted show ?thesis by blast
qed

lemma issuer_side_sound_witness:
  "\<exists>cl. tct_signed sample_crypto (get issuer_input (u ''tct_token'')) cl \<and> get cl (u ''sub'') = PStr peer_aid"
  using issuer_side_sound [OF sample_issuer_accepted] by auto

text \<open>
  The boundary contract fails on one input: a well-formed, correctly typed token whose \<open>iss\<close>
  is not an AID makes the verifier raise \<open>parse_aid\<close>'s bare \<open>ValueError\<close>, before any signature
  is checked, so anyone can cause it.
\<close>

lemma malformed_issuer_escapes:
  assumes "has inp (u ''tct_token'')"
    and "parse_compact (get inp (u ''tct_token'')) ''TCT_SIGNATURE_INVALID'' = Inr p"
    and "fst ` set (header p) = {u ''alg'', u ''typ''}" and "get (header p) (u ''typ'') = PStr (u ''aitp-tct+jwt'')"
    and "check_tct_claims_shape ''TCT_SIGNATURE_INVALID'' (claims p) = Inr ()"
    and "get (claims p) (u ''iss'') = PStr s" and "parse_aid C s = Inl e"
  shows "verify_tct C inp now = Inl e \<and> is_value_error e"
proof (intro conjI)
  show "verify_tct C inp now = Inl e"
    using assms by (simp add: verify_tct_def peek_iss_def has_item verify_tct_jws_def verify_jws_def tct_gate_def)
  show "is_value_error e" using parse_aid_err [OF assms(7)] .
qed

lemma malformed_issuer_escapes_witness:
  "verify_tct sample_crypto [(u ''tct_token'', sample_tct [] (replicate 32 1) peer_aid [])] 0 = Inl ValueError"
proof -
  have "canonical_object (sample_header (u ''aitp-tct+jwt''))" by (simp add: canonical_sample_header)
  moreover have "canonical_object (tct_claims [] (replicate 32 1) peer_aid [])" by (simp add: tct_claims_canonical)
  ultimately obtain inp where tok: "parse_compact (sample_tct [] (replicate 32 1) peer_aid []) ''TCT_SIGNATURE_INVALID'' =
      Inr \<lparr>header = sample_header (u ''aitp-tct+jwt''), claims = tct_claims [] (replicate 32 1) peer_aid [],
        signing_input = inp, signature = replicate 64 0\<rparr>"
    unfolding sample_tct_def sample_token_def using compact_text_parse by blast
  have "parse_aid sample_crypto (ed_aid []) = Inl ValueError" by (simp add: ed_aid_def b64url_encode_def) code_simp
  then show ?thesis
    by (intro conjunct1 [OF malformed_issuer_escapes [where p = "\<lparr>header = sample_header (u ''aitp-tct+jwt''),
        claims = tct_claims [] (replicate 32 1) peer_aid [], signing_input = inp, signature = replicate 64 0\<rparr>" and s = "ed_aid []"]])
      (simp_all add: tok, auto simp: sample_header_def tct_claims_def)
qed

end
