(* ===== verification/Uri.thy ===== *)
theory Uri
  imports Spiffe
begin

text \<open>
  The text grammars of \<open>aitp_verifier/manifest.py\<close>: the RFC 3986 \<open>URI\<close> rule of
  \<open>_URI_PATTERN\<close> and \<open>_is_uri\<close>, the IPv6 and IPv4 parsers of Python's \<open>ipaddress\<close> they end
  in, and the patterns for AIDs, challenges, capabilities and SPIFFE hint subjects. A regular
  expression is the deterministic scan it denotes: the classes before a delimiter never contain
  that delimiter, so every split is forced.
\<close>

section \<open>Characters\<close>

definition is_hex :: "nat \<Rightarrow> bool" where
  "is_hex c \<longleftrightarrow> is_digit c \<or> (65 \<le> c \<and> c \<le> 70) \<or> (97 \<le> c \<and> c \<le> 102)"

definition is_alnum :: "nat \<Rightarrow> bool" where
  "is_alnum c \<longleftrightarrow> is_lower c \<or> is_upper c \<or> is_digit c"

definition uri_safe :: "nat \<Rightarrow> bool" where
  "uri_safe c \<longleftrightarrow> is_alnum c \<or> c \<in> set (u ''-._~!$&()*+,;='') \<or> c = 39"

definition uri_pchar :: "nat \<Rightarrow> bool" where
  "uri_pchar c \<longleftrightarrow> uri_safe c \<or> c = 58 \<or> c = 64"

text \<open>\<open>(?:[class]|%XX)*\<close>\<close>

fun pct_text :: "(nat \<Rightarrow> bool) \<Rightarrow> ustr \<Rightarrow> bool" where
  "pct_text ok [] = True"
| "pct_text ok (c # r) =
     (if c = 37 then (case r of a # b # r' \<Rightarrow> is_hex a \<and> is_hex b \<and> pct_text ok r' | _ \<Rightarrow> False)
      else ok c \<and> pct_text ok r)"

text \<open>The text before and after the first \<open>c\<close>, when there is one.\<close>

definition cut_at :: "nat \<Rightarrow> ustr \<Rightarrow> ustr \<times> ustr option" where
  "cut_at c s = (if c \<in> set s then (takeWhile (\<lambda>x. x \<noteq> c) s, Some (tl (dropWhile (\<lambda>x. x \<noteq> c) s))) else (s, None))"

section \<open>IP addresses\<close>

text \<open>\<open>IPv4Address\<close>: four decimal octets without leading zeros.\<close>

definition ipv4_octet :: "ustr \<Rightarrow> bool" where
  "ipv4_octet s \<longleftrightarrow>
     s \<noteq> [] \<and> list_all is_digit s \<and> length s \<le> 3 \<and> (s \<noteq> [48] \<longrightarrow> hd s \<noteq> 48) \<and> parse_nat s \<le> 255"

definition is_ipv4 :: "ustr \<Rightarrow> bool" where
  "is_ipv4 s \<longleftrightarrow> length (split_on 46 s) = 4 \<and> list_all ipv4_octet (split_on 46 s)"

definition hextet :: "ustr \<Rightarrow> bool" where
  "hextet s \<longleftrightarrow> s \<noteq> [] \<and> list_all is_hex s \<and> length s \<le> 4"

text \<open>
  \<open>IPv6Address\<close>: an IPv4 tail counts as two hextets, and at most one run of zeros is elided,
  by an empty part that is not the first or last.
\<close>

definition ipv6_parts :: "ustr list \<Rightarrow> bool" where
  "ipv6_parts parts \<longleftrightarrow>
     length parts \<le> 9 \<and>
     (case filter (\<lambda>i. parts ! i = []) [1..<length parts - 1] of
        [] \<Rightarrow> length parts = 8 \<and> list_all hextet parts
      | [skip] \<Rightarrow>
          (let hi = (if parts ! 0 = [] then skip - 1 else skip);
               lo = (if last parts = [] then length parts - skip - 2 else length parts - skip - 1)
           in (parts ! 0 = [] \<longrightarrow> hi = 0) \<and> (last parts = [] \<longrightarrow> lo = 0) \<and> hi + lo < 8 \<and>
              list_all hextet (take hi parts) \<and> list_all hextet (drop (length parts - lo) parts))
      | _ \<Rightarrow> False)"

definition is_ipv6 :: "ustr \<Rightarrow> bool" where
  "is_ipv6 s \<longleftrightarrow>
     (let parts = split_on 58 s in
      3 \<le> length parts \<and>
      (if 46 \<in> set (last parts)
       then is_ipv4 (last parts) \<and> ipv6_parts (butlast parts @ [[48], [48]])
       else ipv6_parts parts))"

section \<open>URIs\<close>

text \<open>\<open>_URI_IP_FUTURE.fullmatch\<close>\<close>

definition ip_future :: "ustr \<Rightarrow> bool" where
  "ip_future s \<longleftrightarrow>
     (case cut_at 46 s of
        (v # hexs, Some rest) \<Rightarrow>
          (v = 118 \<or> v = 86) \<and> hexs \<noteq> [] \<and> list_all is_hex hexs \<and> rest \<noteq> [] \<and>
          list_all (\<lambda>c. uri_safe c \<or> c = 58) rest
      | _ \<Rightarrow> False)"

definition ip_literal_ok :: "ustr \<Rightarrow> bool" where
  "ip_literal_ok s \<longleftrightarrow> ip_future s \<or> 37 \<notin> set s \<and> is_ipv6 s"

definition port_ok :: "ustr \<Rightarrow> bool" where
  "port_ok s \<longleftrightarrow> (case s of [] \<Rightarrow> True | c # ds \<Rightarrow> c = 58 \<and> list_all is_digit ds)"

definition host_port_ok :: "ustr \<Rightarrow> bool" where
  "host_port_ok s \<longleftrightarrow>
     (case s of
        [] \<Rightarrow> True
      | c # r \<Rightarrow>
          if c = 91 then
            (case cut_at 93 r of
               (lit, Some rest) \<Rightarrow> ip_literal_ok lit \<and> port_ok rest
             | _ \<Rightarrow> False)
          else pct_text uri_safe (takeWhile (\<lambda>x. x \<noteq> 58) s) \<and> port_ok (dropWhile (\<lambda>x. x \<noteq> 58) s))"

definition authority_ok :: "ustr \<Rightarrow> bool" where
  "authority_ok s \<longleftrightarrow>
     (case cut_at 64 s of
        (userinfo, Some rest) \<Rightarrow>
          if pct_text (\<lambda>c. uri_safe c \<or> c = 58) userinfo then host_port_ok rest else host_port_ok s
      | _ \<Rightarrow> host_port_ok s)"

text \<open>\<open>(?:/pchar*)*\<close> and the four alternatives of the hierarchical part\<close>

definition path_rest_ok :: "ustr \<Rightarrow> bool" where
  "path_rest_ok s \<longleftrightarrow> s = [] \<or> hd s = 47 \<and> list_all (pct_text uri_pchar) (split_on 47 s)"

definition hier_ok :: "ustr \<Rightarrow> bool" where
  "hier_ok s \<longleftrightarrow>
     (case strip_prefix [47, 47] s of
        Some r \<Rightarrow> authority_ok (takeWhile (\<lambda>c. c \<noteq> 47) r) \<and> path_rest_ok (dropWhile (\<lambda>c. c \<noteq> 47) r)
      | None \<Rightarrow> s = [] \<or> s = [47] \<or> list_all (pct_text uri_pchar) (split_on 47 s))"

definition query_ok :: "ustr option \<Rightarrow> bool" where
  "query_ok q \<longleftrightarrow> (case q of None \<Rightarrow> True | Some s \<Rightarrow> pct_text (\<lambda>c. uri_pchar c \<or> c = 47 \<or> c = 63) s)"

definition scheme_ok :: "ustr \<Rightarrow> bool" where
  "scheme_ok s \<longleftrightarrow>
     (case s of
        [] \<Rightarrow> False
      | c # r \<Rightarrow> (is_lower c \<or> is_upper c) \<and> list_all (\<lambda>x. is_alnum x \<or> x \<in> {43, 46, 45}) r)"

definition is_uri :: "ustr \<Rightarrow> bool" where
  "is_uri s \<longleftrightarrow>
     (case cut_at 58 s of
        (scheme, Some rest) \<Rightarrow>
          (let (before, fragment) = cut_at 35 rest; (hier, query) = cut_at 63 before
           in scheme_ok scheme \<and> hier_ok hier \<and> query_ok query \<and> query_ok fragment)
      | _ \<Rightarrow> False)"

section \<open>The other patterns\<close>

definition b64_run :: "nat \<Rightarrow> ustr \<Rightarrow> bool" where
  "b64_run n s \<longleftrightarrow> length s = n \<and> list_all in_alphabet s"

text \<open>\<open>_AID_PATTERN.fullmatch\<close>\<close>

definition aid_pattern :: "ustr \<Rightarrow> bool" where
  "aid_pattern s \<longleftrightarrow>
     (case strip_prefix (u ''aid:pubkey:'') s of
        None \<Rightarrow> False
      | Some r \<Rightarrow>
          (case strip_prefix (u ''ed25519:'') r of
             Some k \<Rightarrow> b64_run 43 k
           | None \<Rightarrow> (case strip_prefix (u ''p256:'') r of Some k \<Rightarrow> b64_run 44 k | None \<Rightarrow> b64_run 43 r)))"

text \<open>\<open>_CAPABILITY_PATTERN.fullmatch\<close>: ECMA-262's white space is excluded.\<close>

definition ecma_space :: "nat \<Rightarrow> bool" where
  "ecma_space c \<longleftrightarrow>
     c \<in> {9, 10, 11, 12, 13, 32, 160, 5760, 8232, 8233, 8239, 8287, 12288, 65279} \<or> 8192 \<le> c \<and> c \<le> 8202"

definition capability_pattern :: "ustr \<Rightarrow> bool" where
  "capability_pattern s \<longleftrightarrow> s \<noteq> [] \<and> list_all (\<lambda>c. \<not> ecma_space c) s"

text \<open>\<open>_SPIFFE_HINT_SUBJECT.fullmatch\<close>: a segment has a character other than a dot, or three dots or more.\<close>

definition hint_segment :: "ustr \<Rightarrow> bool" where
  "hint_segment s \<longleftrightarrow>
     list_all (\<lambda>c. is_alnum c \<or> c \<in> {46, 95, 45}) s \<and> ((\<exists>c \<in> set s. c \<noteq> 46) \<or> 3 \<le> length s)"

definition spiffe_hint_subject :: "ustr \<Rightarrow> bool" where
  "spiffe_hint_subject s \<longleftrightarrow>
     (case strip_prefix (u ''spiffe://'') s of
        None \<Rightarrow> False
      | Some r \<Rightarrow>
          (let td = takeWhile (\<lambda>c. c \<noteq> 47) r; path = dropWhile (\<lambda>c. c \<noteq> 47) r in
           1 \<le> length td \<and> length td \<le> 255 \<and> list_all (\<lambda>c. is_lower c \<or> is_digit c \<or> c \<in> {46, 95, 45}) td \<and>
           path \<noteq> [] \<and> list_all hint_segment (split_on 47 (tl path))))"

section \<open>Facts\<close>

lemma utf8_ascii_length: "list_all (\<lambda>c. c < 128) s \<Longrightarrow> \<exists>b. utf8_encode s = Inr b \<and> length b = length s"
proof -
  assume a: "list_all (\<lambda>c. c < 128) s"
  then have "list_all scalar s" by (auto simp: list_all_iff scalar_def surrogate_def)
  moreover have "concat (map utf8_char s) = s" using a by (induction s) (auto simp: utf8_char_def)
  ultimately show ?thesis by (simp add: utf8_encode_def)
qed

text \<open>A segment the hint pattern accepts is one the parser accepts.\<close>

lemma hint_segment_iff: "hint_segment s \<longleftrightarrow> s \<notin> {[], [46], [46, 46]} \<and> path_segment_text s"
proof -
  have dots: "(\<exists>c \<in> set s. c \<noteq> 46) \<or> 3 \<le> length s \<longleftrightarrow> s \<notin> {[], [46], [46, 46]}"
  proof (cases "3 \<le> length s")
    case False
    then have "s = [] \<or> (\<exists>a. s = [a]) \<or> (\<exists>a b. s = [a, b])"
      by (cases s; cases "tl s"; cases "tl (tl s)") auto
    then show ?thesis by auto
  qed auto
  show ?thesis
    unfolding hint_segment_def dots
    by (auto simp: path_segment_text_def is_alnum_def list_all_iff)
qed

lemma split_on_members: "\<Union> (set ` set (split_on c s)) = set s - {c}"
proof (induction s)
  case (Cons x s)
  then show ?case by (cases "split_on c s") (auto split: if_splits)
qed simp

lemma hint_path_ascii: "list_all hint_segment (split_on 47 path) \<Longrightarrow> list_all (\<lambda>c. c < 128) path"
proof -
  assume segs: "list_all hint_segment (split_on 47 path)"
  have "c < 128" if "c \<in> set path" for c
  proof (cases "c = 47")
    case False
    then have "c \<in> \<Union> (set ` set (split_on 47 path))" unfolding split_on_members using that by simp
    then obtain s where "s \<in> set (split_on 47 path)" "c \<in> set s" by blast
    then have "hint_segment s" "c \<in> set s" using segs by (simp_all add: list_all_iff)
    then have "is_alnum c \<or> c \<in> {46, 95, 45}" by (simp add: hint_segment_def list_all_iff)
    then show ?thesis by (auto simp: is_alnum_def is_lower_def is_upper_def is_digit_def)
  qed simp
  then show ?thesis by (simp add: list_all_iff)
qed

section \<open>Properties\<close>


end
