(* ===== verification/Manifest.thy ===== *)
theory Manifest
  imports Uri
begin

text \<open>
  \<open>aitp_verifier/manifest.py\<close>: the ordered checks of an agent Manifest (presence and types,
  version, grammar, member sets, expiry, proof of possession, signature) and the resolution of a
  peer's key from the Manifests a verifier holds.
\<close>

section \<open>Shape\<close>

definition MANIFEST_FIELDS :: "ustr list" where
  "MANIFEST_FIELDS =
     map u [''version'', ''aid'', ''display_name'', ''identity_hint'', ''handshake_endpoint'',
            ''accepted_trust_anchors'', ''offered_capabilities'', ''required_peer_capabilities'',
            ''accepted_identity_types'', ''accepted_signature_algorithms'', ''proof_of_possession'',
            ''published_at'', ''expires_at'', ''extensions'', ''signature'']"

definition POP_FIELDS :: "ustr list" where
  "POP_FIELDS = map u [''challenge'', ''signature'']"

definition MANIFEST_TYPES :: "(ustr \<times> jtype list) list" where
  "MANIFEST_TYPES =
     [(u ''version'', [TStr]), (u ''aid'', [TStr]), (u ''display_name'', [TStr]), (u ''identity_hint'', [TDict]),
      (u ''handshake_endpoint'', [TStr]), (u ''accepted_trust_anchors'', [TList]),
      (u ''offered_capabilities'', [TList]), (u ''required_peer_capabilities'', [TList]),
      (u ''accepted_identity_types'', [TList]), (u ''accepted_signature_algorithms'', [TList]),
      (u ''proof_of_possession'', [TDict]), (u ''published_at'', [TInt]), (u ''expires_at'', [TInt]),
      (u ''extensions'', [TDict]), (u ''signature'', [TStr])]"

definition POP_TYPES :: "(ustr \<times> jtype list) list" where
  "POP_TYPES = [(u ''challenge'', [TStr]), (u ''signature'', [TStr])]"

definition IDENTITY_HINT_TYPES :: "(ustr \<times> jtype list) list" where
  "IDENTITY_HINT_TYPES =
     [(u ''type'', [TStr]), (u ''issuer'', [TStr]), (u ''subject'', [TStr]), (u ''public_key'', [TStr])]"

definition REQUIRED_POP_FIELDS :: "ustr list" where
  "REQUIRED_POP_FIELDS = map u [''challenge'', ''signature'']"

definition REQUIRED_IDENTITY_HINT_FIELDS :: "ustr list" where
  "REQUIRED_IDENTITY_HINT_FIELDS = map u [''type'', ''subject'']"

definition REQUIRED_MANIFEST_FIELDS :: "ustr list" where
  "REQUIRED_MANIFEST_FIELDS =
     map u [''version'', ''aid'', ''identity_hint'', ''handshake_endpoint'', ''accepted_trust_anchors'',
            ''offered_capabilities'', ''proof_of_possession'', ''published_at'', ''expires_at'', ''signature'']"

definition IDENTITY_HINT_FIELDS :: "ustr list" where
  "IDENTITY_HINT_FIELDS = map u [''type'', ''issuer'', ''subject'', ''public_key'']"

definition IDENTITY_HINT_TYPE_VALUES :: "ustr list" where
  "IDENTITY_HINT_TYPE_VALUES = map u [''oidc'', ''pinned_key'', ''spiffe'']"

definition SIGNATURE_ALGORITHMS :: "ustr list" where
  "SIGNATURE_ALGORITHMS = map u [''ed25519'', ''p256'']"

definition DISPLAY_NAME_MAX_LENGTH :: nat where
  "DISPLAY_NAME_MAX_LENGTH = 128"

abbreviation manifest_invalid :: "'a res" where
  "manifest_invalid \<equiv> raise ''MANIFEST_INVALID''"

definition shape :: "ustr list \<Rightarrow> (ustr \<times> jtype list) list \<Rightarrow> pyval \<Rightarrow> unit res" where
  "shape required types obj =
     ensure (is_dict obj) manifest_invalid (
     bindE (require_members required ''MANIFEST_INVALID'' (the_dict obj)) (\<lambda>_.
       check_types types ''MANIFEST_INVALID'' (the_dict obj)))"

section \<open>Grammar\<close>

definition ARRAY_ITEM_RULES :: "(ustr \<times> (ustr \<Rightarrow> bool)) list" where
  "ARRAY_ITEM_RULES =
     [(u ''accepted_trust_anchors'', is_uri),
      (u ''offered_capabilities'', capability_pattern),
      (u ''required_peer_capabilities'', capability_pattern),
      (u ''accepted_identity_types'', (\<lambda>i. i \<in> set IDENTITY_HINT_TYPE_VALUES)),
      (u ''accepted_signature_algorithms'', (\<lambda>i. i \<in> set SIGNATURE_ALGORITHMS))]"

definition array_ok :: "dict \<Rightarrow> ustr \<times> (ustr \<Rightarrow> bool) \<Rightarrow> unit res" where
  "array_ok man rule =
     (let items = the_list (get_or (PList []) man (fst rule)) in
      bindE (eachE (\<lambda>i. ensure (is_str i) manifest_invalid (ensure (snd rule (the_str i)) manifest_invalid (Inr ())))
               items) (\<lambda>_.
      ensure (distinct items) manifest_invalid (Inr ())))"

text \<open>\<open>v < n\<close> for a value whose type is already known to be an integer or an integral float\<close>

definition below :: "pyval \<Rightarrow> int \<Rightarrow> bool" where
  "below v n = (case py_int v of Inr i \<Rightarrow> i < n | Inl e \<Rightarrow> False)"

definition validate_grammar :: "dict \<Rightarrow> unit res" where
  "validate_grammar man =
     ensure (aid_pattern (the_str (get man (u ''aid'')))) manifest_invalid (
     ensure (length (the_str (get_or (PStr []) man (u ''display_name''))) \<le> DISPLAY_NAME_MAX_LENGTH) manifest_invalid (
     let endpoint = the_str (get man (u ''handshake_endpoint'')) in
     ensure (strip_prefix (u ''https://'') endpoint \<noteq> None \<and> is_uri endpoint) manifest_invalid (
     bindE (eachE (array_ok man) ARRAY_ITEM_RULES) (\<lambda>_.
     ensure (\<not> below (get man (u ''published_at'')) 0) manifest_invalid (
     ensure (\<not> below (get man (u ''expires_at'')) 1) manifest_invalid (
     let pop = the_dict (get man (u ''proof_of_possession'')) in
     ensure (b64_run 22 (the_str (get pop (u ''challenge'')))) manifest_invalid (
     ensure (signature_pattern (the_str (get pop (u ''signature'')))) manifest_invalid (
     ensure (signature_pattern (the_str (get man (u ''signature'')))) manifest_invalid (Inr ())))))))))"

definition public_key_pattern :: "ustr \<Rightarrow> bool" where
  "public_key_pattern s \<longleftrightarrow> b64_run 43 s \<or> b64_run 44 s"

definition validate_identity_hint :: "dict \<Rightarrow> unit res" where
  "validate_identity_hint hint =
     (let hint_type = get hint (u ''type''); subject = the_str (get hint (u ''subject''));
          has_issuer = has hint (u ''issuer''); has_key = has hint (u ''public_key'') in
      ensure (the_str hint_type \<in> set IDENTITY_HINT_TYPE_VALUES) manifest_invalid (
      ensure (subject \<noteq> []) manifest_invalid (
      ensure (has_issuer \<longrightarrow> is_uri (the_str (get hint (u ''issuer'')))) manifest_invalid (
      bindE (if hint_type = PStr (u ''oidc'') then
               ensure has_issuer manifest_invalid (ensure (\<not> has_key) manifest_invalid (Inr ()))
             else if hint_type = PStr (u ''spiffe'') then
               ensure (\<not> has_issuer \<and> \<not> has_key) manifest_invalid (
               ensure (length subject \<le> 2048 \<and> spiffe_hint_subject subject) manifest_invalid (Inr ()))
             else ensure has_key manifest_invalid (Inr ())) (\<lambda>_.
      ensure (has_key \<longrightarrow> public_key_pattern (the_str (get hint (u ''public_key'')))) manifest_invalid (Inr ()))))))"

section \<open>Verification\<close>

definition verify_manifest :: "crypto \<Rightarrow> dict \<Rightarrow> int \<Rightarrow> pyval res" where
  "verify_manifest C inp now =
     bindE (item inp (u ''manifest'')) (\<lambda>v.
     bindE (shape REQUIRED_MANIFEST_FIELDS MANIFEST_TYPES v) (\<lambda>_.
     let man = the_dict v; pop_v = get man (u ''proof_of_possession''); hint_v = get man (u ''identity_hint'') in
     bindE (shape REQUIRED_POP_FIELDS POP_TYPES pop_v) (\<lambda>_.
     bindE (shape REQUIRED_IDENTITY_HINT_FIELDS IDENTITY_HINT_TYPES hint_v) (\<lambda>_.
     bindE (py_int (get_or (PInt now) inp (u ''now''))) (\<lambda>now.
     bindE (py_in (get man (u ''version'')) (get_or (PList [PStr PROTOCOL_VERSION]) inp (u ''supported_versions'')))
       (\<lambda>supported.
     ensure supported (raise ''MANIFEST_VERSION_UNKNOWN'') (
     bindE (validate_grammar man) (\<lambda>_.
     bindE (validate_identity_hint (the_dict hint_v)) (\<lambda>_.
     bindE (reject_unknown_fields MANIFEST_FIELDS ''MANIFEST_INVALID'' v) (\<lambda>_.
     bindE (reject_unknown_fields POP_FIELDS ''MANIFEST_INVALID'' pop_v) (\<lambda>_.
     bindE (reject_unknown_fields IDENTITY_HINT_FIELDS ''MANIFEST_INVALID'' hint_v) (\<lambda>_.
     bindE (py_int (get man (u ''expires_at''))) (\<lambda>expires_at.
     ensure (now < expires_at) (raise ''MANIFEST_EXPIRED'') (
     bindE (catchE is_value_error (parse_aid C (the_str (get man (u ''aid'')))) (\<lambda>_. manifest_invalid)) (\<lambda>a.
     let pop = the_dict pop_v in
     bindE (decode_tagged_signature (get pop (u ''signature'')) a ''MANIFEST_POP_FAILED'') (\<lambda>pop_sig.
     bindE (b64url_decode (the_str (get pop (u ''challenge'')))) (\<lambda>challenge.
     bindE (verify_digest C (aid_key a) (sha256 challenge) pop_sig) (\<lambda>held.
     ensure held (raise ''MANIFEST_POP_FAILED'') (
     bindE (decode_tagged_signature (get man (u ''signature'')) a ''MANIFEST_SIGNATURE_INVALID'') (\<lambda>man_sig.
     bindE (canonical_bytes ''MANIFEST_INVALID'' (PDict (without (u ''signature'') man))) (\<lambda>b.
     bindE (verify_digest C (aid_key a) (sha256 b) man_sig) (\<lambda>good.
     ensure good (raise ''MANIFEST_SIGNATURE_INVALID'') (
       Inr (PDict [(u ''aid'', get man (u ''aid''))]))))))))))))))))))))))))"

text \<open>The loop of \<open>resolve_manifest\<close>: the first Manifest of the wanted AID decides.\<close>

fun resolve_loop :: "crypto \<Rightarrow> ustr \<Rightarrow> int \<Rightarrow> pyval list \<Rightarrow> (aid \<times> dict) res" where
  "resolve_loop C a now [] = raise_retryable ''KEY_RESOLUTION_FAILED''"
| "resolve_loop C a now (v # vs) =
     (if \<not> (is_dict v \<and> get (the_dict v) (u ''aid'') = PStr a) then resolve_loop C a now vs
      else
        catchE (\<lambda>e. is_aitp e \<or> is_value_error e)
          (bindE (verify_manifest C [(u ''manifest'', v), (u ''now'', PInt now)] now) (\<lambda>_.
           bindE (parse_aid C a) (\<lambda>parsed. Inr (parsed, the_dict v))))
          (\<lambda>_. raise_retryable ''KEY_RESOLUTION_FAILED''))"

definition resolve_manifest :: "crypto \<Rightarrow> ustr \<Rightarrow> pyval \<Rightarrow> int \<Rightarrow> (aid \<times> dict) res" where
  "resolve_manifest C a manifests now =
     resolve_loop C a now (case manifests of PList vs \<Rightarrow> vs | v \<Rightarrow> [v])"

definition resolve_key_from_manifests :: "crypto \<Rightarrow> ustr \<Rightarrow> pyval \<Rightarrow> int \<Rightarrow> aid res" where
  "resolve_key_from_manifests C a manifests now =
     bindE (resolve_manifest C a manifests now) (\<lambda>(parsed, man). Inr parsed)"

section \<open>Facts\<close>

text \<open>The time \<open>verify_manifest\<close> uses: the input's own \<open>now\<close> when it has one\<close>

definition effective_now :: "dict \<Rightarrow> int \<Rightarrow> int res" where
  "effective_now inp now = py_int (get_or (PInt now) inp (u ''now''))"

text \<open>The grammar, gate by gate, on a Manifest whose members have the schema's types\<close>

definition manifest_wellformed :: "dict \<Rightarrow> bool" where
  "manifest_wellformed man \<longleftrightarrow>
     (let pop = get man (u ''proof_of_possession''); hint = get man (u ''identity_hint'') in
      shape REQUIRED_MANIFEST_FIELDS MANIFEST_TYPES (PDict man) = Inr () \<and>
      shape REQUIRED_POP_FIELDS POP_TYPES pop = Inr () \<and>
      shape REQUIRED_IDENTITY_HINT_FIELDS IDENTITY_HINT_TYPES hint = Inr () \<and>
      validate_grammar man = Inr () \<and> validate_identity_hint (the_dict hint) = Inr () \<and>
      (\<forall>k. has man k \<longrightarrow> k \<in> set MANIFEST_FIELDS) \<and> (\<forall>k. has (the_dict pop) k \<longrightarrow> k \<in> set POP_FIELDS) \<and>
      (\<forall>k. has (the_dict hint) k \<longrightarrow> k \<in> set IDENTITY_HINT_FIELDS))"

lemma shape_ok: "shape req tys v = Inr () \<Longrightarrow> is_dict v"
  by (auto simp: shape_def ensure_raise_ok)

lemma manifest_member:
  assumes "shape REQUIRED_MANIFEST_FIELDS MANIFEST_TYPES (PDict man) = Inr ()"
  shows "is_str (get man (u ''aid''))" "is_dict (get man (u ''proof_of_possession''))"
    "\<exists>x. py_int (get man (u ''expires_at'')) = Inr x"
proof -
  have req: "require_members REQUIRED_MANIFEST_FIELDS ''MANIFEST_INVALID'' man = Inr ()"
    and tys: "check_types MANIFEST_TYPES ''MANIFEST_INVALID'' man = Inr ()"
    using assms by (simp_all add: shape_def bindE_ok)
  note m = typed_member [OF req tys, unfolded REQUIRED_MANIFEST_FIELDS_def MANIFEST_TYPES_def]
  show "is_str (get man (u ''aid''))" "is_dict (get man (u ''proof_of_possession''))"
    using m [of "u ''aid''" "[TStr]"] m [of "u ''proof_of_possession''" "[TDict]"] by simp_all
  have "is_int (get man (u ''expires_at'')) \<or> is_integral_float (get man (u ''expires_at''))"
    using m [of "u ''expires_at''" "[TInt]"] by simp
  then show "\<exists>x. py_int (get man (u ''expires_at'')) = Inr x" by (rule int_value_py_int)
qed

lemma manifest_gates:
  assumes man: "get inp (u ''manifest'') = PDict man"
    and shapes: "shape REQUIRED_MANIFEST_FIELDS MANIFEST_TYPES (get inp (u ''manifest'')) = Inr ()"
      "shape REQUIRED_POP_FIELDS POP_TYPES (get (the_dict (get inp (u ''manifest''))) (u ''proof_of_possession'')) = Inr ()"
      "shape REQUIRED_IDENTITY_HINT_FIELDS IDENTITY_HINT_TYPES (get (the_dict (get inp (u ''manifest''))) (u ''identity_hint'')) = Inr ()"
    and gram: "validate_grammar (the_dict (get inp (u ''manifest''))) = Inr ()"
      "validate_identity_hint (the_dict (get (the_dict (get inp (u ''manifest''))) (u ''identity_hint''))) = Inr ()"
      "reject_unknown_fields MANIFEST_FIELDS ''MANIFEST_INVALID'' (get inp (u ''manifest'')) = Inr ()"
      "reject_unknown_fields POP_FIELDS ''MANIFEST_INVALID'' (get (the_dict (get inp (u ''manifest''))) (u ''proof_of_possession'')) = Inr ()"
      "reject_unknown_fields IDENTITY_HINT_FIELDS ''MANIFEST_INVALID'' (get (the_dict (get inp (u ''manifest''))) (u ''identity_hint'')) = Inr ()"
  shows "manifest_wellformed man"
proof -
  note m = man [THEN arg_cong [of _ _ the_dict], unfolded the_dict.simps]
  obtain p where p: "get man (u ''proof_of_possession'') = PDict p" using shape_ok [OF shapes(2)] by (auto simp: m is_dict_iff)
  obtain h where h: "get man (u ''identity_hint'') = PDict h" using shape_ok [OF shapes(3)] by (auto simp: m is_dict_iff)
  have "(\<forall>k. has man k \<longrightarrow> k \<in> set MANIFEST_FIELDS) \<and> (\<forall>k. has p k \<longrightarrow> k \<in> set POP_FIELDS) \<and>
      (\<forall>k. has h k \<longrightarrow> k \<in> set IDENTITY_HINT_FIELDS)"
    using gram(3-5) unfolding man m p h the_dict.simps reject_unknown_fields_ok by simp
  then show ?thesis
    using shapes gram(1,2) unfolding manifest_wellformed_def Let_def man m p h the_dict.simps by blast
qed

text \<open>The gates fail only with \<open>MANIFEST_INVALID\<close> or, for an extra member, \<open>UNKNOWN_FIELD\<close>.\<close>

definition form_err :: "exn \<Rightarrow> bool" where
  "form_err e \<longleftrightarrow> e \<in> {AitpError ''MANIFEST_INVALID'' False, AitpError ''UNKNOWN_FIELD'' False}"

lemma form_fails:
  "fails_in form_err (shape req tys v)" "fails_in form_err (validate_grammar man)"
  "fails_in form_err (validate_identity_hint hint)" "fails_in form_err (reject_unknown_fields fs ''MANIFEST_INVALID'' v)"
proof -
  have mem: "fails_in form_err (require_members req ''MANIFEST_INVALID'' d)" for d
    by (simp add: require_members_def form_err_def ensure_def)
  have tys: "fails_in form_err (check_types tys ''MANIFEST_INVALID'' d)" for d
    by (auto simp: check_types_def form_err_def ensure_def intro!: fails_intros)
  show "fails_in form_err (shape req tys v)"
    unfolding shape_def by (intro fails_intros mem tys) (simp add: form_err_def)
  show "fails_in form_err (validate_grammar man)"
    unfolding validate_grammar_def array_ok_def Let_def by (intro fails_intros) (simp_all add: form_err_def)
  show "fails_in form_err (validate_identity_hint hint)"
    unfolding validate_identity_hint_def Let_def by (intro fails_intros) (simp_all add: form_err_def)
  show "fails_in form_err (reject_unknown_fields fs ''MANIFEST_INVALID'' v)"
    by (cases v) (auto simp: reject_unknown_fields_def form_err_def ensure_def)
qed

text \<open>With the resolver's own arguments it fails only with an AITP error or a \<open>ValueError\<close>.\<close>

lemma verify_manifest_fails:
  "fails_in (\<lambda>e. is_aitp e \<or> is_value_error e) (verify_manifest C [(u ''manifest'', v), (u ''now'', PInt now)] now)"
proof -
  have form: "fails_in (\<lambda>e. is_aitp e \<or> is_value_error e) m" if "fails_in form_err m" for m :: "'z res"
    by (rule fails_in_weaken [OF that]) (auto simp: form_err_def)
  have tag: "fails_in (\<lambda>e. is_aitp e \<or> is_value_error e) (decode_tagged_signature s a c)" for s a c
    unfolding decode_tagged_signature_def by (rule fails_in_weaken [OF decode_tagged_err]) simp
  have dec: "fails_in (\<lambda>e. is_aitp e \<or> is_value_error e) (b64url_decode s)" for s
    by (rule b64url_decode_fails) simp
  have canon: "fails_in (\<lambda>e. is_aitp e \<or> is_value_error e) (canonical_bytes c v)" for c v
    by (rule fails_inI) (auto dest: canonical_bytes_err)
  have exp: "fails_in (\<lambda>e. is_aitp e \<or> is_value_error e) (py_int (get (the_dict v) (u ''expires_at'')))"
    if "shape REQUIRED_MANIFEST_FIELDS MANIFEST_TYPES v = Inr ()"
    using manifest_member(3) [of "the_dict v"] shape_ok [OF that] that by (auto simp: is_dict_iff)
  have aid: "fails_in (\<lambda>e. is_aitp e \<or> is_value_error e) (catchE is_value_error (parse_aid C s) (\<lambda>_. manifest_invalid))" for s
    by (intro fails_in_catchE fails_inI) (auto dest: parse_aid_err)
  have digest: "fails_in (\<lambda>e. is_aitp e \<or> is_value_error e) (verify_digest C (aid_key a) d sig)"
    if "parse_aid C s = Inr a" for s a d sig
    using verify_digest_aid [OF that, of d sig] by auto
  show ?thesis
    unfolding verify_manifest_def Let_def
    by (auto intro!: fails_intros form_fails [THEN form] tag dec canon exp aid simp: py_in_def catchE_raise_ok intro: digest)
qed

text \<open>An accepted Manifest is well-formed, and the verdict names its AID.\<close>

lemma verified_manifest:
  assumes "verify_manifest C inp now = Inr verdict"
  shows "\<exists>man. get inp (u ''manifest'') = PDict man \<and> manifest_wellformed man \<and> verdict = PDict [(u ''aid'', get man (u ''aid''))]"
proof -
  let ?man = "the_dict (get inp (u ''manifest''))"
  from assms have shapes: "shape REQUIRED_MANIFEST_FIELDS MANIFEST_TYPES (get inp (u ''manifest'')) = Inr ()"
      "shape REQUIRED_POP_FIELDS POP_TYPES (get ?man (u ''proof_of_possession'')) = Inr ()"
      "shape REQUIRED_IDENTITY_HINT_FIELDS IDENTITY_HINT_TYPES (get ?man (u ''identity_hint'')) = Inr ()"
    and gram: "validate_grammar ?man = Inr ()" "validate_identity_hint (the_dict (get ?man (u ''identity_hint''))) = Inr ()"
      "reject_unknown_fields MANIFEST_FIELDS ''MANIFEST_INVALID'' (get inp (u ''manifest'')) = Inr ()"
      "reject_unknown_fields POP_FIELDS ''MANIFEST_INVALID'' (get ?man (u ''proof_of_possession'')) = Inr ()"
      "reject_unknown_fields IDENTITY_HINT_FIELDS ''MANIFEST_INVALID'' (get ?man (u ''identity_hint'')) = Inr ()"
    and verdict: "PDict [(u ''aid'', get ?man (u ''aid''))] = verdict"
    unfolding verify_manifest_def Let_def item_bind_ok unfolding runs by blast+
  obtain man where man: "get inp (u ''manifest'') = PDict man" using shape_ok [OF shapes(1)] by (auto simp: is_dict_iff)
  then show ?thesis using manifest_gates [OF man shapes gram] verdict by auto
qed

section \<open>Properties\<close>

text \<open>
  C11. An accepted Manifest is well-formed in every gate, of a supported version and unexpired, and
  the key of its own AID made both signatures: over the SHA-256 of the challenge it proves
  possession with, and over the canonical bytes of everything but the signature itself.
\<close>

theorem verify_manifest_sound:
  assumes "verify_manifest C inp now = Inr verdict"
  shows "\<exists>man aid_text a t x pop pop_sig challenge man_sig b. get inp (u ''manifest'') = PDict man \<and> manifest_wellformed man \<and>
    py_in (get man (u ''version'')) (get_or (PList [PStr PROTOCOL_VERSION]) inp (u ''supported_versions'')) = Inr True \<and>
    effective_now inp now = Inr t \<and> py_int (get man (u ''expires_at'')) = Inr x \<and> t < x \<and>
    get man (u ''aid'') = PStr aid_text \<and> parse_aid C aid_text = Inr a \<and>
    get man (u ''proof_of_possession'') = PDict pop \<and>
    decode_tagged_signature (get pop (u ''signature'')) a ''MANIFEST_POP_FAILED'' = Inr pop_sig \<and>
    b64url_decode (the_str (get pop (u ''challenge''))) = Inr challenge \<and>
    verify_digest C (aid_key a) (sha256 challenge) pop_sig = Inr True \<and>
    decode_tagged_signature (get man (u ''signature'')) a ''MANIFEST_SIGNATURE_INVALID'' = Inr man_sig \<and>
    canonicalize (PDict (without (u ''signature'') man)) = Inr b \<and>
    verify_digest C (aid_key a) (sha256 b) man_sig = Inr True \<and> verdict = PDict [(u ''aid'', PStr aid_text)]"
proof -
  let ?man = "the_dict (get inp (u ''manifest''))"
  let ?pop = "the_dict (get ?man (u ''proof_of_possession''))" and ?hint = "get ?man (u ''identity_hint'')"
  from assms obtain t x a pop_sig challenge man_sig b where shapes:
      "shape REQUIRED_MANIFEST_FIELDS MANIFEST_TYPES (get inp (u ''manifest'')) = Inr ()"
      "shape REQUIRED_POP_FIELDS POP_TYPES (get ?man (u ''proof_of_possession'')) = Inr ()"
      "shape REQUIRED_IDENTITY_HINT_FIELDS IDENTITY_HINT_TYPES ?hint = Inr ()"
    and now: "py_int (get_or (PInt now) inp (u ''now'')) = Inr t"
    and ver: "py_in (get ?man (u ''version'')) (get_or (PList [PStr PROTOCOL_VERSION]) inp (u ''supported_versions'')) = Inr True"
    and gram: "validate_grammar ?man = Inr ()" "validate_identity_hint (the_dict ?hint) = Inr ()"
      "reject_unknown_fields MANIFEST_FIELDS ''MANIFEST_INVALID'' (get inp (u ''manifest'')) = Inr ()"
      "reject_unknown_fields POP_FIELDS ''MANIFEST_INVALID'' (get ?man (u ''proof_of_possession'')) = Inr ()"
      "reject_unknown_fields IDENTITY_HINT_FIELDS ''MANIFEST_INVALID'' ?hint = Inr ()"
    and exp: "py_int (get ?man (u ''expires_at'')) = Inr x" "t < x"
    and a: "parse_aid C (the_str (get ?man (u ''aid''))) = Inr a"
    and pop: "decode_tagged_signature (get ?pop (u ''signature'')) a ''MANIFEST_POP_FAILED'' = Inr pop_sig"
      "b64url_decode (the_str (get ?pop (u ''challenge''))) = Inr challenge"
      "verify_digest C (aid_key a) (sha256 challenge) pop_sig = Inr True"
    and sig: "decode_tagged_signature (get ?man (u ''signature'')) a ''MANIFEST_SIGNATURE_INVALID'' = Inr man_sig"
      "canonicalize (PDict (without (u ''signature'') ?man)) = Inr b"
      "verify_digest C (aid_key a) (sha256 b) man_sig = Inr True"
    and verdict: "PDict [(u ''aid'', get ?man (u ''aid''))] = verdict"
    unfolding verify_manifest_def Let_def item_bind_ok unfolding runs canonical_bytes_ok
    by (elim exE conjE) (rule that, assumption+)
  obtain man where man: "get inp (u ''manifest'') = PDict man" using shape_ok [OF shapes(1)] by (auto simp: is_dict_iff)
  have m: "the_dict (get inp (u ''manifest'')) = man" by (simp add: man)
  obtain s where s: "get man (u ''aid'') = PStr s"
    using manifest_member(1) [OF shapes(1) [unfolded man]] by (auto simp: is_str_iff)
  obtain p where p: "get man (u ''proof_of_possession'') = PDict p"
    using manifest_member(2) [OF shapes(1) [unfolded man]] by (auto simp: is_dict_iff)
  have wf: "manifest_wellformed man" using man shapes gram by (rule manifest_gates)
  show ?thesis
    by (intro exI [of _ man] exI [of _ s] exI [of _ a] exI [of _ t] exI [of _ x] exI [of _ p] exI [of _ pop_sig]
        exI [of _ challenge] exI [of _ man_sig] exI [of _ b] conjI)
      (rule man wf ver [unfolded m] now [folded effective_now_def] exp(1) [unfolded m] exp(2) s a [unfolded m s the_str.simps] p
        pop [unfolded m p the_dict.simps] sig [unfolded m] verdict [symmetric, unfolded m s])+
qed

text \<open>
  C12. Resolving a peer's key is fail-closed and takes no second chance: the first Manifest of the
  wanted AID decides, and unless it verifies the answer is the retryable
  \<open>KEY_RESOLUTION_FAILED\<close>, whatever was wrong with it.
\<close>

theorem resolve_manifest_first_decides:
  "resolve_manifest C a ms now =
     (case List.find (\<lambda>v. is_dict v \<and> get (the_dict v) (u ''aid'') = PStr a)
         (case ms of PList vs \<Rightarrow> vs | v \<Rightarrow> [v]) of
        None \<Rightarrow> raise_retryable ''KEY_RESOLUTION_FAILED''
      | Some v \<Rightarrow>
          (case (verify_manifest C [(u ''manifest'', v), (u ''now'', PInt now)] now, parse_aid C a) of
             (Inr _, Inr parsed) \<Rightarrow> Inr (parsed, the_dict v)
           | _ \<Rightarrow> raise_retryable ''KEY_RESOLUTION_FAILED''))"
proof -
  have loop: "resolve_loop C a now vs =
     (case List.find (\<lambda>v. is_dict v \<and> get (the_dict v) (u ''aid'') = PStr a) vs of
        None \<Rightarrow> raise_retryable ''KEY_RESOLUTION_FAILED''
      | Some v \<Rightarrow>
          (case (verify_manifest C [(u ''manifest'', v), (u ''now'', PInt now)] now, parse_aid C a) of
             (Inr _, Inr parsed) \<Rightarrow> Inr (parsed, the_dict v)
           | _ \<Rightarrow> raise_retryable ''KEY_RESOLUTION_FAILED''))" for vs
  proof (induction vs)
    case (Cons v vs)
    then show ?case
      using fails_inD [OF verify_manifest_fails, of C v now] parse_aid_err [of C a]
      by (auto simp: bindE_def split: sum.splits)
  qed simp
  show ?thesis unfolding resolve_manifest_def by (rule loop)
qed

text \<open>
  Check order: a Manifest is reported expired, unproven or wrongly signed only when it is
  well-formed and of a supported version, so no cryptographic verdict is given on a malformed one.
\<close>

lemma manifest_form_before_crypto:
  assumes "verify_manifest C inp now = Inl (AitpError c r)"
    and "c \<in> {''MANIFEST_EXPIRED'', ''MANIFEST_POP_FAILED'', ''MANIFEST_SIGNATURE_INVALID''}"
  shows "\<exists>man. get inp (u ''manifest'') = PDict man \<and> manifest_wellformed man \<and>
    py_in (get man (u ''version'')) (get_or (PList [PStr PROTOCOL_VERSION]) inp (u ''supported_versions'')) = Inr True"
proof -
  let ?e = "AitpError c r" and ?man = "the_dict (get inp (u ''manifest''))"
  let ?pop = "get ?man (u ''proof_of_possession'')" and ?hint = "get ?man (u ''identity_hint'')"
  have form: "never ?e m" if "fails_in form_err m" for m :: "'z res"
    using never_fails [OF that, of ?e] assms(2) by (auto simp: form_err_def)
  have plain: "never ?e (item d k)" "never ?e (py_int v)" "never ?e (py_in w v)" for d k v w
    by (auto simp: never_def item_def py_in_def dest: py_int_err split: option.splits pyval.splits)
  have ver: "never ?e (raise ''MANIFEST_VERSION_UNKNOWN'')" using assms(2) by auto
  from assms(1) obtain t where man: "shape REQUIRED_MANIFEST_FIELDS MANIFEST_TYPES (get inp (u ''manifest'')) = Inr ()"
    and shapes: "shape REQUIRED_POP_FIELDS POP_TYPES ?pop = Inr ()"
      "shape REQUIRED_IDENTITY_HINT_FIELDS IDENTITY_HINT_TYPES ?hint = Inr ()"
    and vers: "py_in (get ?man (u ''version'')) (get_or (PList [PStr PROTOCOL_VERSION]) inp (u ''supported_versions'')) = Inr True"
    and gram: "validate_grammar ?man = Inr ()" "validate_identity_hint (the_dict ?hint) = Inr ()"
      "reject_unknown_fields MANIFEST_FIELDS ''MANIFEST_INVALID'' (get inp (u ''manifest'')) = Inr ()"
      "reject_unknown_fields POP_FIELDS ''MANIFEST_INVALID'' ?pop = Inr ()"
      "reject_unknown_fields IDENTITY_HINT_FIELDS ''MANIFEST_INVALID'' ?hint = Inr ()"
    unfolding verify_manifest_def Let_def
    by (simp only: late_bindE late_ensure form_fails [THEN form] plain ver ex_unit ex_true item_ok) blast
  obtain man where m: "get inp (u ''manifest'') = PDict man" using shape_ok [OF man] by (auto simp: is_dict_iff)
  have "manifest_wellformed man"
    using man shapes gram by (rule manifest_gates [OF m])
  then show ?thesis using m vers by auto
qed

section \<open>A sample Manifest\<close>

definition sample_hint :: dict where
  "sample_hint = [(u ''issuer'', PStr (u ''https://idp'')), (u ''subject'', PStr (u ''agent'')), (u ''type'', PStr (u ''oidc''))]"

definition sample_pop :: dict where
  "sample_pop = [(u ''challenge'', PStr (b64url_encode (replicate 16 0))), (u ''signature'', PStr sample_sig)]"

definition sample_manifest :: "bytes \<Rightarrow> dict" where
  "sample_manifest k =
     [(u ''accepted_trust_anchors'', PList [PStr (u ''https://idp'')]), (u ''aid'', PStr (ed_aid k)),
      (u ''expires_at'', PInt (REFERENCE_CLOCK + 3600)), (u ''handshake_endpoint'', PStr (u ''https://a'')),
      (u ''identity_hint'', PDict sample_hint), (u ''offered_capabilities'', PList [PStr (u ''read'')]),
      (u ''proof_of_possession'', PDict sample_pop), (u ''published_at'', PInt 0), (u ''signature'', PStr sample_sig),
      (u ''version'', PStr PROTOCOL_VERSION)]"

lemma sample_uris: "is_uri (u ''https://idp'')" "is_uri (u ''https://a'')" "strip_prefix (u ''https://'') (u ''https://a'') \<noteq> None"
  by code_simp+

lemma sample_aid_pattern: "length k = 32 \<Longrightarrow> aid_pattern (ed_aid k)"
proof -
  assume k: "length k = 32"
  have strip: "strip_prefix (u ''aid:pubkey:'') (ed_aid k) = Some (b64url_encode k)"
    by (simp add: ed_aid_def)
  have no: "58 \<notin> set (b64url_encode k)" using alphabet_no_colon [OF b64url_encode_alphabet] .
  have "58 \<in> set (u ''ed25519:'' @ r)" "58 \<in> set (u ''p256:'' @ r)" for r by (simp_all add: u_def)
  then have "strip_prefix (u ''ed25519:'') (b64url_encode k) = None" "strip_prefix (u ''p256:'') (b64url_encode k) = None"
    unfolding strip_prefix_None using no by metis+
  then show ?thesis
    using k b64url_encode_alphabet [of k] by (simp add: aid_pattern_def strip b64_run_def b64url_encode_length del: strip_prefix_Some)
qed

lemma sample_grammar: "length k = 32 \<Longrightarrow> validate_grammar (sample_manifest k) = Inr ()"
proof -
  assume k: "length k = 32"
  have "capability_pattern (u ''read'')" by code_simp
  then show ?thesis
    using sample_aid_pattern [OF k] sample_uris b64url_encode_alphabet [of "replicate 16 0"]
    by (simp add: validate_grammar_def Let_def sample_manifest_def ARRAY_ITEM_RULES_def array_ok_def below_def
        DISPLAY_NAME_MAX_LENGTH_def b64_run_def b64url_encode_length sample_pop_def REFERENCE_CLOCK_def)
qed

lemma sample_hint_ok: "validate_identity_hint sample_hint = Inr ()"
  using sample_uris(1) by (simp add: validate_identity_hint_def Let_def sample_hint_def IDENTITY_HINT_TYPE_VALUES_def)

lemma sample_shapes:
  "shape REQUIRED_MANIFEST_FIELDS MANIFEST_TYPES (PDict (sample_manifest k)) = Inr ()"
  "shape REQUIRED_POP_FIELDS POP_TYPES (PDict sample_pop) = Inr ()"
  "shape REQUIRED_IDENTITY_HINT_FIELDS IDENTITY_HINT_TYPES (PDict sample_hint) = Inr ()"
  "reject_unknown_fields MANIFEST_FIELDS c (PDict (sample_manifest k)) = Inr ()"
  "reject_unknown_fields POP_FIELDS c (PDict sample_pop) = Inr ()"
  "reject_unknown_fields IDENTITY_HINT_FIELDS c (PDict sample_hint) = Inr ()"
  by (simp_all add: shape_def require_members_def check_types_def type_ok_def reject_unknown_fields_def
      REQUIRED_MANIFEST_FIELDS_def MANIFEST_TYPES_def MANIFEST_FIELDS_def sample_manifest_def
      REQUIRED_POP_FIELDS_def POP_TYPES_def POP_FIELDS_def sample_pop_def
      REQUIRED_IDENTITY_HINT_FIELDS_def IDENTITY_HINT_TYPES_def IDENTITY_HINT_FIELDS_def sample_hint_def)

lemma sample_manifest_canonical: "\<exists>b. canonicalize (PDict (without (u ''signature'') (sample_manifest k))) = Inr b"
  by (intro canonicalize_plain)
    (simp_all add: sample_manifest_def sample_hint_def sample_pop_def REFERENCE_CLOCK_def ed_aid_def max_depth_def
      max_nodes_visited_def)

lemma sample_manifest_get:
  "get (sample_manifest k) (u ''proof_of_possession'') = PDict sample_pop"
  "get (sample_manifest k) (u ''identity_hint'') = PDict sample_hint"
  "get (sample_manifest k) (u ''version'') = PStr PROTOCOL_VERSION"
  "get (sample_manifest k) (u ''expires_at'') = PInt (REFERENCE_CLOCK + 3600)"
  "get (sample_manifest k) (u ''aid'') = PStr (ed_aid k)" "get (sample_manifest k) (u ''signature'') = PStr sample_sig"
  "get sample_pop (u ''signature'') = PStr sample_sig" "get sample_pop (u ''challenge'') = PStr (b64url_encode (replicate 16 0))"
  "get sample_hint (u ''type'') = PStr (u ''oidc'')"
  by (simp_all add: sample_manifest_def sample_pop_def sample_hint_def)

lemma sample_manifest_verified:
  assumes k: "length k = 32" and m: "get inp (u ''manifest'') = PDict (sample_manifest k)" "has inp (u ''manifest'')"
    and t: "py_int (get_or (PInt now) inp (u ''now'')) = Inr t" "t \<le> REFERENCE_CLOCK" "\<not> has inp (u ''supported_versions'')"
  shows "verify_manifest sample_crypto inp now = Inr (PDict [(u ''aid'', PStr (ed_aid k))])"
  using assms sample_grammar [OF k] sample_hint_ok sample_shapes sample_manifest_canonical [of k]
  by (auto simp: verify_manifest_def Let_def sample_manifest_get has_item b64url_decode_encode canonical_bytes_def)

lemma verify_manifest_sound_witness:
  "\<exists>man. get [(u ''manifest'', PDict (sample_manifest (replicate 32 0)))] (u ''manifest'') = PDict man \<and> manifest_wellformed man"
proof -
  have "verify_manifest sample_crypto [(u ''manifest'', PDict (sample_manifest (replicate 32 0)))] REFERENCE_CLOCK =
      Inr (PDict [(u ''aid'', PStr (ed_aid (replicate 32 0)))])"
    by (rule sample_manifest_verified [where t = REFERENCE_CLOCK]) simp_all
  from verify_manifest_sound [OF this] show ?thesis by blast
qed

lemma manifest_form_before_crypto_witness:
  "\<exists>man. get [(u ''manifest'', PDict (sample_manifest (replicate 32 0)))] (u ''manifest'') = PDict man \<and> manifest_wellformed man"
proof -
  have "verify_manifest sample_crypto [(u ''manifest'', PDict (sample_manifest (replicate 32 0)))] (REFERENCE_CLOCK + 3600) =
      Inl (AitpError ''MANIFEST_EXPIRED'' False)"
    using sample_grammar [of "replicate 32 0"] sample_hint_ok sample_shapes
    by (simp add: verify_manifest_def Let_def sample_manifest_get)
  from manifest_form_before_crypto [OF this] show ?thesis by auto
qed

end
