(* ===== verification/Delegation.thy ===== *)
theory Delegation
  imports Tct Manifest
begin

text \<open>
  \<open>aitp_verifier/delegation.py\<close>: single-hop delegation tokens and, behind an opt-in, chains of
  up to three hops. Authority starts at a voucher the verifier itself issued and may only shrink
  from hop to hop; revocation is consulted after every signature.
\<close>

section \<open>The claims gate\<close>

definition MAX_DELEGATION_HOPS :: nat where
  "MAX_DELEGATION_HOPS = 3"

definition MULTIHOP_FEATURE :: ustr where
  "MULTIHOP_FEATURE = u ''experimental-multihop-delegation''"

definition DELEGATION_CLAIM_FIELDS :: "ustr list" where
  "DELEGATION_CLAIM_FIELDS =
     map u [''ver'', ''iss'', ''sub'', ''aud'', ''scope'', ''exp'', ''cnf'', ''voucher'', ''jti'', ''chain'',
            ''chain_hash'', ''ext'']"

definition DELEGATION_CNF_FIELDS :: "ustr list" where
  "DELEGATION_CNF_FIELDS = [u ''jkt'']"

definition DELEGATION_REQUIRED_CLAIMS :: "ustr list" where
  "DELEGATION_REQUIRED_CLAIMS = map u [''ver'', ''iss'', ''sub'', ''aud'', ''scope'', ''exp'', ''cnf'']"

definition DELEGATION_CLAIM_TYPES :: "(ustr \<times> jtype list) list" where
  "DELEGATION_CLAIM_TYPES =
     [(u ''ver'', [TStr]), (u ''iss'', [TStr]), (u ''sub'', [TStr]), (u ''aud'', [TStr]), (u ''scope'', [TList]),
      (u ''exp'', [TInt]), (u ''cnf'', [TDict]), (u ''voucher'', [TStr]), (u ''jti'', [TStr]), (u ''chain'', [TList]),
      (u ''chain_hash'', [TStr])]"

definition check_delegation_claims_shape :: "string \<Rightarrow> dict \<Rightarrow> unit res" where
  "check_delegation_claims_shape code cl =
     bindE (require_members DELEGATION_REQUIRED_CLAIMS code cl) (\<lambda>_.
     bindE (check_types DELEGATION_CLAIM_TYPES code cl) (\<lambda>_.
     ensure (list_all is_str (the_list (get cl (u ''scope'')))) (raise code) (
     bindE (reject_unknown_fields DELEGATION_CLAIM_FIELDS code (PDict cl)) (\<lambda>_.
       reject_unknown_fields DELEGATION_CNF_FIELDS code (get cl (u ''cnf''))))))"

definition verify_delegation_jws :: "crypto \<Rightarrow> pyval \<Rightarrow> ustr \<Rightarrow> dict res" where
  "verify_delegation_jws C token iss =
     bindE (verify_jws C token iss (u ''aitp-delegation+jwt'') ''TOKEN_TYP_MISMATCH'' ''TOKEN_ALG_MISMATCH''
              ''DELEGATION_INVALID_SIGNATURE'' no_check) (\<lambda>cl.
     bindE (check_delegation_claims_shape ''DELEGATION_INVALID_SIGNATURE'' cl) (\<lambda>_. Inr cl))"

definition resolve_issuer :: "crypto \<Rightarrow> dict \<Rightarrow> pyval \<Rightarrow> int \<Rightarrow> unit res" where
  "resolve_issuer C inp iss now =
     (if has inp (u ''issuer_manifests'') then
        bindE (resolve_key_from_manifests C (py_str iss) (get inp (u ''issuer_manifests'')) now) (\<lambda>_. Inr ())
      else Inr ())"

section \<open>The chain commitment\<close>

definition entry_digest :: "pyval \<Rightarrow> pyval res" where
  "entry_digest v = bindE (str_of v) (\<lambda>s. bindE (ascii_encode s) (\<lambda>b. Inr (PStr (b64url_encode (sha256 b)))))"

definition compute_chain_hash :: "pyval \<Rightarrow> ustr res" where
  "compute_chain_hash chain =
     bindE (py_iter chain) (\<lambda>entries.
     bindE (mapE entry_digest entries) (\<lambda>digests.
     bindE (canonicalize (PList digests)) (\<lambda>b. Inr (b64url_encode (sha256 b)))))"

definition py_len :: "pyval \<Rightarrow> nat res" where
  "py_len v = bindE (py_iter v) (\<lambda>xs. Inr (length xs))"

section \<open>Revocation\<close>

fun verified_bodies_loop :: "crypto \<Rightarrow> ustr \<Rightarrow> pyval list \<Rightarrow> dict list res" where
  "verified_bodies_loop C self_aid [] = Inr []"
| "verified_bodies_loop C self_aid (r # rs) =
     (let label = get (the_dict r) (u ''issuer_aid'') in
      case verify_snapshot_trust C (get (the_dict r) (u ''snapshot'')) of
        Inr body \<Rightarrow> bindE (verified_bodies_loop C self_aid rs) (\<lambda>bodies. Inr (body # bodies))
      | Inl e \<Rightarrow>
          if is_aitp e \<and> is_str label \<and> label \<noteq> PStr self_aid then verified_bodies_loop C self_aid rs
          else Inl e)"

definition verified_snapshot_bodies :: "crypto \<Rightarrow> dict \<Rightarrow> ustr \<Rightarrow> dict list res" where
  "verified_snapshot_bodies C inp self_aid =
     (case get inp (u ''revocation_snapshots'') of
        PNone \<Rightarrow> Inr []
      | PList snaps \<Rightarrow> verified_bodies_loop C self_aid snaps
      | _ \<Rightarrow> raise ''REVOCATION_SNAPSHOT_INVALID'')"

definition entry_jtis :: "dict \<Rightarrow> pyval list" where
  "entry_jtis body = map (\<lambda>e. get (the_dict e) (u ''jti'')) (the_list (get body (u ''entries'')))"

definition add_body :: "(ustr \<rightharpoonup> pyval list) \<Rightarrow> dict \<Rightarrow> (ustr \<rightharpoonup> pyval list)" where
  "add_body index body =
     (let i = the_str (get body (u ''issuer''))
      in index(i \<mapsto> (case index i of None \<Rightarrow> [] | Some js \<Rightarrow> js) @ entry_jtis body))"

definition revocation_index :: "dict list \<Rightarrow> (ustr \<rightharpoonup> pyval list)" where
  "revocation_index bodies = foldl add_body Map.empty bodies"

fun fresh_bodies :: "dict \<Rightarrow> int \<Rightarrow> dict list \<Rightarrow> dict list res" where
  "fresh_bodies policy now [] = Inr []"
| "fresh_bodies policy now (b # bs) =
     bindE (snapshot_is_stale b policy now) (\<lambda>stale.
     bindE (fresh_bodies policy now bs) (\<lambda>fresh. Inr (if stale then fresh else b # fresh)))"

definition apply_source_absence :: "fail_mode \<Rightarrow> unit res" where
  "apply_source_absence m = ensure (m \<noteq> Fail_closed) (raise ''DELEGATION_SOURCE_TCT_REVOKED'') (Inr ())"

definition check_source_tct_revocation ::
  "dict \<Rightarrow> dict list \<Rightarrow> ustr \<Rightarrow> pyval \<Rightarrow> int \<Rightarrow> unit res" where
  "check_source_tct_revocation inp bodies self_aid src_jti now =
     bindE (fresh_bodies (policy_of inp) now
              (filter (\<lambda>b. get b (u ''issuer'') = PStr self_aid) bodies)) (\<lambda>applicable.
     if applicable = [] then apply_source_absence (policy_fail_mode inp)
     else ensure (\<not> list_ex (on_deny_list src_jti) applicable) (raise ''DELEGATION_SOURCE_TCT_REVOKED'') (Inr ()))"

text \<open>The per-hop sweep over the hops' own \<open>jti\<close> values\<close>

definition sweep_hop :: "crypto \<Rightarrow> fail_mode \<Rightarrow> (ustr \<rightharpoonup> pyval list) \<Rightarrow> pyval \<Rightarrow> unit res" where
  "sweep_hop C mode revoked hop =
     bindE (parse_compact hop ''DELEGATION_INVALID_SIGNATURE'') (\<lambda>p.
     let iss = py_str (get (claims p) (u ''iss''));
         listed = (case revoked iss of None \<Rightarrow> [] | Some js \<Rightarrow> js) in
     ensure (get (claims p) (u ''jti'') \<notin> set listed) (raise ''DELEGATION_SOURCE_TCT_REVOKED'') (
     ensure (\<not> (revoked iss = None \<and> mode = Fail_closed)) (raise ''DELEGATION_SOURCE_TCT_REVOKED'') (Inr ())))"

section \<open>The voucher\<close>

text \<open>The embedded voucher: issued by the verifier, to the delegator, outliving and covering the hop.\<close>

definition check_embedded_voucher :: "crypto \<Rightarrow> ustr \<Rightarrow> dict \<Rightarrow> int \<Rightarrow> dict res" where
  "check_embedded_voucher C self_aid hc now =
     (let voucher = get hc (u ''voucher'') in
      ensure (is_str voucher) (raise ''DELEGATION_INVALID_VOUCHER'') (
      bindE (peek_iss voucher ''DELEGATION_INVALID_VOUCHER'') (\<lambda>v_iss.
      ensure (v_iss = PStr self_aid) (raise ''DELEGATION_INVALID_VOUCHER'') (
      bindE (verify_voucher_jws C voucher (py_str v_iss)) (\<lambda>vclaims.
      ensure (get vclaims (u ''sub'') = get hc (u ''iss'')) (raise ''DELEGATION_INVALID_VOUCHER'') (
      bindE (py_int (get vclaims (u ''exp''))) (\<lambda>vexp.
      bindE (py_int (get hc (u ''exp''))) (\<lambda>exp.
      ensure (\<not> (vexp \<le> now \<or> vexp < exp)) (raise ''DELEGATION_EXPIRED'') (
      ensure (py_subset (the_list (get hc (u ''scope''))) (the_list (get vclaims (u ''grants''))))
        (raise ''DELEGATION_SCOPE_EXCEEDED'') (
        Inr vclaims))))))))))"

section \<open>Chains\<close>

text \<open>
  One hop of a chain: \<open>prev\<close> is the verified predecessor (\<open>None\<close> for the root hop), \<open>seen\<close> the
  \<open>jti\<close> values so far and \<open>root\<close> the root voucher's claims.
\<close>

record hop_state =
  prev_hop :: "dict option"
  seen_jti :: "pyval list"
  root_voucher :: dict

definition verify_hop :: "crypto \<Rightarrow> dict \<Rightarrow> ustr \<Rightarrow> int \<Rightarrow> hop_state \<Rightarrow> pyval \<Rightarrow> hop_state res" where
  "verify_hop C inp self_aid now st hop =
     bindE (peek_iss hop ''DELEGATION_INVALID_SIGNATURE'') (\<lambda>hop_iss.
     bindE (resolve_issuer C inp hop_iss now) (\<lambda>_.
     bindE (verify_delegation_jws C hop (py_str hop_iss)) (\<lambda>hc.
     ensure (get hc (u ''ver'') = PStr PROTOCOL_VERSION) (raise ''UNKNOWN_VERSION'') (
     ensure (get hc (u ''iss'') \<noteq> get hc (u ''sub'')) (raise ''DELEGATION_INVALID_SIGNATURE'') (
     ensure (get hc (u ''aud'') = PStr self_aid) (raise ''DELEGATION_AUDIENCE_MISMATCH'') (
     bindE (catchE is_value_error (parse_aid C (py_str (get hc (u ''sub''))))
              (\<lambda>_. raise ''DELEGATION_INVALID_VOUCHER'')) (\<lambda>sub_aid.
     bindE (thumbprint sub_aid) (\<lambda>jkt.
     ensure (jkt_of hc = PStr jkt) (raise ''DELEGATION_INVALID_VOUCHER'') (
     let jti = get hc (u ''jti'') in
     ensure (truthy jti \<and> jti \<notin> set (seen_jti st)) (raise ''DELEGATION_INVALID_VOUCHER'') (
     bindE (py_int (get hc (u ''exp''))) (\<lambda>exp.
     ensure (now < exp) (raise ''DELEGATION_EXPIRED'') (
     bindE (case prev_hop st of
              None \<Rightarrow> check_embedded_voucher C self_aid hc now
            | Some prev \<Rightarrow>
                ensure (\<not> has hc (u ''voucher'')) (raise ''DELEGATION_INVALID_VOUCHER'') (
                ensure (get hc (u ''iss'') = get prev (u ''sub'')) (raise ''DELEGATION_INVALID_VOUCHER'') (
                bindE (py_int (get prev (u ''exp''))) (\<lambda>prev_exp.
                ensure (exp \<le> prev_exp) (raise ''DELEGATION_EXPIRED'') (
                ensure (py_subset (the_list (get hc (u ''scope''))) (the_list (get prev (u ''scope''))))
                  (raise ''DELEGATION_SCOPE_EXCEEDED'') (Inr (root_voucher st))))))) (\<lambda>root.
       Inr \<lparr>prev_hop = Some hc, seen_jti = jti # seen_jti st, root_voucher = root\<rparr>)))))))))))))"

fun verify_hops :: "crypto \<Rightarrow> dict \<Rightarrow> ustr \<Rightarrow> int \<Rightarrow> hop_state \<Rightarrow> pyval list \<Rightarrow> hop_state res" where
  "verify_hops C inp self_aid now st [] = Inr st"
| "verify_hops C inp self_aid now st (hop # hops) =
     bindE (verify_hop C inp self_aid now st hop) (\<lambda>st. verify_hops C inp self_aid now st hops)"

definition start_hops :: hop_state where
  "start_hops = \<lparr>prev_hop = None, seen_jti = [], root_voucher = []\<rparr>"

definition verify_multihop :: "crypto \<Rightarrow> dict \<Rightarrow> pyval \<Rightarrow> dict \<Rightarrow> ustr \<Rightarrow> int \<Rightarrow> pyval res" where
  "verify_multihop C inp token outer self_aid now =
     (let chain = get outer (u ''chain'') in
      bindE (py_len chain) (\<lambda>n.
      ensure (\<not> MAX_DELEGATION_HOPS + 1 < n + 2) (raise ''DELEGATION_HOP_LIMIT_EXCEEDED'') (
      bindE (compute_chain_hash chain) (\<lambda>h.
      ensure (get outer (u ''chain_hash'') = PStr h) (raise ''DELEGATION_CHAIN_HASH_MISMATCH'') (
      ensure (is_list chain) (Inl TypeError) (
      let hops = the_list chain @ [token] in
      bindE (verify_hops C inp self_aid now start_hops hops) (\<lambda>st.
      bindE (verified_snapshot_bodies C inp self_aid) (\<lambda>bodies.
      bindE (check_source_tct_revocation inp bodies self_aid (get (root_voucher st) (u ''src_jti'')) now) (\<lambda>_.
      bindE (fresh_bodies (policy_of inp) now bodies) (\<lambda>fresh.
      bindE (eachE (sweep_hop C (policy_fail_mode inp) (revocation_index fresh)) hops) (\<lambda>_.
      case prev_hop st of
        None \<Rightarrow> Inl AssertionError
      | Some prev \<Rightarrow> Inr (get prev (u ''scope'')))))))))))))"

section \<open>The operation\<close>

definition reject_v01_object_token :: "dict \<Rightarrow> unit res" where
  "reject_v01_object_token token =
     ensure (\<not> truthy (get token (u ''chain''))) (raise ''DELEGATION_MULTIHOP_NOT_SUPPORTED'')
       (raise ''DELEGATION_INVALID_SIGNATURE'')"

definition verify_single_hop :: "crypto \<Rightarrow> dict \<Rightarrow> pyval \<Rightarrow> dict \<Rightarrow> ustr \<Rightarrow> int \<Rightarrow> pyval res" where
  "verify_single_hop C inp token outer self_aid now =
     bindE (resolve_issuer C inp (get outer (u ''iss'')) now) (\<lambda>_.
     bindE (verify_delegation_jws C token (py_str (get outer (u ''iss'')))) (\<lambda>cl.
     ensure (get cl (u ''iss'') \<noteq> get cl (u ''sub'')) (raise ''DELEGATION_INVALID_SIGNATURE'') (
     ensure (get cl (u ''aud'') = PStr self_aid) (raise ''DELEGATION_AUDIENCE_MISMATCH'') (
     bindE (py_int (get cl (u ''exp''))) (\<lambda>exp.
     ensure (now < exp) (raise ''DELEGATION_EXPIRED'') (
     bindE (check_embedded_voucher C self_aid cl now) (\<lambda>vclaims.
     bindE (verified_snapshot_bodies C inp self_aid) (\<lambda>bodies.
     bindE (check_source_tct_revocation inp bodies self_aid (get vclaims (u ''src_jti'')) now) (\<lambda>_.
       Inr (get cl (u ''scope'')))))))))))"

definition verify_delegation_token :: "crypto \<Rightarrow> dict \<Rightarrow> int \<Rightarrow> pyval res" where
  "verify_delegation_token C inp now =
     (let token = get inp (u ''delegation_token'') in
      bindE (if token = PNone \<and> is_dict (get inp (u ''delegation''))
             then reject_v01_object_token (the_dict (get inp (u ''delegation''))) else Inr ()) (\<lambda>_.
      ensure (is_str token) (raise ''DELEGATION_INVALID_SIGNATURE'') (
      bindE (parse_compact token ''DELEGATION_INVALID_SIGNATURE'') (\<lambda>p.
      let outer = claims p in
      ensure (\<not> (has outer (u ''chain'') \<and> get inp (u ''_feature'') \<noteq> PStr MULTIHOP_FEATURE))
        (raise ''DELEGATION_MULTIHOP_NOT_SUPPORTED'') (
      let self_v = get inp (u ''self_aid'') in
      ensure (is_str self_v) (raise ''DELEGATION_AUDIENCE_MISMATCH'') (
      bindE (if has outer (u ''chain'') then verify_multihop C inp token outer (the_str self_v) now
             else verify_single_hop C inp token outer (the_str self_v) now) (\<lambda>grants.
        Inr (PDict [(u ''grants'', grants)]))))))))"

section \<open>Facts\<close>

definition delegation_shaped :: "dict \<Rightarrow> bool" where
  "delegation_shaped cl \<longleftrightarrow>
     is_str (get cl (u ''ver'')) \<and> is_str (get cl (u ''iss'')) \<and> is_str (get cl (u ''sub'')) \<and>
     is_str (get cl (u ''aud'')) \<and> (\<exists>xs. get cl (u ''scope'') = PList xs \<and> list_all is_str xs) \<and>
     numeric (get cl (u ''exp'')) \<and> is_dict (get cl (u ''cnf'')) \<and>
     (\<forall>k. has cl k \<longrightarrow> k \<in> set DELEGATION_CLAIM_FIELDS)"

lemma delegation_claims_shape_ok: "check_delegation_claims_shape code cl = Inr w \<Longrightarrow> delegation_shaped cl"
proof -
  assume ok: "check_delegation_claims_shape code cl = Inr w"
  then have req: "require_members DELEGATION_REQUIRED_CLAIMS code cl = Inr ()"
    and tys: "check_types DELEGATION_CLAIM_TYPES code cl = Inr ()"
    and gs: "list_all is_str (the_list (get cl (u ''scope'')))"
    and rest: "reject_unknown_fields DELEGATION_CLAIM_FIELDS code (PDict cl) = Inr ()"
    by (simp_all add: check_delegation_claims_shape_def bindE_ok ensure_raise_ok)
  note m = typed_member [OF req tys, unfolded DELEGATION_REQUIRED_CLAIMS_def DELEGATION_CLAIM_TYPES_def]
  have "is_str (get cl (u ''ver''))" "is_str (get cl (u ''iss''))" "is_str (get cl (u ''sub''))" "is_str (get cl (u ''aud''))"
    using m [of "u ''ver''" "[TStr]"] m [of "u ''iss''" "[TStr]"] m [of "u ''sub''" "[TStr]"] m [of "u ''aud''" "[TStr]"]
    by simp_all
  moreover have "numeric (get cl (u ''exp''))" "is_list (get cl (u ''scope''))" "is_dict (get cl (u ''cnf''))"
    using m [of "u ''exp''" "[TInt]"] m [of "u ''scope''" "[TList]"] m [of "u ''cnf''" "[TDict]"]
    by (simp_all add: numeric_def)
  moreover have "\<forall>k. has cl k \<longrightarrow> k \<in> set DELEGATION_CLAIM_FIELDS"
    using rest by (simp add: reject_unknown_fields_ok)
  ultimately show ?thesis using gs by (auto simp: delegation_shaped_def is_list_iff)
qed

definition voucher_shaped :: "dict \<Rightarrow> bool" where
  "voucher_shaped cl \<longleftrightarrow>
     is_str (get cl (u ''ver'')) \<and> is_str (get cl (u ''iss'')) \<and> is_str (get cl (u ''sub'')) \<and>
     (\<exists>xs. get cl (u ''grants'') = PList xs \<and> list_all is_str xs) \<and> numeric (get cl (u ''iat'')) \<and>
     numeric (get cl (u ''exp'')) \<and> is_str (get cl (u ''src_jti'')) \<and>
     (\<forall>k. has cl k \<longrightarrow> k \<in> set VOUCHER_CLAIM_FIELDS)"

lemma voucher_claims_shape_ok: "check_voucher_claims_shape code cl = Inr w \<Longrightarrow> voucher_shaped cl"
proof -
  assume ok: "check_voucher_claims_shape code cl = Inr w"
  then have req: "require_members VOUCHER_REQUIRED_CLAIMS code cl = Inr ()"
    and tys: "check_types VOUCHER_CLAIM_TYPES code cl = Inr ()"
    and gs: "list_all is_str (the_list (get cl (u ''grants'')))"
    and rest: "reject_unknown_fields VOUCHER_CLAIM_FIELDS code (PDict cl) = Inr ()"
    by (simp_all add: check_voucher_claims_shape_def bindE_ok ensure_raise_ok)
  note m = typed_member [OF req tys, unfolded VOUCHER_REQUIRED_CLAIMS_def VOUCHER_CLAIM_TYPES_def]
  have "is_str (get cl (u ''ver''))" "is_str (get cl (u ''iss''))" "is_str (get cl (u ''sub''))" "is_str (get cl (u ''src_jti''))"
    using m [of "u ''ver''" "[TStr]"] m [of "u ''iss''" "[TStr]"] m [of "u ''sub''" "[TStr]"] m [of "u ''src_jti''" "[TStr]"]
    by simp_all
  moreover have "numeric (get cl (u ''exp''))" "numeric (get cl (u ''iat''))" "is_list (get cl (u ''grants''))"
    using m [of "u ''exp''" "[TInt]"] m [of "u ''iat''" "[TInt]"] m [of "u ''grants''" "[TList]"]
    by (simp_all add: numeric_def)
  moreover have "\<forall>k. has cl k \<longrightarrow> k \<in> set VOUCHER_CLAIM_FIELDS"
    using rest by (simp add: reject_unknown_fields_ok)
  ultimately show ?thesis using gs by (auto simp: voucher_shaped_def is_list_iff)
qed

text \<open>A token signed by the AID its own \<open>iss\<close> names, with the claims of a delegation or of a voucher\<close>

definition delegation_signed :: "crypto \<Rightarrow> pyval \<Rightarrow> dict \<Rightarrow> bool" where
  "delegation_signed C token cl \<longleftrightarrow>
     delegation_shaped cl \<and> jws_signed C token (the_str (get cl (u ''iss''))) (u ''aitp-delegation+jwt'') cl"

definition voucher_signed :: "crypto \<Rightarrow> pyval \<Rightarrow> dict \<Rightarrow> bool" where
  "voucher_signed C token cl \<longleftrightarrow>
     voucher_shaped cl \<and> jws_signed C token (the_str (get cl (u ''iss''))) (u ''aitp-grant+jwt'') cl"

lemma verify_delegation_jws_ok:
  assumes "peek_iss token c = Inr v" and "verify_delegation_jws C token (py_str v) = Inr cl"
  shows "delegation_signed C token cl"
proof -
  have s: "jws_signed C token (py_str v) (u ''aitp-delegation+jwt'') cl" and sh: "delegation_shaped cl"
    using assms(2) delegation_claims_shape_ok by (auto simp: verify_delegation_jws_def bindE_ok verify_jws_signed)
  with peek_iss_signed [OF assms(1) s] show ?thesis by (auto simp: delegation_signed_def delegation_shaped_def is_str_iff)
qed

lemma verify_voucher_jws_ok:
  assumes "peek_iss token c = Inr v" and "verify_voucher_jws C token (py_str v) = Inr cl"
  shows "voucher_signed C token cl" "v = get cl (u ''iss'')"
proof -
  have s: "jws_signed C token (py_str v) (u ''aitp-grant+jwt'') cl" and sh: "voucher_shaped cl"
    using assms(2) voucher_claims_shape_ok by (auto simp: verify_voucher_jws_def bindE_ok verify_jws_signed)
  show v: "v = get cl (u ''iss'')" using peek_iss_signed [OF assms(1) s] .
  with s sh show "voucher_signed C token cl" by (auto simp: voucher_signed_def voucher_shaped_def is_str_iff)
qed

section \<open>Authority\<close>

text \<open>What a token lets its holder do, and until when: a set of grants or scopes and an expiry\<close>

definition authority :: "string \<Rightarrow> dict \<Rightarrow> pyval set \<times> int" where
  "authority m cl = (set (the_list (get cl (u m))), projr (py_int (get cl (u ''exp''))))"

text \<open>\<open>at_most x y\<close>: \<open>x\<close> allows nothing that \<open>y\<close> does not, and for no longer.\<close>

definition at_most :: "pyval set \<times> int \<Rightarrow> pyval set \<times> int \<Rightarrow> bool" where
  "at_most x y \<longleftrightarrow> fst x \<subseteq> fst y \<and> snd x \<le> snd y"

interpretation authority: attenuation at_most
  by unfold_locales (auto simp: at_most_def)

text \<open>The facts of one accepted hop, whatever its place in the chain\<close>

definition hop_sound :: "crypto \<Rightarrow> ustr \<Rightarrow> int \<Rightarrow> pyval \<Rightarrow> dict \<Rightarrow> bool" where
  "hop_sound C self_aid now token hc \<longleftrightarrow>
     delegation_signed C token hc \<and> get hc (u ''ver'') = PStr PROTOCOL_VERSION \<and> get hc (u ''iss'') \<noteq> get hc (u ''sub'') \<and>
     get hc (u ''aud'') = PStr self_aid \<and> truthy (get hc (u ''jti'')) \<and> now < snd (authority ''scope'' hc) \<and>
     (\<exists>a jkt. parse_aid C (the_str (get hc (u ''sub''))) = Inr a \<and> thumbprint a = Inr jkt \<and> jkt_of hc = PStr jkt)"

text \<open>A hop under its predecessor: passed on by its holder, and attenuated\<close>

definition hop_follows :: "dict \<Rightarrow> dict \<Rightarrow> bool" where
  "hop_follows prev hc \<longleftrightarrow>
     get hc (u ''iss'') = get prev (u ''sub'') \<and> \<not> has hc (u ''voucher'') \<and>
     at_most (authority ''scope'' hc) (authority ''scope'' prev)"

text \<open>A delegation rooted in a voucher that the verifier itself signed for the delegator\<close>

definition rooted :: "crypto \<Rightarrow> ustr \<Rightarrow> int \<Rightarrow> dict \<Rightarrow> dict \<Rightarrow> bool" where
  "rooted C self_aid now hc v \<longleftrightarrow>
     voucher_signed C (get hc (u ''voucher'')) v \<and> get v (u ''iss'') = PStr self_aid \<and>
     get v (u ''sub'') = get hc (u ''iss'') \<and> now < snd (authority ''grants'' v) \<and>
     at_most (authority ''scope'' hc) (authority ''grants'' v)"

lemma delegation_exp: "delegation_shaped cl \<Longrightarrow> py_int (get cl (u ''exp'')) = Inr (snd (authority m cl))"
  unfolding delegation_shaped_def authority_def using numeric_py_int [of "get cl (u ''exp'')"] by auto

lemma voucher_exp: "voucher_shaped cl \<Longrightarrow> py_int (get cl (u ''exp'')) = Inr (snd (authority m cl))"
  unfolding voucher_shaped_def authority_def using numeric_py_int [of "get cl (u ''exp'')"] by auto

lemma scope_subset: "delegation_shaped cl \<Longrightarrow> py_subset (the_list (get cl (u ''scope''))) ys \<longleftrightarrow> fst (authority ''scope'' cl) \<subseteq> set ys"
  unfolding delegation_shaped_def authority_def by (auto simp: py_subset_strs)

lemma check_embedded_voucher_ok:
  assumes "check_embedded_voucher C self_aid hc now = Inr v" and "delegation_shaped hc"
  shows "rooted C self_aid now hc v"
proof -
  from assms(1) obtain w vexp exp where w: "peek_iss (get hc (u ''voucher'')) ''DELEGATION_INVALID_VOUCHER'' = Inr w"
      "w = PStr self_aid" "verify_voucher_jws C (get hc (u ''voucher'')) (py_str w) = Inr v"
    and sub: "get v (u ''sub'') = get hc (u ''iss'')"
    and exps: "py_int (get v (u ''exp'')) = Inr vexp" "py_int (get hc (u ''exp'')) = Inr exp" "\<not> (vexp \<le> now \<or> vexp < exp)"
    and scope: "py_subset (the_list (get hc (u ''scope''))) (the_list (get v (u ''grants'')))"
    unfolding check_embedded_voucher_def Let_def runs
    by (elim exE conjE) (rule that, (assumption | simp)+)
  note v = verify_voucher_jws_ok [OF w(1,3)]
  then have sh: "voucher_shaped v" by (simp add: voucher_signed_def)
  have "vexp = snd (authority ''grants'' v)" "exp = snd (authority ''scope'' hc)"
    using exps voucher_exp [OF sh] delegation_exp [OF assms(2)] by simp_all
  then show ?thesis
    using v w(2) sub exps(3) scope scope_subset [OF assms(2)]
    by (auto simp: rooted_def at_most_def) (auto simp: authority_def)
qed

section \<open>Chains\<close>

lemma verify_hop_ok:
  assumes "verify_hop C inp self_aid now st token = Inr st'"
  shows "\<exists>hc. prev_hop st' = Some hc \<and> hop_sound C self_aid now token hc \<and>
    seen_jti st' = get hc (u ''jti'') # seen_jti st \<and> get hc (u ''jti'') \<notin> set (seen_jti st) \<and>
    (prev_hop st = None \<longrightarrow> rooted C self_aid now hc (root_voucher st')) \<and>
    (\<forall>p. prev_hop st = Some p \<and> delegation_shaped p \<longrightarrow> root_voucher st' = root_voucher st \<and> hop_follows p hc)"
proof -
  from assms obtain iss hc exp a jkt root where
      jws: "peek_iss token ''DELEGATION_INVALID_SIGNATURE'' = Inr iss" "verify_delegation_jws C token (py_str iss) = Inr hc"
    and here: "get hc (u ''ver'') = PStr PROTOCOL_VERSION" "get hc (u ''iss'') \<noteq> get hc (u ''sub'')"
      "get hc (u ''aud'') = PStr self_aid" "parse_aid C (py_str (get hc (u ''sub''))) = Inr a" "thumbprint a = Inr jkt"
      "jkt_of hc = PStr jkt" "truthy (get hc (u ''jti''))" "get hc (u ''jti'') \<notin> set (seen_jti st)"
      "py_int (get hc (u ''exp'')) = Inr exp" "now < exp"
    and link: "(case prev_hop st of
              None \<Rightarrow> check_embedded_voucher C self_aid hc now
            | Some prev \<Rightarrow>
                ensure (\<not> has hc (u ''voucher'')) (raise ''DELEGATION_INVALID_VOUCHER'') (
                ensure (get hc (u ''iss'') = get prev (u ''sub'')) (raise ''DELEGATION_INVALID_VOUCHER'') (
                bindE (py_int (get prev (u ''exp''))) (\<lambda>prev_exp.
                ensure (exp \<le> prev_exp) (raise ''DELEGATION_EXPIRED'') (
                ensure (py_subset (the_list (get hc (u ''scope''))) (the_list (get prev (u ''scope''))))
                  (raise ''DELEGATION_SCOPE_EXCEEDED'') (Inr (root_voucher st))))))) = Inr root"
    and st': "\<lparr>prev_hop = Some hc, seen_jti = get hc (u ''jti'') # seen_jti st, root_voucher = root\<rparr> = st'"
    unfolding verify_hop_def Let_def runs
    by (elim exE conjE) (rule that, assumption+)
  have signed: "delegation_signed C token hc" using verify_delegation_jws_ok [OF jws] .
  then have sh: "delegation_shaped hc" by (simp add: delegation_signed_def)
  then obtain s where s: "get hc (u ''sub'') = PStr s" by (auto simp: delegation_shaped_def is_str_iff)
  have e: "exp = snd (authority ''scope'' hc)" using here(9) delegation_exp [OF sh, of "''scope''"] by simp
  have "hop_sound C self_aid now token hc"
    using signed here e by (simp add: hop_sound_def s)
  moreover have "rooted C self_aid now hc root" if "prev_hop st = None"
    using link that check_embedded_voucher_ok [OF _ sh] by simp
  moreover have "root = root_voucher st \<and> hop_follows p hc" if "prev_hop st = Some p" "delegation_shaped p" for p
    using link that delegation_exp [OF that(2), of "''scope''"] scope_subset [OF sh] e
    by (auto simp: bindE_ok ensure_raise_ok hop_follows_def at_most_def) (auto simp: authority_def)
  ultimately show ?thesis using here(8) st' [symmetric] by simp
qed

lemma verify_hops_ok:
  "verify_hops C inp self_aid now st tokens = Inr st' \<Longrightarrow> prev_hop st = Some p \<Longrightarrow> delegation_shaped p \<Longrightarrow>
   \<exists>hcs. list_all2 (hop_sound C self_aid now) tokens hcs \<and> successively hop_follows (p # hcs) \<and>
     root_voucher st' = root_voucher st \<and> prev_hop st' = Some (last (p # hcs)) \<and>
     distinct (map (\<lambda>h. get h (u ''jti'')) hcs) \<and> set (map (\<lambda>h. get h (u ''jti'')) hcs) \<inter> set (seen_jti st) = {}"
proof (induction tokens arbitrary: st p)
  case Nil
  then show ?case by (intro exI [of _ "[]"]) simp
next
  case (Cons token tokens)
  obtain st1 where hop: "verify_hop C inp self_aid now st token = Inr st1"
    and run: "verify_hops C inp self_aid now st1 tokens = Inr st'"
    using Cons.prems(1) by (auto simp: ok_simps)
  from verify_hop_ok [OF hop] obtain hc where hc: "prev_hop st1 = Some hc" "hop_sound C self_aid now token hc"
      "seen_jti st1 = get hc (u ''jti'') # seen_jti st" "get hc (u ''jti'') \<notin> set (seen_jti st)"
      "root_voucher st1 = root_voucher st" "hop_follows p hc"
    using Cons.prems(2,3) by blast
  have "delegation_shaped hc" using hc(2) by (simp add: hop_sound_def delegation_signed_def)
  from Cons.IH [OF run hc(1) this] obtain hcs where hcs: "list_all2 (hop_sound C self_aid now) tokens hcs"
      "successively hop_follows (hc # hcs)" "root_voucher st' = root_voucher st1" "prev_hop st' = Some (last (hc # hcs))"
      "distinct (map (\<lambda>h. get h (u ''jti'')) hcs)"
      "set (map (\<lambda>h. get h (u ''jti'')) hcs) \<inter> set (seen_jti st1) = {}"
    by blast
  show ?case
    using hc hcs by (intro exI [of _ "hc # hcs"]) auto
qed

text \<open>
  What an accepted chain is: hops signed by their holders, the first rooted in the verifier's own
  voucher, each passed on by its predecessor's holder and attenuated, no \<open>jti\<close> twice.
\<close>

definition chain_sound :: "crypto \<Rightarrow> ustr \<Rightarrow> int \<Rightarrow> pyval list \<Rightarrow> dict list \<Rightarrow> dict \<Rightarrow> bool" where
  "chain_sound C self_aid now tokens hcs v \<longleftrightarrow>
     hcs \<noteq> [] \<and> list_all2 (hop_sound C self_aid now) tokens hcs \<and> rooted C self_aid now (hd hcs) v \<and>
     successively hop_follows hcs \<and> distinct (map (\<lambda>h. get h (u ''jti'')) hcs)"

lemma start_hops_ok:
  assumes "verify_hops C inp self_aid now start_hops tokens = Inr st" and "tokens \<noteq> []"
  shows "\<exists>hcs. chain_sound C self_aid now tokens hcs (root_voucher st) \<and> prev_hop st = Some (last hcs)"
proof -
  obtain token rest where tokens: "tokens = token # rest" using assms(2) by (cases tokens) auto
  obtain st1 where hop: "verify_hop C inp self_aid now start_hops token = Inr st1"
    and run: "verify_hops C inp self_aid now st1 rest = Inr st"
    using assms(1) by (auto simp: ok_simps tokens)
  from verify_hop_ok [OF hop] obtain hc where hc: "prev_hop st1 = Some hc" "hop_sound C self_aid now token hc"
      "seen_jti st1 = [get hc (u ''jti'')]" "rooted C self_aid now hc (root_voucher st1)"
    by (auto simp: start_hops_def)
  have "delegation_shaped hc" using hc(2) by (simp add: hop_sound_def delegation_signed_def)
  from verify_hops_ok [OF run hc(1) this] obtain hcs where hcs: "list_all2 (hop_sound C self_aid now) rest hcs"
      "successively hop_follows (hc # hcs)" "root_voucher st = root_voucher st1" "prev_hop st = Some (last (hc # hcs))"
      "distinct (map (\<lambda>h. get h (u ''jti'')) hcs)"
      "set (map (\<lambda>h. get h (u ''jti'')) hcs) \<inter> set (seen_jti st1) = {}"
    by blast
  show ?thesis
    using hc hcs by (intro exI [of _ "hc # hcs"]) (auto simp: chain_sound_def tokens)
qed

text \<open>Along a sound chain every holder has at most the authority of the voucher.\<close>

lemma chain_authority:
  assumes "chain_sound C self_aid now tokens hcs v" and "hc \<in> set hcs"
  shows "at_most (authority ''scope'' hc) (authority ''grants'' v)"
proof -
  obtain r rest where hcs: "hcs = r # rest" using assms(1) by (cases hcs) (auto simp: chain_sound_def)
  have root: "at_most (authority ''scope'' r) (authority ''grants'' v)"
    using assms(1) by (simp add: chain_sound_def hcs rooted_def)
  have "successively hop_follows (r # rest)" using assms(1) by (simp add: chain_sound_def hcs)
  then have "successively (\<lambda>p h. at_most (authority ''scope'' h) (authority ''scope'' p)) (r # rest)"
    by (rule successively_mono) (simp add: hop_follows_def)
  then have "successively (\<lambda>p h. at_most h p) (map (authority ''scope'') (r # rest))"
    by (simp only: successively_map)
  from this [unfolded list.map] have seq: "successively (\<lambda>p h. at_most h p)
      (authority ''scope'' r # map (authority ''scope'') rest)" .
  have "at_most (authority ''scope'' hc) (authority ''scope'' r)"
    by (rule authority.chain_below [OF seq]) (use assms(2) in \<open>auto simp: hcs\<close>)
  then show ?thesis using root by (rule authority.below_trans)
qed

section \<open>Revocation of the source\<close>

text \<open>A snapshot is usable for the source check when it is trusted, the verifier's own and fresh.\<close>

lemma fresh_bodies_ok: "fresh_bodies policy now bs = Inr fs \<Longrightarrow>
    set fs = {b \<in> set bs. snapshot_is_stale b policy now = Inr False}"
proof (induction bs arbitrary: fs)
  case (Cons b bs)
  then obtain st gs where "snapshot_is_stale b policy now = Inr st" "fresh_bodies policy now bs = Inr gs"
    "fs = (if st then gs else b # gs)"
    by (auto simp: ok_simps)
  then show ?case using Cons.IH by (cases st) auto
qed simp

lemma verified_bodies_trusted:
  "verified_bodies_loop C self_aid rs = Inr bodies \<Longrightarrow> b \<in> set bodies \<Longrightarrow>
   \<exists>r \<in> set rs. trusted_snapshot C (get (the_dict r) (u ''snapshot'')) b"
proof (induction rs arbitrary: bodies)
  case (Cons r rs)
  then show ?case
    by (cases "verify_snapshot_trust C (get (the_dict r) (u ''snapshot''))")
      (auto simp: Let_def ok_simps split: if_splits dest!: verify_snapshot_trust_body)
qed simp

lemma verified_snapshot_bodies_ok:
  "verified_snapshot_bodies C inp self_aid = Inr bodies \<Longrightarrow> b \<in> set bodies \<Longrightarrow>
   \<exists>rs r. get inp (u ''revocation_snapshots'') = PList rs \<and> r \<in> set rs \<and>
     trusted_snapshot C (get (the_dict r) (u ''snapshot'')) b"
  by (cases "get inp (u ''revocation_snapshots'')")
    (auto simp: verified_snapshot_bodies_def dest: verified_bodies_trusted)

text \<open>The delegation's source token is live: no own snapshot that counts lists it, and under \<open>fail_closed\<close> there is one.\<close>

definition source_live :: "crypto \<Rightarrow> dict \<Rightarrow> ustr \<Rightarrow> pyval \<Rightarrow> int \<Rightarrow> bool" where
  "source_live C inp self_aid jti now \<longleftrightarrow>
     (policy_fail_mode inp = Fail_closed \<longrightarrow>
        (\<exists>rs r body. get inp (u ''revocation_snapshots'') = PList rs \<and> r \<in> set rs \<and>
           trusted_snapshot C (get (the_dict r) (u ''snapshot'')) body \<and> get body (u ''issuer'') = PStr self_aid \<and>
           snapshot_is_stale body (policy_of inp) now = Inr False \<and> \<not> on_deny_list jti body))"

lemma check_source_live:
  assumes "verified_snapshot_bodies C inp self_aid = Inr bodies"
    and "check_source_tct_revocation inp bodies self_aid jti now = Inr ()"
  shows "source_live C inp self_aid jti now"
proof -
  from assms(2) obtain fs where fs: "fresh_bodies (policy_of inp) now (filter (\<lambda>b. get b (u ''issuer'') = PStr self_aid) bodies) = Inr fs"
    and ok: "(if fs = [] then apply_source_absence (policy_fail_mode inp)
       else ensure (\<not> list_ex (on_deny_list jti) fs) (raise ''DELEGATION_SOURCE_TCT_REVOKED'') (Inr ())) = Inr ()"
    by (auto simp: check_source_tct_revocation_def ok_simps)
  have "\<exists>b \<in> set fs. \<not> on_deny_list jti b" if "policy_fail_mode inp = Fail_closed"
    using ok that by (cases fs) (auto simp: apply_source_absence_def ensure_raise_ok split: if_splits)
  then show ?thesis
    unfolding source_live_def using fresh_bodies_ok [OF fs] verified_snapshot_bodies_ok [OF assms(1)] by fastforce
qed

section \<open>What an accepted token is\<close>

lemma multihop_accepted:
  assumes "verify_delegation_token C inp now = Inr verdict" and "get inp (u ''delegation_token'') = PStr t"
    and "parse_compact (PStr t) ''DELEGATION_INVALID_SIGNATURE'' = Inr p" and "has (claims p) (u ''chain'')"
  shows "\<exists>chain self_aid hcs v h. get inp (u ''_feature'') = PStr MULTIHOP_FEATURE \<and>
    get inp (u ''self_aid'') = PStr self_aid \<and> get (claims p) (u ''chain'') = PList chain \<and>
    compute_chain_hash (PList chain) = Inr h \<and> get (claims p) (u ''chain_hash'') = PStr h \<and>
    chain_sound C self_aid now (chain @ [PStr t]) hcs v \<and> length hcs \<le> 3 \<and>
    source_live C inp self_aid (get v (u ''src_jti'')) now \<and>
    verdict = PDict [(u ''grants'', get (last hcs) (u ''scope''))]"
proof -
  let ?outer = "claims p" and ?self = "the_str (get inp (u ''self_aid''))"
  let ?chain = "get (claims p) (u ''chain'')"
  from assms obtain grants where feature: "get inp (u ''_feature'') = PStr MULTIHOP_FEATURE"
    and self: "is_str (get inp (u ''self_aid''))"
    and run: "verify_multihop C inp (PStr t) ?outer ?self now = Inr grants"
    and verdict: "verdict = PDict [(u ''grants'', grants)]"
    by (auto simp: verify_delegation_token_def Let_def bindE_ok ensure_raise_ok)
  from run obtain n h st bodies where n: "py_len ?chain = Inr n" "\<not> MAX_DELEGATION_HOPS + 1 < n + 2"
    and h: "compute_chain_hash ?chain = Inr h" "get ?outer (u ''chain_hash'') = PStr h" "is_list ?chain"
    and hops: "verify_hops C inp ?self now start_hops (the_list ?chain @ [PStr t]) = Inr st"
    and src: "verified_snapshot_bodies C inp ?self = Inr bodies"
      "check_source_tct_revocation inp bodies ?self (get (root_voucher st) (u ''src_jti'')) now = Inr ()"
    and last: "(case prev_hop st of None \<Rightarrow> Inl AssertionError | Some prev \<Rightarrow> Inr (get prev (u ''scope''))) = Inr grants"
    unfolding verify_multihop_def Let_def runs
    by (elim exE conjE) (rule that, assumption+)
  obtain chain where chain: "?chain = PList chain" using h(3) by (auto simp: is_list_iff)
  obtain s where s: "get inp (u ''self_aid'') = PStr s" using self by (auto simp: is_str_iff)
  have len: "length chain \<le> 2" using n by (auto simp: chain py_len_def MAX_DELEGATION_HOPS_def)
  obtain hcs where hcs: "chain_sound C s now (chain @ [PStr t]) hcs (root_voucher st)" "prev_hop st = Some (last hcs)"
    using start_hops_ok [OF hops] by (auto simp: chain s)
  have "length hcs \<le> 3" using hcs(1) len by (auto simp: chain_sound_def dest!: list_all2_lengthD)
  moreover have "verdict = PDict [(u ''grants'', get (last hcs) (u ''scope''))]"
    using last verdict hcs(2) by simp
  moreover have "source_live C inp s (get (root_voucher st) (u ''src_jti'')) now"
    using check_source_live [OF src] by (simp add: s)
  ultimately show ?thesis using feature s h(1) [unfolded chain] h(2) hcs(1) chain by blast
qed

lemma single_hop_accepted:
  assumes "verify_delegation_token C inp now = Inr verdict" and "get inp (u ''delegation_token'') = PStr t"
    and "parse_compact (PStr t) ''DELEGATION_INVALID_SIGNATURE'' = Inr p" and "\<not> has (claims p) (u ''chain'')"
  shows "\<exists>self_aid cl v. get inp (u ''self_aid'') = PStr self_aid \<and> cl = claims p \<and> delegation_signed C (PStr t) cl \<and>
    get cl (u ''iss'') \<noteq> get cl (u ''sub'') \<and> get cl (u ''aud'') = PStr self_aid \<and>
    now < snd (authority ''scope'' cl) \<and> rooted C self_aid now cl v \<and>
    source_live C inp self_aid (get v (u ''src_jti'')) now \<and> verdict = PDict [(u ''grants'', get cl (u ''scope''))]"
proof -
  let ?outer = "claims p" and ?self = "the_str (get inp (u ''self_aid''))"
  from assms obtain grants where self: "is_str (get inp (u ''self_aid''))"
    and run: "verify_single_hop C inp (PStr t) ?outer ?self now = Inr grants"
    and verdict: "verdict = PDict [(u ''grants'', grants)]"
    by (auto simp: verify_delegation_token_def Let_def bindE_ok ensure_raise_ok)
  from run obtain cl exp v bodies where cl: "verify_delegation_jws C (PStr t) (py_str (get ?outer (u ''iss''))) = Inr cl"
    and here: "get cl (u ''iss'') \<noteq> get cl (u ''sub'')" "get cl (u ''aud'') = PStr ?self"
      "py_int (get cl (u ''exp'')) = Inr exp" "now < exp"
    and v: "check_embedded_voucher C ?self cl now = Inr v"
    and src: "verified_snapshot_bodies C inp ?self = Inr bodies"
      "check_source_tct_revocation inp bodies ?self (get v (u ''src_jti'')) now = Inr ()"
    and grants: "get cl (u ''scope'') = grants"
    unfolding verify_single_hop_def runs
    by (elim exE conjE) (rule that, assumption+)
  obtain s where s: "get inp (u ''self_aid'') = PStr s" using self by (auto simp: is_str_iff)
  have "peek_iss (PStr t) ''DELEGATION_INVALID_SIGNATURE'' = Inr (get ?outer (u ''iss''))"
    using assms(3) by (simp add: peek_iss_def)
  then have signed: "delegation_signed C (PStr t) cl" using cl by (rule verify_delegation_jws_ok)
  then have "cl = ?outer"
    using jws_signed_parse [of C "PStr t" _ _ cl "''DELEGATION_INVALID_SIGNATURE''"] assms(3)
    by (auto simp: delegation_signed_def)
  moreover have sh: "delegation_shaped cl" using signed by (simp add: delegation_signed_def)
  moreover have "now < snd (authority ''scope'' cl)"
    using here(3,4) delegation_exp [OF sh, of "''scope''"] by simp
  ultimately show ?thesis
    using s signed here(1,2) check_embedded_voucher_ok [OF v sh] check_source_live [OF src] verdict grants by auto
qed

section \<open>Properties\<close>

text \<open>
  C2. An accepted chain of delegations has at most three hops, each signed by the AID that holds
  it, all for this verifier, unexpired and bound to their holders' keys; the first is rooted in a
  voucher the verifier itself signed, every later one is passed on by the holder of the one before
  and attenuates it, and no \<open>jti\<close> repeats. What is granted is the last hop's scope, the chain
  hash commits to the earlier hops, and the source is not revoked.
\<close>

theorem multihop_sound:
  assumes "verify_delegation_token C inp now = Inr verdict" and "get inp (u ''delegation_token'') = PStr t"
    and "parse_compact (PStr t) ''DELEGATION_INVALID_SIGNATURE'' = Inr p" and "has (claims p) (u ''chain'')"
  shows "\<exists>chain self_aid hcs v h. get inp (u ''_feature'') = PStr MULTIHOP_FEATURE \<and>
    get inp (u ''self_aid'') = PStr self_aid \<and> get (claims p) (u ''chain'') = PList chain \<and>
    compute_chain_hash (PList chain) = Inr h \<and> get (claims p) (u ''chain_hash'') = PStr h \<and>
    chain_sound C self_aid now (chain @ [PStr t]) hcs v \<and> length hcs \<le> 3 \<and>
    source_live C inp self_aid (get v (u ''src_jti'')) now \<and>
    verdict = PDict [(u ''grants'', get (last hcs) (u ''scope''))]"
  using multihop_accepted [OF assms] .

text \<open>
  C3. Delegation never amplifies: whatever an accepted token grants, single-hop or chained, lies
  within the grants of one voucher that the verifier itself signed, which is still unexpired.
\<close>

theorem delegation_never_amplifies:
  assumes "verify_delegation_token C inp now = Inr verdict"
  shows "\<exists>grants self_aid voucher v. verdict = PDict [(u ''grants'', grants)] \<and> get inp (u ''self_aid'') = PStr self_aid \<and>
    voucher_signed C voucher v \<and> get v (u ''iss'') = PStr self_aid \<and> now < snd (authority ''grants'' v) \<and>
    set (the_list grants) \<subseteq> set (the_list (get v (u ''grants''))) \<and>
    source_live C inp self_aid (get v (u ''src_jti'')) now"
proof -
  obtain t where t: "get inp (u ''delegation_token'') = PStr t"
    using assms by (auto simp: verify_delegation_token_def Let_def bindE_ok ensure_raise_ok is_str_iff)
  obtain p where p: "parse_compact (PStr t) ''DELEGATION_INVALID_SIGNATURE'' = Inr p"
    using assms by (auto simp: verify_delegation_token_def Let_def bindE_ok ensure_raise_ok t)
  show ?thesis
  proof (cases "has (claims p) (u ''chain'')")
    case True
    obtain self_aid chain hcs v where self: "get inp (u ''self_aid'') = PStr self_aid"
      and chain: "chain_sound C self_aid now (chain @ [PStr t]) hcs v" "hcs \<noteq> []"
      and rest: "source_live C inp self_aid (get v (u ''src_jti'')) now" "verdict = PDict [(u ''grants'', get (last hcs) (u ''scope''))]"
      using multihop_accepted [OF assms t p True] unfolding chain_sound_def by blast
    have "at_most (authority ''scope'' (last hcs)) (authority ''grants'' v)"
      using chain_authority [OF chain(1)] chain(2) by simp
    moreover obtain voucher where "voucher_signed C voucher v" "get v (u ''iss'') = PStr self_aid" "now < snd (authority ''grants'' v)"
      using chain(1) by (auto simp: chain_sound_def rooted_def)
    ultimately show ?thesis
      using self rest by (auto simp: at_most_def authority_def)
  next
    case False
    obtain self_aid v where "get inp (u ''self_aid'') = PStr self_aid" "rooted C self_aid now (claims p) v"
        "source_live C inp self_aid (get v (u ''src_jti'')) now" "verdict = PDict [(u ''grants'', get (claims p) (u ''scope''))]"
      using single_hop_accepted [OF assms t p False] by blast
    then show ?thesis by (auto simp: rooted_def at_most_def authority_def)
  qed
qed

text \<open>
  C29. An accepted single-hop delegation is signed by the AID that holds the voucher it embeds, is
  for this verifier and unexpired, and grants its own scope, within and no longer than the voucher.
\<close>

theorem single_hop_sound:
  assumes "verify_delegation_token C inp now = Inr verdict" and "get inp (u ''delegation_token'') = PStr t"
    and "parse_compact (PStr t) ''DELEGATION_INVALID_SIGNATURE'' = Inr p" and "\<not> has (claims p) (u ''chain'')"
  shows "\<exists>self_aid cl v. get inp (u ''self_aid'') = PStr self_aid \<and> cl = claims p \<and> delegation_signed C (PStr t) cl \<and>
    get cl (u ''iss'') \<noteq> get cl (u ''sub'') \<and> get cl (u ''aud'') = PStr self_aid \<and>
    now < snd (authority ''scope'' cl) \<and> rooted C self_aid now cl v \<and>
    source_live C inp self_aid (get v (u ''src_jti'')) now \<and> verdict = PDict [(u ''grants'', get cl (u ''scope''))]"
  using single_hop_accepted [OF assms] by blast

text \<open>
  The boundary contract fails here: when chains are enabled, an unsigned token whose \<open>chain\<close>
  is an integer makes the verifier raise \<open>TypeError\<close>, because the claims gate runs only inside
  the hop loop, after \<open>chain\<close> has been measured.
\<close>

lemma integer_chain_escapes:
  assumes "get inp (u ''delegation_token'') = PStr t" and "get inp (u ''_feature'') = PStr MULTIHOP_FEATURE"
    and "is_str (get inp (u ''self_aid''))" and "parse_compact (PStr t) ''DELEGATION_INVALID_SIGNATURE'' = Inr p"
    and "get (claims p) (u ''chain'') = PInt i"
  shows "verify_delegation_token C inp now = Inl TypeError"
proof -
  have "has (claims p) (u ''chain'')" using assms(5) get_not_PNone_has [of "claims p"] by simp
  then show ?thesis
    using assms by (simp add: verify_delegation_token_def Let_def verify_multihop_def py_len_def py_iter_def)
qed

section \<open>A sample chain\<close>

definition key_no :: "byte \<Rightarrow> bytes" where
  "key_no i = replicate 32 i"

lemma key_no_length [simp]: "length (key_no i) = 32"
  by (simp add: key_no_def)

lemma key_no_eq [simp]: "key_no i = key_no j \<longleftrightarrow> i = j"
  by (simp add: key_no_def numeral_eq_Suc)

lemma sample_aid_no [simp]: "sample_aid = ed_aid (key_no 0)"
  by (simp add: sample_aid_def key_no_def)

definition voucher_claims :: dict where
  "voucher_claims =
     [(u ''exp'', PInt (REFERENCE_CLOCK + 60)), (u ''grants'', PList [PStr (u ''read''), PStr (u ''write'')]),
      (u ''iat'', PInt REFERENCE_CLOCK), (u ''iss'', PStr (ed_aid (key_no 0))), (u ''src_jti'', PStr (u ''j'')),
      (u ''sub'', PStr (ed_aid (key_no 1))), (u ''ver'', PStr PROTOCOL_VERSION)]"

text \<open>The root hop, from key 1 to key 2, and the outer hop, from key 2 to key 3\<close>

definition root_claims :: dict where
  "root_claims =
     [(u ''aud'', PStr (ed_aid (key_no 0))), (u ''cnf'', PDict [(u ''jkt'', PStr (sample_jkt (key_no 2)))]),
      (u ''exp'', PInt (REFERENCE_CLOCK + 60)), (u ''iss'', PStr (ed_aid (key_no 1))), (u ''jti'', PStr (u ''d1'')),
      (u ''scope'', PList [PStr (u ''read'')]), (u ''sub'', PStr (ed_aid (key_no 2))), (u ''ver'', PStr PROTOCOL_VERSION),
      (u ''voucher'', sample_token (u ''aitp-grant+jwt'') voucher_claims)]"

definition root_token :: pyval where
  "root_token = sample_token (u ''aitp-delegation+jwt'') root_claims"

definition root_hash :: ustr where
  "root_hash = projr (compute_chain_hash (PList [root_token]))"

definition outer_claims :: dict where
  "outer_claims =
     [(u ''aud'', PStr (ed_aid (key_no 0))), (u ''chain'', PList [root_token]), (u ''chain_hash'', PStr root_hash),
      (u ''cnf'', PDict [(u ''jkt'', PStr (sample_jkt (key_no 3)))]), (u ''exp'', PInt (REFERENCE_CLOCK + 30)),
      (u ''iss'', PStr (ed_aid (key_no 2))), (u ''jti'', PStr (u ''d2'')), (u ''scope'', PList [PStr (u ''read'')]),
      (u ''sub'', PStr (ed_aid (key_no 3))), (u ''ver'', PStr PROTOCOL_VERSION)]"

definition outer_text :: ustr where
  "outer_text = compact_text (sample_header (u ''aitp-delegation+jwt'')) outer_claims"

lemma root_hash_ok: "compute_chain_hash (PList [root_token]) = Inr root_hash" "list_all scalar root_hash"
proof -
  let ?t = "compact_text (sample_header (u ''aitp-delegation+jwt'')) root_claims"
  have "list_all (\<lambda>c. c < 128) ?t" by (simp add: compact_text_def b64_text_ascii sample_sig_def) (simp add: u_def)
  then obtain b where b: "ascii_encode ?t = Inr b" using ascii_encode_total by blast
  obtain c where c: "canonicalize (PList [PStr (b64url_encode (sha256 b))]) = Inr c"
    using canonicalize_plain [of "PList [PStr (b64url_encode (sha256 b))]"]
    by (auto simp: max_depth_def max_nodes_visited_def)
  have "compute_chain_hash (PList [root_token]) = Inr (b64url_encode (sha256 c))"
    using b c by (simp add: compute_chain_hash_def entry_digest_def root_token_def sample_token_def)
  then show "compute_chain_hash (PList [root_token]) = Inr root_hash" "list_all scalar root_hash"
    by (simp_all add: root_hash_def)
qed

lemma canonical_objectI:
  assumes "sorted (map utf16_key (map fst d))" and "map (\<lambda>p. (fst p, canon (snd p))) d = d"
    and "plain (PDict d)" "nesting (PDict d) \<le> 256" "nodes (PDict d) \<le> 200000"
  shows "canonical_object d"
  unfolding canonical_object_def using assms canon_sorted [OF assms(1)] by simp

lemma delegation_samples_canonical:
  "canonical_object voucher_claims" "canonical_object root_claims" "canonical_object outer_claims"
proof -
  have s: "sorted (map utf16_key (map fst voucher_claims))" "sorted (map utf16_key (map fst root_claims))"
    "sorted (map utf16_key (map fst outer_claims))"
    by (simp_all add: voucher_claims_def root_claims_def outer_claims_def) code_simp+
  show "canonical_object voucher_claims"
    by (rule canonical_objectI [OF s(1)]) (simp_all add: voucher_claims_def REFERENCE_CLOCK_def ed_aid_def)
  show "canonical_object root_claims"
    by (rule canonical_objectI [OF s(2)])
      (simp_all add: root_claims_def REFERENCE_CLOCK_def ed_aid_def sample_token_def canon_sorted)
  show "canonical_object outer_claims"
    using root_hash_ok(2)
    by (intro canonical_objectI [OF s(3)])
      (simp_all add: outer_claims_def REFERENCE_CLOCK_def ed_aid_def root_token_def sample_token_def canon_sorted)
qed

text \<open>The sample tokens, parsed and verified\<close>

lemma sample_voucher:
  "peek_iss (sample_token (u ''aitp-grant+jwt'') voucher_claims) c = Inr (PStr (ed_aid (key_no 0)))"
  "verify_voucher_jws sample_crypto (sample_token (u ''aitp-grant+jwt'') voucher_claims) (ed_aid (key_no 0)) = Inr voucher_claims"
proof -
  have s: "jws_signed sample_crypto (sample_token (u ''aitp-grant+jwt'') voucher_claims) (ed_aid (key_no 0)) (u ''aitp-grant+jwt'') voucher_claims"
    by (intro sample_token_signed delegation_samples_canonical) simp_all
  then show "peek_iss (sample_token (u ''aitp-grant+jwt'') voucher_claims) c = Inr (PStr (ed_aid (key_no 0)))"
    using jws_signed_parse [OF s, of c] by (auto simp: peek_iss_def) (simp add: voucher_claims_def)
  have "check_voucher_claims_shape c voucher_claims = Inr ()" for c
    by (simp add: check_voucher_claims_shape_def require_members_def VOUCHER_REQUIRED_CLAIMS_def check_types_def
        VOUCHER_CLAIM_TYPES_def type_ok_def reject_unknown_fields_def VOUCHER_CLAIM_FIELDS_def voucher_claims_def)
  then show "verify_voucher_jws sample_crypto (sample_token (u ''aitp-grant+jwt'') voucher_claims) (ed_aid (key_no 0)) = Inr voucher_claims"
    using s by (simp add: verify_voucher_jws_def verify_jws_signed no_check_def bindE_ok)
qed

lemma sample_hop_jws:
  assumes "canonical_object cl" and "get cl (u ''iss'') = PStr (ed_aid k)" and "length k = 32"
    and "check_delegation_claims_shape ''DELEGATION_INVALID_SIGNATURE'' cl = Inr ()"
  shows "peek_iss (sample_token (u ''aitp-delegation+jwt'') cl) c = Inr (PStr (ed_aid k))"
    and "verify_delegation_jws sample_crypto (sample_token (u ''aitp-delegation+jwt'') cl) (ed_aid k) = Inr cl"
    and "\<exists>p. parse_compact (sample_token (u ''aitp-delegation+jwt'') cl) c = Inr p \<and> claims p = cl"
proof -
  have s: "jws_signed sample_crypto (sample_token (u ''aitp-delegation+jwt'') cl) (ed_aid k) (u ''aitp-delegation+jwt'') cl"
    by (intro sample_token_signed assms(1,3)) simp
  show p: "\<exists>p. parse_compact (sample_token (u ''aitp-delegation+jwt'') cl) c = Inr p \<and> claims p = cl"
    using jws_signed_parse [OF s] .
  then show "peek_iss (sample_token (u ''aitp-delegation+jwt'') cl) c = Inr (PStr (ed_aid k))"
    using assms(2) by (auto simp: peek_iss_def)
  show "verify_delegation_jws sample_crypto (sample_token (u ''aitp-delegation+jwt'') cl) (ed_aid k) = Inr cl"
    using s assms(4) by (simp add: verify_delegation_jws_def verify_jws_signed no_check_def bindE_ok)
qed

lemma delegation_shapes:
  "check_delegation_claims_shape c root_claims = Inr ()" "check_delegation_claims_shape c outer_claims = Inr ()"
  by (simp_all add: check_delegation_claims_shape_def require_members_def DELEGATION_REQUIRED_CLAIMS_def check_types_def
      DELEGATION_CLAIM_TYPES_def type_ok_def reject_unknown_fields_def DELEGATION_CLAIM_FIELDS_def DELEGATION_CNF_FIELDS_def
      root_claims_def outer_claims_def sample_token_def)

lemma sample_embedded_voucher:
  "check_embedded_voucher sample_crypto (ed_aid (key_no 0)) root_claims REFERENCE_CLOCK = Inr voucher_claims"
proof -
  have v: "get root_claims (u ''voucher'') = sample_token (u ''aitp-grant+jwt'') voucher_claims" by (simp add: root_claims_def)
  have "is_str (sample_token ty cl)" for ty cl by (simp add: sample_token_def)
  then show ?thesis
    unfolding check_embedded_voucher_def Let_def v
    by (simp add: sample_voucher py_subset_strs) (simp add: root_claims_def voucher_claims_def py_subset_strs)
qed

definition deleg_input :: "pyval \<Rightarrow> dict" where
  "deleg_input token =
     [(u ''delegation_token'', token), (u ''self_aid'', PStr (ed_aid (key_no 0))), (u ''_feature'', PStr MULTIHOP_FEATURE),
      (u ''policy'', PDict [(u ''fail_mode'', PStr (u ''fail_open''))])]"

lemma deleg_input_get:
  "get (deleg_input t) (u ''delegation_token'') = t" "get (deleg_input t) (u ''self_aid'') = PStr (ed_aid (key_no 0))"
  "get (deleg_input t) (u ''_feature'') = PStr MULTIHOP_FEATURE" "get (deleg_input t) (u ''revocation_snapshots'') = PNone"
  "\<not> has (deleg_input t) (u ''issuer_manifests'')" "policy_fail_mode (deleg_input t) = Fail_open"
  by (simp_all add: deleg_input_def policy_fail_mode_def policy_of_def resolve_fail_mode_def get_or_def)

lemma sample_single_hop:
  "verify_delegation_token sample_crypto (deleg_input root_token) REFERENCE_CLOCK = Inr (PDict [(u ''grants'', PList [PStr (u ''read'')])])"
proof -
  have iss: "get root_claims (u ''iss'') = PStr (ed_aid (key_no 1))" by (simp add: root_claims_def)
  note t = sample_hop_jws [OF delegation_samples_canonical(2) iss key_no_length delegation_shapes(1), folded root_token_def]
  obtain p where p: "parse_compact root_token ''DELEGATION_INVALID_SIGNATURE'' = Inr p" "claims p = root_claims" using t(3) by blast
  have no: "\<not> has root_claims (u ''chain'')" "is_str root_token"
    by (simp_all add: root_claims_def root_token_def sample_token_def)
  have "verify_single_hop sample_crypto (deleg_input root_token) root_token root_claims (ed_aid (key_no 0)) REFERENCE_CLOCK =
      Inr (PList [PStr (u ''read'')])"
    unfolding verify_single_hop_def iss
    by (simp add: t(2) resolve_issuer_def deleg_input_get sample_embedded_voucher verified_snapshot_bodies_def
        check_source_tct_revocation_def apply_source_absence_def)
      (simp add: root_claims_def ed_aid_inject)
  moreover have "root_token \<noteq> PNone" by (simp add: root_token_def sample_token_def)
  ultimately show ?thesis
    using p no by (simp add: verify_delegation_token_def Let_def deleg_input_get)
qed

lemma sample_hop_1:
  "verify_hop sample_crypto (deleg_input t) (ed_aid (key_no 0)) REFERENCE_CLOCK start_hops root_token =
     Inr \<lparr>prev_hop = Some root_claims, seen_jti = [PStr (u ''d1'')], root_voucher = voucher_claims\<rparr>"
proof -
  have iss: "get root_claims (u ''iss'') = PStr (ed_aid (key_no 1))" by (simp add: root_claims_def)
  note t = sample_hop_jws [OF delegation_samples_canonical(2) iss key_no_length delegation_shapes(1), folded root_token_def]
  have "jkt_of root_claims = PStr (sample_jkt (key_no 2))" by (simp add: jkt_of_def root_claims_def)
  moreover have "get root_claims (u ''sub'') = PStr (ed_aid (key_no 2))" "get root_claims (u ''jti'') = PStr (u ''d1'')"
    "get root_claims (u ''aud'') = PStr (ed_aid (key_no 0))" "get root_claims (u ''ver'') = PStr PROTOCOL_VERSION"
    "get root_claims (u ''exp'') = PInt (REFERENCE_CLOCK + 60)"
    by (simp_all add: root_claims_def)
  ultimately show ?thesis
    by (simp add: verify_hop_def t(1,2) resolve_issuer_def deleg_input_get start_hops_def Let_def sample_embedded_voucher iss
        ed_aid_inject)
qed

lemma sample_hop_2:
  "verify_hop sample_crypto (deleg_input t) (ed_aid (key_no 0)) REFERENCE_CLOCK
     \<lparr>prev_hop = Some root_claims, seen_jti = [PStr (u ''d1'')], root_voucher = voucher_claims\<rparr> (PStr outer_text) =
     Inr \<lparr>prev_hop = Some outer_claims, seen_jti = [PStr (u ''d2''), PStr (u ''d1'')], root_voucher = voucher_claims\<rparr>"
proof -
  have iss: "get outer_claims (u ''iss'') = PStr (ed_aid (key_no 2))" by (simp add: outer_claims_def)
  have tok: "PStr outer_text = sample_token (u ''aitp-delegation+jwt'') outer_claims" by (simp add: outer_text_def sample_token_def)
  note t = sample_hop_jws [OF delegation_samples_canonical(3) iss key_no_length delegation_shapes(2), folded tok]
  have "jkt_of outer_claims = PStr (sample_jkt (key_no 3))" by (simp add: jkt_of_def outer_claims_def)
  moreover have "get outer_claims (u ''sub'') = PStr (ed_aid (key_no 3))" "get outer_claims (u ''jti'') = PStr (u ''d2'')"
    "get outer_claims (u ''aud'') = PStr (ed_aid (key_no 0))" "get outer_claims (u ''ver'') = PStr PROTOCOL_VERSION"
    "get outer_claims (u ''exp'') = PInt (REFERENCE_CLOCK + 30)" "\<not> has outer_claims (u ''voucher'')"
    "get outer_claims (u ''scope'') = PList [PStr (u ''read'')]"
    "get root_claims (u ''sub'') = PStr (ed_aid (key_no 2))" "get root_claims (u ''scope'') = PList [PStr (u ''read'')]"
    "get root_claims (u ''exp'') = PInt (REFERENCE_CLOCK + 60)"
    by (simp_all add: outer_claims_def root_claims_def)
  ultimately show ?thesis
    by (simp add: verify_hop_def t(1,2) resolve_issuer_def deleg_input_get Let_def iss ed_aid_inject py_subset_strs)
qed

lemma sample_multihop:
  "verify_delegation_token sample_crypto (deleg_input (PStr outer_text)) REFERENCE_CLOCK =
     Inr (PDict [(u ''grants'', PList [PStr (u ''read'')])])"
proof -
  have iss: "get outer_claims (u ''iss'') = PStr (ed_aid (key_no 2))" by (simp add: outer_claims_def)
  have iss1: "get root_claims (u ''iss'') = PStr (ed_aid (key_no 1))" by (simp add: root_claims_def)
  have tok: "PStr outer_text = sample_token (u ''aitp-delegation+jwt'') outer_claims" by (simp add: outer_text_def sample_token_def)
  note t = sample_hop_jws [OF delegation_samples_canonical(3) iss key_no_length delegation_shapes(2), folded tok]
  note r = sample_hop_jws [OF delegation_samples_canonical(2) iss1 key_no_length delegation_shapes(1), folded root_token_def]
  obtain p where p: "parse_compact (PStr outer_text) ''DELEGATION_INVALID_SIGNATURE'' = Inr p" "claims p = outer_claims" using t(3) by blast
  obtain q where q: "parse_compact root_token ''DELEGATION_INVALID_SIGNATURE'' = Inr q" "claims q = root_claims" using r(3) by blast
  have c: "get outer_claims (u ''chain'') = PList [root_token]" "has outer_claims (u ''chain'')"
    "get outer_claims (u ''chain_hash'') = PStr root_hash" "get outer_claims (u ''scope'') = PList [PStr (u ''read'')]"
    by (simp_all add: outer_claims_def)
  have "verify_multihop sample_crypto (deleg_input (PStr outer_text)) (PStr outer_text) outer_claims (ed_aid (key_no 0)) REFERENCE_CLOCK =
      Inr (PList [PStr (u ''read'')])"
    using p q root_hash_ok(1)
    by (simp add: verify_multihop_def Let_def c py_len_def MAX_DELEGATION_HOPS_def sample_hop_1 sample_hop_2
        verified_snapshot_bodies_def deleg_input_get check_source_tct_revocation_def apply_source_absence_def sweep_hop_def
        revocation_index_def)
  then show ?thesis
    using p c by (simp add: verify_delegation_token_def Let_def deleg_input_get)
qed

lemma multihop_sound_witness:
  "\<exists>chain hcs v. chain_sound sample_crypto (ed_aid (key_no 0)) REFERENCE_CLOCK (chain @ [PStr outer_text]) hcs v \<and> length hcs \<le> 3"
proof -
  have iss: "get outer_claims (u ''iss'') = PStr (ed_aid (key_no 2))" by (simp add: outer_claims_def)
  have tok: "PStr outer_text = sample_token (u ''aitp-delegation+jwt'') outer_claims" by (simp add: outer_text_def sample_token_def)
  obtain p where p: "parse_compact (PStr outer_text) ''DELEGATION_INVALID_SIGNATURE'' = Inr p" "claims p = outer_claims"
    using sample_hop_jws(3) [OF delegation_samples_canonical(3) iss key_no_length delegation_shapes(2), folded tok] by blast
  have "has (claims p) (u ''chain'')" by (simp add: p(2) outer_claims_def)
  from multihop_sound [OF sample_multihop deleg_input_get(1) p(1) this] show ?thesis
    unfolding deleg_input_get pyval.inject by blast
qed

lemma delegation_never_amplifies_witness:
  "\<exists>v. get v (u ''iss'') = PStr (ed_aid (key_no 0)) \<and> {PStr (u ''read'')} \<subseteq> set (the_list (get v (u ''grants'')))"
  using delegation_never_amplifies [OF sample_multihop] by (auto simp: deleg_input_get)

lemma single_hop_sound_witness:
  "\<exists>cl v. delegation_signed sample_crypto root_token cl \<and> rooted sample_crypto (ed_aid (key_no 0)) REFERENCE_CLOCK cl v"
proof -
  have iss: "get root_claims (u ''iss'') = PStr (ed_aid (key_no 1))" by (simp add: root_claims_def)
  obtain p where p: "parse_compact root_token ''DELEGATION_INVALID_SIGNATURE'' = Inr p" "claims p = root_claims"
    using sample_hop_jws(3) [OF delegation_samples_canonical(2) iss key_no_length delegation_shapes(1), folded root_token_def] by blast
  have no: "\<not> has (claims p) (u ''chain'')" by (simp add: p(2) root_claims_def)
  obtain t where t: "root_token = PStr t" by (simp add: root_token_def sample_token_def)
  from single_hop_sound [OF sample_single_hop, of t p] show ?thesis
    using p(1) no unfolding deleg_input_get t pyval.inject by blast
qed

definition integer_chain_text :: ustr where
  "integer_chain_text = compact_text [] [(u ''chain'', PInt 7)]"

lemma integer_chain_escapes_witness:
  "verify_delegation_token sample_crypto (deleg_input (PStr integer_chain_text)) REFERENCE_CLOCK = Inl TypeError"
proof -
  have "canonical_object []" "canonical_object [(u ''chain'', PInt 7)]"
    by (intro canonical_objectI; simp)+
  then obtain b where "parse_compact (PStr integer_chain_text) ''DELEGATION_INVALID_SIGNATURE'' =
      Inr \<lparr>header = [], claims = [(u ''chain'', PInt 7)], signing_input = b, signature = replicate 64 0\<rparr>"
    using compact_text_parse [of "[]" "[(u ''chain'', PInt 7)]"] by (auto simp: integer_chain_text_def)
  then show ?thesis
    by (rule integer_chain_escapes [rotated 3]) (simp_all add: deleg_input_get)
qed

end
