(* ===== verification/Session_Bundle.thy ===== *)
theory Session_Bundle
  imports Tct Manifest
begin

text \<open>
  \<open>aitp_verifier/sessionbundle.py\<close>: a coordinator-signed set of participants, each with a TCT
  the coordinator issued. Shape comes first, expiry before the signature, then each participant's
  token and the verifier's own membership.
\<close>

section \<open>Shape\<close>

definition BUNDLE_BODY_FIELDS :: "ustr list" where
  "BUNDLE_BODY_FIELDS =
     map u [''version'', ''session_id'', ''coordinator'', ''issued_at'', ''expires_at'', ''participants'',
            ''extensions'', ''signature'']"

definition PARTICIPANT_FIELDS :: "ustr list" where
  "PARTICIPANT_FIELDS = map u [''aid'', ''tct'']"

definition REQUIRED_BUNDLE_BODY_FIELDS :: "ustr list" where
  "REQUIRED_BUNDLE_BODY_FIELDS =
     map u [''version'', ''session_id'', ''coordinator'', ''issued_at'', ''expires_at'', ''participants'', ''signature'']"

definition BUNDLE_BODY_TYPES :: "(ustr \<times> jtype list) list" where
  "BUNDLE_BODY_TYPES =
     [(u ''version'', [TStr]), (u ''session_id'', [TStr]), (u ''coordinator'', [TStr]), (u ''issued_at'', [TInt]),
      (u ''expires_at'', [TInt]), (u ''participants'', [TList]), (u ''extensions'', [TDict]), (u ''signature'', [TStr])]"

definition REQUIRED_PARTICIPANT_FIELDS :: "ustr list" where
  "REQUIRED_PARTICIPANT_FIELDS = map u [''aid'', ''tct'']"

definition PARTICIPANT_TYPES :: "(ustr \<times> jtype list) list" where
  "PARTICIPANT_TYPES = [(u ''aid'', [TStr]), (u ''tct'', [TStr])]"

abbreviation bundle_invalid :: "'a res" where
  "bundle_invalid \<equiv> raise ''SESSION_BUNDLE_INVALID''"

definition check_participant_shape :: "pyval \<Rightarrow> unit res" where
  "check_participant_shape p =
     ensure (is_dict p) bundle_invalid (
     bindE (require_members REQUIRED_PARTICIPANT_FIELDS ''SESSION_BUNDLE_INVALID'' (the_dict p)) (\<lambda>_.
     bindE (check_types PARTICIPANT_TYPES ''SESSION_BUNDLE_INVALID'' (the_dict p)) (\<lambda>_.
       reject_unknown_fields PARTICIPANT_FIELDS ''SESSION_BUNDLE_INVALID'' p)))"

definition check_bundle_shape :: "pyval \<Rightarrow> dict res" where
  "check_bundle_shape outer =
     ensure (is_dict outer) bundle_invalid (
     ensure (has (the_dict outer) (u ''session_bundle'')) bundle_invalid (
     ensure (list_all (\<lambda>p. fst p = u ''session_bundle'') (the_dict outer)) bundle_invalid (
     let body_v = get (the_dict outer) (u ''session_bundle''); body = the_dict body_v in
     ensure (is_dict body_v) bundle_invalid (
     bindE (require_members REQUIRED_BUNDLE_BODY_FIELDS ''SESSION_BUNDLE_INVALID'' body) (\<lambda>_.
     bindE (check_types BUNDLE_BODY_TYPES ''SESSION_BUNDLE_INVALID'' body) (\<lambda>_.
     bindE (reject_unknown_fields BUNDLE_BODY_FIELDS ''SESSION_BUNDLE_INVALID'' body_v) (\<lambda>_.
     bindE (eachE check_participant_shape (the_list (get body (u ''participants'')))) (\<lambda>_.
       Inr body))))))))"

section \<open>Participant tokens\<close>

text \<open>\<open>UNKNOWN_FIELD\<close> of an embedded token becomes the bundle's own code; other errors pass.\<close>

definition remap_unknown_field :: "'a res \<Rightarrow> 'a res" where
  "remap_unknown_field m =
     catchE (\<lambda>e. e = AitpError ''UNKNOWN_FIELD'' False) m (\<lambda>_. raise ''BUNDLE_PARTICIPANT_TCT_INVALID'')"

definition participant_gate :: "dict \<Rightarrow> unit res" where
  "participant_gate = check_tct_claims_shape ''BUNDLE_PARTICIPANT_TCT_INVALID''"

definition participant_tct :: "pyval \<Rightarrow> pyval" where
  "participant_tct p = get (the_dict p) (u ''tct'')"

definition participant_aid :: "pyval \<Rightarrow> pyval" where
  "participant_aid p = get (the_dict p) (u ''aid'')"

text \<open>The expiry a token claims, read before its signature is checked\<close>

definition peek_exp :: "pyval \<Rightarrow> int res" where
  "peek_exp p =
     bindE (parse_compact (participant_tct p) ''BUNDLE_PARTICIPANT_TCT_INVALID'') (\<lambda>parsed.
     bindE (remap_unknown_field (participant_gate (claims parsed))) (\<lambda>_.
       py_int (get (claims parsed) (u ''exp''))))"

definition verify_participant :: "crypto \<Rightarrow> pyval \<Rightarrow> dict \<Rightarrow> pyval \<Rightarrow> unit res" where
  "verify_participant C coordinator coord_manifest p =
     bindE (peek_iss (participant_tct p) ''BUNDLE_PARTICIPANT_TCT_INVALID'') (\<lambda>iss.
     bindE (remap_unknown_field
              (verify_jws C (participant_tct p) (py_str iss) (u ''aitp-tct+jwt'') ''BUNDLE_PARTICIPANT_TCT_INVALID''
                 ''BUNDLE_PARTICIPANT_TCT_INVALID'' ''BUNDLE_PARTICIPANT_TCT_INVALID'' participant_gate)) (\<lambda>cl.
     bindE (outlives_manifest cl (PDict coord_manifest)) (\<lambda>late.
     ensure (\<not> late) (raise ''BUNDLE_PARTICIPANT_TCT_INVALID'') (
     ensure (get cl (u ''iss'') = coordinator) (raise ''BUNDLE_COORDINATOR_ISSUER_MISMATCH'') (
     ensure (get cl (u ''aud'') = participant_aid p) (raise ''BUNDLE_AUDIENCE_MISMATCH'') (Inr ()))))))"

section \<open>The operation\<close>

definition verify_session_bundle :: "crypto \<Rightarrow> dict \<Rightarrow> int option \<Rightarrow> pyval res" where
  "verify_session_bundle C inp now =
     bindE (case now of None \<Rightarrow> bindE (item inp (u ''now'')) py_int | Some t \<Rightarrow> Inr t) (\<lambda>now.
     bindE (item inp (u ''self_aid'')) (\<lambda>self_aid.
     bindE (item inp (u ''session_bundle'')) (\<lambda>outer.
     bindE (check_bundle_shape outer) (\<lambda>body.
     let participants = the_list (get body (u ''participants'')) in
     ensure (get body (u ''version'') = PStr PROTOCOL_VERSION) (raise ''BUNDLE_VERSION_MISMATCH'') (
     bindE (py_int (get body (u ''expires_at''))) (\<lambda>expires_at.
     ensure (now < expires_at) (raise ''BUNDLE_EXPIRED'') (
     ensure (participants \<noteq> []) (raise ''BUNDLE_EMPTY_PARTICIPANTS'') (
     bindE (mapE peek_exp participants) (\<lambda>tct_exps.
     ensure (expires_at = Min (set tct_exps)) (raise ''BUNDLE_EXPIRY_WINDOW_INVARIANT'') (
     let coordinator = get body (u ''coordinator'') in
     bindE (catchE is_value_error (parse_aid C (the_str coordinator)) (\<lambda>_. bundle_invalid)) (\<lambda>_.
     bindE (resolve_manifest C (the_str coordinator) (get inp (u ''coordinator_manifest'')) now)
       (\<lambda>(coord, coord_manifest).
     bindE (decode_tagged_signature (get body (u ''signature'')) coord ''BUNDLE_INVALID_SIGNATURE'') (\<lambda>raw.
     bindE (canonical_bytes ''SESSION_BUNDLE_INVALID'' (PDict (without (u ''signature'') body))) (\<lambda>b.
     bindE (verify_digest C (aid_key coord) (sha256 b) raw) (\<lambda>good.
     ensure good (raise ''BUNDLE_INVALID_SIGNATURE'') (
     bindE (eachE (verify_participant C coordinator coord_manifest) participants) (\<lambda>_.
     ensure (hashable self_aid) (Inl TypeError) (
     ensure (list_ex (py_eq self_aid) (map participant_aid participants)) (raise ''BUNDLE_NOT_MEMBER'') (
       Inr ok_verdict)))))))))))))))))))"

section \<open>Facts\<close>

lemma bundle_shape_ok:
  assumes "check_bundle_shape v = Inr body"
  shows "\<exists>outer. v = PDict outer \<and> get outer (u ''session_bundle'') = PDict body" and "is_str (get body (u ''coordinator''))"
    and "\<exists>ps. get body (u ''participants'') = PList ps \<and> (\<forall>p \<in> set ps. is_str (participant_aid p) \<and> is_str (participant_tct p))"
proof -
  from assms have outer: "is_dict v" and b: "is_dict (get (the_dict v) (u ''session_bundle''))"
    and req: "require_members REQUIRED_BUNDLE_BODY_FIELDS ''SESSION_BUNDLE_INVALID'' body = Inr ()"
    and tys: "check_types BUNDLE_BODY_TYPES ''SESSION_BUNDLE_INVALID'' body = Inr ()"
    and ps: "\<forall>p \<in> set (the_list (get body (u ''participants''))). check_participant_shape p = Inr ()"
    and body: "the_dict (get (the_dict v) (u ''session_bundle'')) = body"
    by (auto simp: check_bundle_shape_def Let_def ok_simps)
  show "\<exists>outer. v = PDict outer \<and> get outer (u ''session_bundle'') = PDict body"
    using outer b body by (auto simp: is_dict_iff)
  note m = typed_member [OF req tys, unfolded REQUIRED_BUNDLE_BODY_FIELDS_def BUNDLE_BODY_TYPES_def]
  show "is_str (get body (u ''coordinator''))" using m [of "u ''coordinator''" "[TStr]"] by simp
  have "is_list (get body (u ''participants''))" using m [of "u ''participants''" "[TList]"] by simp
  then obtain l where l: "get body (u ''participants'') = PList l" by (auto simp: is_list_iff)
  have "is_str (participant_aid p) \<and> is_str (participant_tct p)" if "p \<in> set l" for p
  proof -
    have "check_participant_shape p = Inr ()" using ps that by (simp add: l)
    then have "require_members REQUIRED_PARTICIPANT_FIELDS ''SESSION_BUNDLE_INVALID'' (the_dict p) = Inr ()"
      "check_types PARTICIPANT_TYPES ''SESSION_BUNDLE_INVALID'' (the_dict p) = Inr ()"
      by (auto simp: check_participant_shape_def ok_simps)
    note t = typed_member [OF this, unfolded REQUIRED_PARTICIPANT_FIELDS_def PARTICIPANT_TYPES_def]
    show ?thesis using t [of "u ''aid''" "[TStr]"] t [of "u ''tct''" "[TStr]"] by (simp add: participant_aid_def participant_tct_def)
  qed
  then show "\<exists>ps. get body (u ''participants'') = PList ps \<and> (\<forall>p \<in> set ps. is_str (participant_aid p) \<and> is_str (participant_tct p))"
    using l by blast
qed

lemma remap_ok [ok_simps]: "remap_unknown_field m = Inr x \<longleftrightarrow> m = Inr x"
  by (simp add: remap_unknown_field_def catchE_raise_ok)

lemma peek_exp_signed:
  assumes "peek_exp p = Inr e" and "tct_signed C (participant_tct p) cl"
  shows "py_int (get cl (u ''exp'')) = Inr e"
proof -
  obtain q where "parse_compact (participant_tct p) ''BUNDLE_PARTICIPANT_TCT_INVALID'' = Inr q" "claims q = cl"
    using jws_signed_parse assms(2) unfolding tct_signed_def by blast
  then show ?thesis using assms(1) by (auto simp: peek_exp_def ok_simps)
qed

text \<open>An accepted participant entry holds a token of the coordinator for that participant.\<close>

lemma verify_participant_ok:
  assumes "verify_participant C coordinator man p = Inr w"
  shows "\<exists>cl late. tct_signed C (participant_tct p) cl \<and> get cl (u ''iss'') = coordinator \<and>
    get cl (u ''aud'') = participant_aid p \<and> outlives_manifest cl (PDict man) = Inr False"
proof -
  from assms obtain v cl where v: "peek_iss (participant_tct p) ''BUNDLE_PARTICIPANT_TCT_INVALID'' = Inr v"
    and jws: "verify_jws C (participant_tct p) (py_str v) (u ''aitp-tct+jwt'') ''BUNDLE_PARTICIPANT_TCT_INVALID''
       ''BUNDLE_PARTICIPANT_TCT_INVALID'' ''BUNDLE_PARTICIPANT_TCT_INVALID'' participant_gate = Inr cl"
    and rest: "outlives_manifest cl (PDict man) = Inr False" "get cl (u ''iss'') = coordinator" "get cl (u ''aud'') = participant_aid p"
    unfolding verify_participant_def by (auto simp: ok_simps)
  have s: "jws_signed C (participant_tct p) (py_str v) (u ''aitp-tct+jwt'') cl" and "participant_gate cl = Inr ()"
    using jws by (simp_all add: verify_jws_signed)
  then have shaped: "tct_shaped cl" unfolding participant_gate_def by (intro tct_claims_shape_ok)
  have "v = get cl (u ''iss'')" using peek_iss_signed [OF v s] .
  then have "tct_signed C (participant_tct p) cl"
    using s shaped by (auto simp: tct_signed_def tct_shaped_def is_str_iff)
  then show ?thesis using rest by blast
qed

section \<open>Properties\<close>

text \<open>
  C15. An accepted session bundle is unexpired, signed under the AID its \<open>coordinator\<close> member names,
  whose key a verified Manifest gave, and holds for every participant a token the coordinator issued
  to that participant. Its life ends with the first of those tokens, none outlives the coordinator's
  Manifest, and the verifier is one of the participants.
\<close>

theorem session_bundle_sound:
  assumes "verify_session_bundle C inp (Some now) = Inr verdict"
  shows "\<exists>outer body ps tx coord man raw b x. get inp (u ''session_bundle'') = PDict outer \<and>
    get outer (u ''session_bundle'') = PDict body \<and> get body (u ''participants'') = PList ps \<and>
    get body (u ''coordinator'') = PStr tx \<and>
    resolve_manifest C tx (get inp (u ''coordinator_manifest'')) now = Inr (coord, man) \<and>
    decode_tagged_signature (get body (u ''signature'')) coord ''BUNDLE_INVALID_SIGNATURE'' = Inr raw \<and>
    canonicalize (PDict (without (u ''signature'') body)) = Inr b \<and>
    verify_digest C (aid_key coord) (sha256 b) raw = Inr True \<and>
    py_int (get body (u ''expires_at'')) = Inr x \<and> now < x \<and>
    (\<forall>p \<in> set ps. \<exists>cl e m. tct_signed C (participant_tct p) cl \<and> get cl (u ''iss'') = PStr tx \<and>
       get cl (u ''aud'') = participant_aid p \<and> py_int (get cl (u ''exp'')) = Inr e \<and> x \<le> e \<and>
       py_int (get man (u ''expires_at'')) = Inr m \<and> e \<le> m) \<and>
    (\<exists>p \<in> set ps. peek_exp p = Inr x) \<and> (\<exists>p \<in> set ps. participant_aid p = get inp (u ''self_aid''))"
proof -
  from assms obtain body x es a coord man raw b where shape: "check_bundle_shape (get inp (u ''session_bundle'')) = Inr body"
    and x: "py_int (get body (u ''expires_at'')) = Inr x" "now < x" and ne: "the_list (get body (u ''participants'')) \<noteq> []"
    and es: "mapE peek_exp (the_list (get body (u ''participants''))) = Inr es" and x_min: "x = Min (set es)"
    and coord: "resolve_manifest C (the_str (get body (u ''coordinator''))) (get inp (u ''coordinator_manifest'')) now = Inr (coord, man)"
    and sig: "decode_tagged_signature (get body (u ''signature'')) coord ''BUNDLE_INVALID_SIGNATURE'' = Inr raw"
      "canonicalize (PDict (without (u ''signature'') body)) = Inr b" "verify_digest C (aid_key coord) (sha256 b) raw = Inr True"
    and each: "eachE (verify_participant C (get body (u ''coordinator'')) man) (the_list (get body (u ''participants''))) = Inr ()"
    and self: "list_ex (py_eq (get inp (u ''self_aid''))) (map participant_aid (the_list (get body (u ''participants''))))"
    unfolding verify_session_bundle_def option.case bindE_Inr Let_def item_bind_ok unfolding runs canonical_bytes_ok
    by (elim exE conjE) (rule that, assumption+)
  obtain outer where outer: "get inp (u ''session_bundle'') = PDict outer" "get outer (u ''session_bundle'') = PDict body"
    using bundle_shape_ok(1) [OF shape] by blast
  obtain tx where tx: "get body (u ''coordinator'') = PStr tx" using bundle_shape_ok(2) [OF shape] by (auto simp: is_str_iff)
  obtain ps where ps: "get body (u ''participants'') = PList ps" "\<forall>p \<in> set ps. is_str (participant_aid p) \<and> is_str (participant_tct p)"
    using bundle_shape_ok(3) [OF shape] by blast
  have "es \<noteq> []" using mapE_ok_length [OF es] ne by auto
  then have min: "x \<in> set es" "\<forall>e \<in> set es. x \<le> e" by (simp_all add: x_min)
  have part: "\<exists>cl e m. tct_signed C (participant_tct p) cl \<and> get cl (u ''iss'') = PStr tx \<and>
       get cl (u ''aud'') = participant_aid p \<and> py_int (get cl (u ''exp'')) = Inr e \<and> x \<le> e \<and>
       py_int (get man (u ''expires_at'')) = Inr m \<and> e \<le> m" if p: "p \<in> set ps" for p
  proof -
    obtain e where e: "peek_exp p = Inr e" "e \<in> set es" using mapE_ok_elem [OF es, unfolded ps(1) the_list.simps, OF p] by blast
    obtain cl where cl: "tct_signed C (participant_tct p) cl" "get cl (u ''iss'') = PStr tx" "get cl (u ''aud'') = participant_aid p"
      and late: "outlives_manifest cl (PDict man) = Inr False"
      using verify_participant_ok [of C "PStr tx" man p] each p by (auto simp: ps(1) tx eachE_ok)
    have exp: "py_int (get cl (u ''exp'')) = Inr e" by (rule peek_exp_signed [OF e(1) cl(1)])
    from late exp obtain m where "py_int (get man (u ''expires_at'')) = Inr m" "e \<le> m"
      by (auto simp: outlives_manifest_def ok_simps subscript_def item_ok)
    then show ?thesis using cl exp min e(2) by blast
  qed
  have "\<exists>p \<in> set ps. participant_aid p = get inp (u ''self_aid'')"
  proof -
    obtain p where p: "p \<in> set ps" "py_eq (get inp (u ''self_aid'')) (participant_aid p)"
      using self by (auto simp: list_ex_iff ps(1))
    then obtain s where "participant_aid p = PStr s" using ps(2) by (auto simp: is_str_iff)
    then show ?thesis using p by (auto simp: py_eq_PStr_right)
  qed
  moreover have "\<exists>p \<in> set ps. peek_exp p = Inr x" using mapE_ok_set [OF es min(1)] by (simp add: ps(1))
  moreover have "\<forall>p \<in> set ps. \<exists>cl e m. tct_signed C (participant_tct p) cl \<and> get cl (u ''iss'') = PStr tx \<and>
       get cl (u ''aud'') = participant_aid p \<and> py_int (get cl (u ''exp'')) = Inr e \<and> x \<le> e \<and>
       py_int (get man (u ''expires_at'')) = Inr m \<and> e \<le> m" using part by blast
  ultimately show ?thesis
    by (intro exI [of _ outer] exI [of _ body] exI [of _ ps] exI [of _ tx] exI [of _ coord] exI [of _ man] exI [of _ raw]
        exI [of _ b] exI [of _ x] conjI) (rule outer ps(1) tx coord [unfolded tx the_str.simps] sig x | assumption)+
qed

section \<open>A sample bundle\<close>

definition sample_bundle_body :: dict where
  "sample_bundle_body =
     [(u ''coordinator'', PStr sample_aid), (u ''expires_at'', PInt (REFERENCE_CLOCK + 60)),
      (u ''issued_at'', PInt REFERENCE_CLOCK),
      (u ''participants'', PList [PDict [(u ''aid'', PStr peer_aid),
         (u ''tct'', sample_tct (replicate 32 0) (replicate 32 1) peer_aid [u ''read''])]]),
      (u ''session_id'', PStr (u ''s'')), (u ''signature'', PStr sample_sig), (u ''version'', PStr PROTOCOL_VERSION)]"

definition bundle_input :: dict where
  "bundle_input =
     [(u ''self_aid'', PStr peer_aid), (u ''session_bundle'', PDict [(u ''session_bundle'', PDict sample_bundle_body)]),
      (u ''coordinator_manifest'', PDict (sample_manifest (replicate 32 0)))]"

lemma sample_bundle_shape: "check_bundle_shape (PDict [(u ''session_bundle'', PDict sample_bundle_body)]) = Inr sample_bundle_body"
  by (simp add: check_bundle_shape_def check_participant_shape_def require_members_def check_types_def type_ok_def
      reject_unknown_fields_def REQUIRED_BUNDLE_BODY_FIELDS_def BUNDLE_BODY_TYPES_def BUNDLE_BODY_FIELDS_def
      REQUIRED_PARTICIPANT_FIELDS_def PARTICIPANT_TYPES_def PARTICIPANT_FIELDS_def sample_bundle_body_def
      sample_tct_def sample_token_def compact_text_def)


lemma sample_bundle_accepted:
  "verify_session_bundle sample_crypto bundle_input (Some REFERENCE_CLOCK) = Inr ok_verdict"
proof -
  let ?token = "sample_tct (replicate 32 0) (replicate 32 1) peer_aid [u ''read'']"
  let ?cl = "tct_claims (replicate 32 0) (replicate 32 1) peer_aid [u ''read'']"
  let ?p = "PDict [(u ''aid'', PStr peer_aid), (u ''tct'', ?token)]"
  have ok: "list_all scalar peer_aid" "list_all (list_all scalar) [u ''read'']" "length [u ''read''] \<le> 100"
    "length (replicate 32 (0 :: byte)) = 32" by simp_all
  note t = sample_tct_verified [OF ok, where l = "replicate 32 1"]
  have p: "participant_tct ?p = ?token" "participant_aid ?p = PStr peer_aid"
    by (simp_all add: participant_tct_def participant_aid_def)
  obtain q where "parse_compact ?token ''BUNDLE_PARTICIPANT_TCT_INVALID'' = Inr q" "claims q = ?cl"
    using jws_signed_parse [OF t(2)] by blast
  then have exp: "peek_exp ?p = Inr (REFERENCE_CLOCK + 60)"
    by (simp add: peek_exp_def p participant_gate_def remap_unknown_field_def) (simp add: tct_claims_def)
  have jws: "verify_jws sample_crypto ?token (ed_aid (replicate 32 0)) (u ''aitp-tct+jwt'') ''BUNDLE_PARTICIPANT_TCT_INVALID''
      ''BUNDLE_PARTICIPANT_TCT_INVALID'' ''BUNDLE_PARTICIPANT_TCT_INVALID'' participant_gate = Inr ?cl"
    using t(2) by (simp add: verify_jws_signed participant_gate_def)
  have man: "resolve_manifest sample_crypto sample_aid (PDict (sample_manifest (replicate 32 0))) REFERENCE_CLOCK =
      Inr (sample_key (replicate 32 0), sample_manifest (replicate 32 0))"
  proof -
    have "verify_manifest sample_crypto [(u ''manifest'', PDict (sample_manifest (replicate 32 0))), (u ''now'', PInt REFERENCE_CLOCK)]
        REFERENCE_CLOCK = Inr (PDict [(u ''aid'', PStr (ed_aid (replicate 32 0)))])"
      by (rule sample_manifest_verified [where t = REFERENCE_CLOCK]) simp_all
    then show ?thesis by (simp add: resolve_manifest_def sample_manifest_get) (simp flip: sample_aid_def)
  qed
  have man_exp: "item (sample_manifest (replicate 32 0)) (u ''expires_at'') = Inr (PInt (REFERENCE_CLOCK + 3600))"
    by (simp add: item_def sample_manifest_def)
  have part: "verify_participant sample_crypto (PStr sample_aid) (sample_manifest (replicate 32 0)) ?p = Inr ()"
    using t(1) jws man_exp
    by (simp add: verify_participant_def p remap_unknown_field_def outlives_manifest_def subscript_def)
      (simp add: tct_claims_def sample_aid_def)
  have "\<exists>b. canonicalize (PDict (without (u ''signature'') sample_bundle_body)) = Inr b"
    by (intro canonicalize_plain)
      (simp_all add: sample_bundle_body_def sample_tct_def sample_token_def REFERENCE_CLOCK_def max_depth_def max_nodes_visited_def)
  then obtain b where b: "canonicalize (PDict (without (u ''signature'') sample_bundle_body)) = Inr b" by blast
  have g: "get sample_bundle_body (u ''participants'') = PList [?p]" "get sample_bundle_body (u ''version'') = PStr PROTOCOL_VERSION"
    "get sample_bundle_body (u ''expires_at'') = PInt (REFERENCE_CLOCK + 60)" "get sample_bundle_body (u ''coordinator'') = PStr sample_aid"
    "get sample_bundle_body (u ''signature'') = PStr sample_sig"
    by (simp_all add: sample_bundle_body_def)
  show ?thesis
    using sample_bundle_shape exp man part b
    by (simp add: verify_session_bundle_def hashable_def bundle_input_def g p canonical_bytes_def Let_def)
qed

lemma session_bundle_sound_witness:
  "\<exists>body ps. get body (u ''participants'') = PList ps \<and> (\<exists>p \<in> set ps. participant_aid p = get bundle_input (u ''self_aid'')) \<and>
    (\<forall>p \<in> set ps. \<exists>cl. tct_signed sample_crypto (participant_tct p) cl)"
proof -
  from session_bundle_sound [OF sample_bundle_accepted] obtain body ps tx x man where "get body (u ''participants'') = PList ps"
    and each: "\<forall>p \<in> set ps. \<exists>cl e m. tct_signed sample_crypto (participant_tct p) cl \<and> get cl (u ''iss'') = PStr tx \<and>
       get cl (u ''aud'') = participant_aid p \<and> py_int (get cl (u ''exp'')) = Inr e \<and> x \<le> e \<and>
       py_int (get man (u ''expires_at'')) = Inr m \<and> e \<le> m"
    and "\<exists>p \<in> set ps. participant_aid p = get bundle_input (u ''self_aid'')"
    by (elim exE conjE) (rule that, assumption+)
  moreover have "\<forall>p \<in> set ps. \<exists>cl. tct_signed sample_crypto (participant_tct p) cl"
    using each by blast
  ultimately show ?thesis by blast
qed

end
