(* ===== verification/Handshake.thy ===== *)
theory Handshake
  imports Tct Manifest
begin

text \<open>
  \<open>aitp_verifier/handshake.py\<close>: the payloads of the mutual handshake. A bootstrap message
  carries a Manifest and an identity, a commit message the peer-issued TCT.
\<close>

section \<open>Payload shapes\<close>

definition BOOTSTRAP :: "ustr list" where
  "BOOTSTRAP = map u [''mutual_hello'', ''mutual_hello_ack'']"

definition COMMIT :: "ustr list" where
  "COMMIT = map u [''mutual_commit'', ''mutual_commit_ack'']"

definition HELLO_PAYLOAD_FIELDS :: "ustr list" where
  "HELLO_PAYLOAD_FIELDS = map u [''identity'', ''manifest'', ''requested_grants'', ''pop_nonce'', ''extensions'']"

definition HELLO_ACK_PAYLOAD_FIELDS :: "ustr list" where
  "HELLO_ACK_PAYLOAD_FIELDS = HELLO_PAYLOAD_FIELDS @ [u ''pop_nonce_echo'']"

definition COMMIT_PAYLOAD_FIELDS :: "ustr list" where
  "COMMIT_PAYLOAD_FIELDS = map u [''tct'', ''grant_voucher'', ''pop_signature'', ''pop_nonce_echo'', ''extensions'']"

definition HELLO_REQUIRED_PAYLOAD_FIELDS :: "ustr list" where
  "HELLO_REQUIRED_PAYLOAD_FIELDS = map u [''identity'', ''manifest'', ''requested_grants'', ''pop_nonce'']"

definition DEFAULT_ACCEPTED_IDENTITY_TYPES :: "ustr list" where
  "DEFAULT_ACCEPTED_IDENTITY_TYPES = [u ''oidc'']"

definition SPIFFE_FEATURE :: ustr where
  "SPIFFE_FEATURE = u ''experimental-spiffe-identity''"

section \<open>Local configuration\<close>

definition string_list :: "pyval \<Rightarrow> ustr list" where
  "string_list v = map the_str (filter is_str (the_list v))"

definition spiffe_bundles :: "dict \<Rightarrow> pyval" where
  "spiffe_bundles inp =
     (if get inp (u ''_feature'') \<noteq> PStr SPIFFE_FEATURE then PNone
      else
        (let config = get inp (u ''trust_anchors_config'') in
         if is_dict config then get_or (PList []) (the_dict config) (u ''spiffe_bundles'') else PList []))"

section \<open>Bootstrap\<close>

definition verify_bootstrap :: "crypto \<Rightarrow> svid_api \<Rightarrow> dict \<Rightarrow> dict \<Rightarrow> int \<Rightarrow> pyval res" where
  "verify_bootstrap C V inp env now =
     (let payload_v = get env (u ''payload''); payload = the_dict payload_v;
          ack = (get env (u ''message_type'') = PStr (u ''mutual_hello_ack''));
          agent = sender_agent_id env in
      bindE (reject_unknown_fields (if ack then HELLO_ACK_PAYLOAD_FIELDS else HELLO_PAYLOAD_FIELDS)
               ''INVALID_ENVELOPE'' payload_v) (\<lambda>_.
      bindE (require_members HELLO_REQUIRED_PAYLOAD_FIELDS ''INVALID_ENVELOPE'' payload) (\<lambda>_.
      let man_v = get payload (u ''manifest''); man = the_dict man_v in
      ensure (\<not> (ack \<and> has inp (u ''peer_aid'') \<and> get inp (u ''peer_aid'') \<noteq> PStr agent)) (raise ''PEER_MISMATCH'') (
      bindE (verify_manifest C [(u ''manifest'', man_v), (u ''now'', PInt now)] now) (\<lambda>_.
      ensure (get man (u ''aid'') = PStr agent) (raise ''INVALID_ENVELOPE'') (
      let identity_v = get payload (u ''identity''); identity = the_dict identity_v in
      ensure (is_dict identity_v) (raise ''IDENTITY_FAILED'') (
      ensure (py_eq (get (the_dict (get man (u ''identity_hint''))) (u ''type'')) (get identity (u ''type'')))
        (raise ''IDENTITY_FAILED'') (
      bindE (verify_identity C V identity_v env (get_or (PStr []) inp (u ''self_aid''))
               (string_list (get_or (PList []) inp (u ''self_trust_anchors''))) (get inp (u ''trust_store''))
               (get_or (PDict []) inp (u ''resolved_issuer_keys'')) now (spiffe_bundles inp)) (\<lambda>_.
      bindE (parse_aid C agent) (\<lambda>a.
      bindE (decode_tagged_signature (get env (u ''signature'')) a ''INVALID_SIGNATURE'') (\<lambda>raw.
      bindE (envelope_signing_input env) (\<lambda>b.
      bindE (verify_digest C (aid_key a) (sha256 b) raw) (\<lambda>good.
      ensure good (raise ''INVALID_SIGNATURE'') (
      let accepted = string_list (get_or (PList (map PStr DEFAULT_ACCEPTED_IDENTITY_TYPES)) inp
                                    (u ''self_accepted_identity_types'')) in
      ensure (the_str (get identity (u ''type'')) \<in> set accepted) (raise ''INCOMPATIBLE_IDENTITY_TYPE'') (
      ensure (\<not> (ack \<and> has inp (u ''sent_pop_nonce'') \<and>
                \<not> py_eq (get payload (u ''pop_nonce_echo'')) (get inp (u ''sent_pop_nonce''))))
        (raise ''NONCE_MISMATCH'') (Inr ok_verdict))))))))))))))))"

section \<open>Commit\<close>

text \<open>\<open>inp.get("envelope", {}).get("sender", {}).get("agent_id")\<close>\<close>

definition commit_sender :: "dict \<Rightarrow> pyval res" where
  "commit_sender inp =
     (case get_or (PDict []) inp (u ''envelope'') of
        PDict env \<Rightarrow> dict_get (get_or (PDict []) env (u ''sender'')) (u ''agent_id'')
      | _ \<Rightarrow> Inl AttributeError)"

definition self_nonce_of :: "dict \<Rightarrow> pyval" where
  "self_nonce_of inp =
     py_or (py_or (get inp (u ''self_pop_nonce_sent_in_hello_ack'')) (get inp (u ''self_pop_nonce_sent_in_hello'')))
       (get inp (u ''self_pop_nonce''))"

text \<open>The round-2 proof of possession, when a signature is present and a nonce was sent\<close>

definition check_round2_pop :: "crypto \<Rightarrow> dict \<Rightarrow> dict \<Rightarrow> pyval \<Rightarrow> unit res" where
  "check_round2_pop C inp payload sender =
     (if is_str (get payload (u ''pop_signature'')) \<and> truthy (self_nonce_of inp) then
        bindE (parse_aid C (py_str sender)) (\<lambda>a.
        bindE (catchE is_value_error
                 (b64url_decode (last (split_on 46 (the_str (get payload (u ''pop_signature''))))))
                 (\<lambda>_. raise ''POP_VERIFICATION_FAILED'')) (\<lambda>sig.
        bindE (b64url_decode_value (self_nonce_of inp)) (\<lambda>nonce.
        bindE (verify_digest C (aid_key a) (sha256 nonce) sig) (\<lambda>good.
        ensure good (raise ''POP_VERIFICATION_FAILED'') (Inr ())))))
      else Inr ())"

text \<open>The embedded peer-issued TCT\<close>

definition verify_commit_tct :: "crypto \<Rightarrow> pyval \<Rightarrow> pyval \<Rightarrow> pyval \<Rightarrow> int \<Rightarrow> pyval res" where
  "verify_commit_tct C tct self_aid offered now =
     bindE (peek_iss tct ''TCT_SIGNATURE_INVALID'') (\<lambda>iss.
     bindE (verify_tct_jws C tct (py_str iss) tct_gate) (\<lambda>cl.
     ensure (get cl (u ''ver'') = PStr PROTOCOL_VERSION) (raise ''UNKNOWN_VERSION'') (
     ensure (\<not> (self_aid \<noteq> PNone \<and> \<not> py_eq (get cl (u ''aud'')) self_aid)) (raise ''AUDIENCE_MISMATCH'') (
     bindE (py_int (get cl (u ''exp''))) (\<lambda>exp.
     ensure (now < exp) (raise ''TCT_EXPIRED'') (
     bindE (check_grant_context ''TCT_SIGNATURE_INVALID'' cl) (\<lambda>_.
     bindE (check_cnf_binding C cl) (\<lambda>_.
     bindE (if offered = PNone then Inr True
            else bindE (py_set offered) (\<lambda>xs. Inr (py_subset (the_list (get cl (u ''grants''))) xs))) (\<lambda>within.
     ensure within (raise ''GRANT_OVERFLOW'') (Inr (get cl (u ''grants''))))))))))))"

definition verify_commit :: "crypto \<Rightarrow> dict \<Rightarrow> pyval \<Rightarrow> pyval \<Rightarrow> int \<Rightarrow> pyval res" where
  "verify_commit C inp payload_v self_aid now =
     bindE (reject_unknown_fields COMMIT_PAYLOAD_FIELDS ''INVALID_ENVELOPE'' payload_v) (\<lambda>_.
     let payload = the_dict payload_v in
     ensure (has payload (u ''tct'')) (raise ''INVALID_ENVELOPE'') (
     let tct = get payload (u ''tct'') in
     bindE (commit_sender inp) (\<lambda>agent.
     bindE (if agent = PNone then peek_iss tct ''TCT_SIGNATURE_INVALID'' else Inr agent) (\<lambda>sender.
     bindE (check_round2_pop C inp payload sender) (\<lambda>_.
       verify_commit_tct C tct self_aid (get inp (u ''issuer_offered_capabilities'')) now)))))"

section \<open>The operation\<close>

text \<open>\<open>inp[side]\<close>, its payload and its \<open>self_aid\<close>, for one side of a two-sided commit\<close>

definition verify_side :: "crypto \<Rightarrow> dict \<Rightarrow> ustr \<Rightarrow> int \<Rightarrow> pyval res" where
  "verify_side C inp side now =
     bindE (item inp side) (\<lambda>v.
     ensure (is_dict v) (Inl AttributeError) (
     bindE (item (the_dict v) (u ''self_aid'')) (\<lambda>self_aid.
       verify_commit C (the_dict v) (get_or (PDict []) (the_dict v) (u ''received_payload'')) self_aid now)))"

definition verify_handshake_payload :: "crypto \<Rightarrow> svid_api \<Rightarrow> dict \<Rightarrow> int \<Rightarrow> pyval res" where
  "verify_handshake_payload C V inp now =
     (if has inp (u ''peer_a'') \<and> has inp (u ''peer_b'') then
        bindE (verify_side C inp (u ''peer_a'') now) (\<lambda>_.
        bindE (verify_side C inp (u ''peer_b'') now) (\<lambda>grants.
          Inr (PDict [(u ''grants'', grants)])))
      else
        bindE (validate_envelope_shape (get inp (u ''envelope''))) (\<lambda>env.
        let mtype = the_str (get env (u ''message_type'')) in
        if mtype \<in> set BOOTSTRAP then verify_bootstrap C V inp env now
        else if mtype \<in> set COMMIT then
          bindE (verify_commit C inp (get env (u ''payload'')) (get inp (u ''self_aid'')) now) (\<lambda>grants.
            Inr (PDict [(u ''grants'', grants)]))
        else raise ''INVALID_ENVELOPE''))"

section \<open>Facts and properties\<close>

text \<open>What a bootstrap message must pass, in the order the code checks it.\<close>

lemma handshake_bootstrap:
  assumes "\<not> (has inp (u ''peer_a'') \<and> has inp (u ''peer_b''))" and "verify_handshake_payload C V inp now = Inr verdict"
  shows "\<exists>env. get inp (u ''envelope'') = PDict env \<and> envelope_shaped env \<and>
    (if the_str (get env (u ''message_type'')) \<in> set BOOTSTRAP then verify_bootstrap C V inp env now = Inr verdict
     else the_str (get env (u ''message_type'')) \<in> set COMMIT \<and>
       (\<exists>grants. verify_commit C inp (get env (u ''payload'')) (get inp (u ''self_aid'')) now = Inr grants \<and>
          verdict = PDict [(u ''grants'', grants)]))"
proof -
  from assms obtain env where env: "validate_envelope_shape (get inp (u ''envelope'')) = Inr env"
    and body: "(let mtype = the_str (get env (u ''message_type'')) in
        if mtype \<in> set BOOTSTRAP then verify_bootstrap C V inp env now
        else if mtype \<in> set COMMIT then
          bindE (verify_commit C inp (get env (u ''payload'')) (get inp (u ''self_aid'')) now) (\<lambda>grants.
            Inr (PDict [(u ''grants'', grants)]))
        else raise ''INVALID_ENVELOPE'') = Inr verdict"
    unfolding verify_handshake_payload_def by (auto simp: bindE_ok)
  then show ?thesis
    using validate_envelope_shape_ok [OF env] by (auto simp: Let_def bindE_ok split: if_splits)
qed

text \<open>
  C13. An accepted \<open>mutual_hello\<close> or \<open>mutual_hello_ack\<close>, payload to identity: the embedded Manifest is
  well-formed, verifies and is the sender's own; the identity is of the type the Manifest announces
  and this receiver accepts, and its binding verifies; the sender's key made the envelope signature
  over the domain-tagged canonical form; and an acknowledgement comes from the peer that was
  addressed and echoes the nonce that was sent.
\<close>

theorem bootstrap_sound:
  assumes "verify_handshake_payload C V inp now = Inr verdict" and "\<not> (has inp (u ''peer_a'') \<and> has inp (u ''peer_b''))"
    and "the_str (get (the_dict (get inp (u ''envelope''))) (u ''message_type'')) \<in> set BOOTSTRAP"
  shows "\<exists>env payload man identity a raw b. get inp (u ''envelope'') = PDict env \<and> envelope_shaped env \<and>
    get env (u ''payload'') = PDict payload \<and> get payload (u ''manifest'') = PDict man \<and>
    manifest_wellformed man \<and> get man (u ''aid'') = PStr (sender_agent_id env) \<and>
    verify_manifest C [(u ''manifest'', PDict man), (u ''now'', PInt now)] now = Inr (PDict [(u ''aid'', get man (u ''aid''))]) \<and>
    get payload (u ''identity'') = PDict identity \<and>
    py_eq (get (the_dict (get man (u ''identity_hint''))) (u ''type'')) (get identity (u ''type'')) \<and>
    the_str (get identity (u ''type'')) \<in> set (string_list (get_or (PList (map PStr DEFAULT_ACCEPTED_IDENTITY_TYPES)) inp
      (u ''self_accepted_identity_types''))) \<and>
    verify_identity C V (PDict identity) env (get_or (PStr []) inp (u ''self_aid''))
      (string_list (get_or (PList []) inp (u ''self_trust_anchors''))) (get inp (u ''trust_store''))
      (get_or (PDict []) inp (u ''resolved_issuer_keys'')) now (spiffe_bundles inp) = Inr () \<and>
    parse_aid C (sender_agent_id env) = Inr a \<and>
    decode_tagged_signature (get env (u ''signature'')) a ''INVALID_SIGNATURE'' = Inr raw \<and>
    canonicalize (PDict (without (u ''signature'') env)) = Inr b \<and>
    verify_digest C (aid_key a) (sha256 (ENVELOPE_DOMAIN_TAG @ b)) raw = Inr True \<and>
    (get env (u ''message_type'') = PStr (u ''mutual_hello_ack'') \<longrightarrow>
       (has inp (u ''peer_aid'') \<longrightarrow> get inp (u ''peer_aid'') = PStr (sender_agent_id env)) \<and>
       (has inp (u ''sent_pop_nonce'') \<longrightarrow> py_eq (get payload (u ''pop_nonce_echo'')) (get inp (u ''sent_pop_nonce'')))) \<and>
    verdict = ok_verdict"
proof -
  obtain env where env: "get inp (u ''envelope'') = PDict env" "envelope_shaped env" and boot: "verify_bootstrap C V inp env now = Inr verdict"
    using handshake_bootstrap [OF assms(2,1)] assms(3) by auto
  obtain pl where pl: "get env (u ''payload'') = PDict pl" using env(2) by (auto simp: envelope_shaped_def is_dict_iff)
  let ?man = "get pl (u ''manifest'')" and ?id = "get pl (u ''identity'')" and ?agent = "sender_agent_id env"
  let ?ack = "get env (u ''message_type'') = PStr (u ''mutual_hello_ack'')"
  from boot obtain v a raw b where
    peer: "\<not> (?ack \<and> has inp (u ''peer_aid'') \<and> get inp (u ''peer_aid'') \<noteq> PStr ?agent)"
    and man: "verify_manifest C [(u ''manifest'', ?man), (u ''now'', PInt now)] now = Inr v"
    and aid: "get (the_dict ?man) (u ''aid'') = PStr ?agent" and id: "is_dict ?id"
    and hint: "py_eq (get (the_dict (get (the_dict ?man) (u ''identity_hint''))) (u ''type'')) (get (the_dict ?id) (u ''type''))"
    and ver: "verify_identity C V ?id env (get_or (PStr []) inp (u ''self_aid''))
      (string_list (get_or (PList []) inp (u ''self_trust_anchors''))) (get inp (u ''trust_store''))
      (get_or (PDict []) inp (u ''resolved_issuer_keys'')) now (spiffe_bundles inp) = Inr ()"
    and sig: "parse_aid C ?agent = Inr a" "decode_tagged_signature (get env (u ''signature'')) a ''INVALID_SIGNATURE'' = Inr raw"
      "envelope_signing_input env = Inr b" "verify_digest C (aid_key a) (sha256 b) raw = Inr True"
    and acc: "the_str (get (the_dict ?id) (u ''type'')) \<in> set (string_list (get_or (PList (map PStr DEFAULT_ACCEPTED_IDENTITY_TYPES)) inp
      (u ''self_accepted_identity_types'')))"
    and nonce: "\<not> (?ack \<and> has inp (u ''sent_pop_nonce'') \<and> \<not> py_eq (get pl (u ''pop_nonce_echo'')) (get inp (u ''sent_pop_nonce'')))"
    and verdict: "ok_verdict = verdict"
    unfolding verify_bootstrap_def Let_def pl the_dict.simps unfolding runs
    by (elim exE conjE) (rule that, assumption+)
  obtain m where m: "?man = PDict m" "manifest_wellformed m" and v: "v = PDict [(u ''aid'', get m (u ''aid''))]"
    using verified_manifest [OF man] by auto
  obtain i where i: "?id = PDict i" using id by (auto simp: is_dict_iff)
  obtain c where c: "b = ENVELOPE_DOMAIN_TAG @ c" "canonicalize (PDict (without (u ''signature'') env)) = Inr c"
    using sig(3) by (auto simp: envelope_signing_input_def ok_simps)
  have ack: "?ack \<longrightarrow> (has inp (u ''peer_aid'') \<longrightarrow> get inp (u ''peer_aid'') = PStr ?agent) \<and>
       (has inp (u ''sent_pop_nonce'') \<longrightarrow> py_eq (get pl (u ''pop_nonce_echo'')) (get inp (u ''sent_pop_nonce'')))"
    using peer nonce by blast
  show ?thesis
    by (intro exI [of _ env] exI [of _ pl] exI [of _ m] exI [of _ i] exI [of _ a] exI [of _ raw] exI [of _ c] conjI)
      (rule env pl m i aid [unfolded m the_dict.simps] man [unfolded m v] hint [unfolded m i the_dict.simps]
        acc [unfolded i the_dict.simps] ver [unfolded i] sig(1,2) c(2) sig(4) [unfolded c(1)] ack verdict [symmetric])+
qed



text \<open>An accepted commit carries a capability token of the TCT type for this verifier.\<close>

lemma commit_tct_ok:
  assumes "verify_commit_tct C tct self_aid offered now = Inr grants"
  shows "\<exists>cl a jkt e. tct_signed C tct cl \<and> get cl (u ''ver'') = PStr PROTOCOL_VERSION \<and>
    (self_aid \<noteq> PNone \<longrightarrow> get cl (u ''aud'') = self_aid) \<and> py_int (get cl (u ''exp'')) = Inr e \<and> now < e \<and>
    get cl (u ''iss'') \<noteq> get cl (u ''sub'') \<and> PStr ATTESTATION_MARKER \<notin> set (the_list (get cl (u ''grants''))) \<and>
    parse_aid C (the_str (get cl (u ''sub''))) = Inr a \<and> thumbprint a = Inr jkt \<and> jkt_of cl = PStr jkt \<and>
    (offered \<noteq> PNone \<longrightarrow> (\<exists>xs. py_set offered = Inr xs \<and> py_subset (the_list (get cl (u ''grants''))) xs)) \<and>
    grants = get cl (u ''grants'')"
proof -
  from assms obtain v cl e where v: "peek_iss tct ''TCT_SIGNATURE_INVALID'' = Inr v" "verify_tct_jws C tct (py_str v) tct_gate = Inr cl"
    and ver: "get cl (u ''ver'') = PStr PROTOCOL_VERSION" and aud: "\<not> (self_aid \<noteq> PNone \<and> \<not> py_eq (get cl (u ''aud'')) self_aid)"
    and exp: "py_int (get cl (u ''exp'')) = Inr e" "now < e"
    and ctx: "check_grant_context ''TCT_SIGNATURE_INVALID'' cl = Inr ()" "check_cnf_binding C cl = Inr ()"
    and off: "(if offered = PNone then Inr True
       else bindE (py_set offered) (\<lambda>xs. Inr (py_subset (the_list (get cl (u ''grants''))) xs))) = Inr True"
    and grants: "get cl (u ''grants'') = grants"
    unfolding verify_commit_tct_def Let_def unfolding bindE_ok ensure_raise_ok ex_unit ex_true Inr_inject
    by (elim exE conjE) (rule that, assumption+)
  have signed: "tct_signed C tct cl" using verify_tct_jws_ok(1) [OF v] tct_gate_ok by blast
  then obtain s a' where strs: "get cl (u ''sub'') = PStr s" "get cl (u ''aud'') = PStr a'"
    by (auto simp: tct_signed_def tct_shaped_def is_str_iff)
  obtain a jkt where cnf: "parse_aid C s = Inr a" "thumbprint a = Inr jkt" "jkt_of cl = PStr jkt"
    using ctx(2) by (auto simp: check_cnf_binding_ok strs)
  have cnf': "parse_aid C (the_str (get cl (u ''sub''))) = Inr a" by (simp add: strs cnf)
  have aud': "self_aid \<noteq> PNone \<longrightarrow> get cl (u ''aud'') = self_aid" using aud by (auto simp: strs py_eq_PStr_left)
  have off': "offered \<noteq> PNone \<longrightarrow> (\<exists>xs. py_set offered = Inr xs \<and> py_subset (the_list (get cl (u ''grants''))) xs)"
    using off by (auto simp: bindE_ok)
  have ctx': "get cl (u ''iss'') \<noteq> get cl (u ''sub'')" "PStr ATTESTATION_MARKER \<notin> set (the_list (get cl (u ''grants'')))"
    using ctx(1) unfolding check_grant_context_ok by blast+
  show ?thesis
    by (intro exI [of _ cl] exI [of _ a] exI [of _ jkt] exI [of _ e] conjI)
      (rule signed ver aud' exp ctx' cnf' cnf(2,3) off' grants [symmetric])+
qed

lemma check_round2_pop_ok:
  assumes "check_round2_pop C inp payload sender = Inr w" and "is_str (get payload (u ''pop_signature''))" and "self_nonce_of inp = PStr s" and "s \<noteq> []"
  shows "\<exists>a sig nonce. parse_aid C (py_str sender) = Inr a \<and> b64url_decode s = Inr nonce \<and>
    b64url_decode (last (split_on 46 (the_str (get payload (u ''pop_signature''))))) = Inr sig \<and>
    verify_digest C (aid_key a) (sha256 nonce) sig = Inr True"
  using assms by (auto simp: check_round2_pop_def ok_simps)



section \<open>Sample messages\<close>

definition hello_payload :: dict where
  "hello_payload =
     [(u ''identity'', PDict oidc_identity), (u ''manifest'', PDict (sample_manifest (replicate 32 0))),
      (u ''pop_nonce'', PStr sample_sig), (u ''requested_grants'', PList [])]"

definition hello_input :: dict where
  "hello_input =
     [(u ''envelope'', PDict (sample_envelope ''mutual_hello'' hello_payload)), (u ''self_aid'', PStr peer_aid),
      (u ''self_trust_anchors'', PList [PStr (u ''https://idp'')]), (u ''resolved_issuer_keys'', oidc_keys)]"

lemma sample_hello_accepted: "verify_handshake_payload sample_crypto V hello_input REFERENCE_CLOCK = Inr ok_verdict"
proof -
  let ?env = "sample_envelope ''mutual_hello'' hello_payload"
  have "agent_id_of ?env = Inr (PStr sample_aid)" "pop_nonce_of ?env = Inr (PStr sample_sig)"
    by (simp_all add: agent_id_of_def pop_nonce_of_def subscript_def item_def sample_envelope_def hello_payload_def)
  note id = sample_oidc_in [OF this]
  have man: "verify_manifest sample_crypto [(u ''manifest'', PDict (sample_manifest (replicate 32 0))), (u ''now'', PInt REFERENCE_CLOCK)]
        REFERENCE_CLOCK = Inr (PDict [(u ''aid'', PStr (ed_aid (replicate 32 0)))])"
    by (rule sample_manifest_verified [where t = REFERENCE_CLOCK]) simp_all
  obtain b where b: "envelope_signing_input ?env = Inr b"
  proof -
    have "plain (PDict hello_payload)" "nesting (PDict hello_payload) \<le> 200" "nodes (PDict hello_payload) \<le> 100000"
      by (simp_all add: hello_payload_def oidc_identity_def sample_token_def sample_manifest_def sample_hint_def sample_pop_def
          REFERENCE_CLOCK_def ed_aid_def)
    then show thesis using sample_signing_input [of "''mutual_hello''" hello_payload] that by auto
  qed
  have pl: "get hello_payload (u ''manifest'') = PDict (sample_manifest (replicate 32 0))"
    "get hello_payload (u ''identity'') = PDict oidc_identity" "get oidc_identity (u ''type'') = PStr (u ''oidc'')"
    by (simp_all add: hello_payload_def oidc_identity_def)
  have boot: "verify_bootstrap sample_crypto V hello_input ?env REFERENCE_CLOCK = Inr ok_verdict"
    using man id b
    by (simp add: verify_bootstrap_def pl sample_manifest_get reject_unknown_fields_def HELLO_PAYLOAD_FIELDS_def require_members_def
        HELLO_REQUIRED_PAYLOAD_FIELDS_def hello_input_def string_list_def spiffe_bundles_def DEFAULT_ACCEPTED_IDENTITY_TYPES_def
        flip: sample_aid_def)
      (simp add: hello_payload_def)
  then show ?thesis
    by (simp add: verify_handshake_payload_def hello_input_def BOOTSTRAP_def)
qed

lemma bootstrap_sound_witness:
  "\<exists>env man. get hello_input (u ''envelope'') = PDict env \<and> manifest_wellformed man \<and> get man (u ''aid'') = PStr (sender_agent_id env)"
proof -
  have "\<not> (has hello_input (u ''peer_a'') \<and> has hello_input (u ''peer_b''))"
    "the_str (get (the_dict (get hello_input (u ''envelope''))) (u ''message_type'')) \<in> set BOOTSTRAP"
    by (simp_all add: hello_input_def BOOTSTRAP_def)
  from bootstrap_sound [OF sample_hello_accepted [of undefined] this] show ?thesis by blast
qed

definition commit_payload :: dict where
  "commit_payload = [(u ''tct'', sample_tct (replicate 32 0) (replicate 32 1) peer_aid [u ''read''])]"

definition commit_input :: dict where
  "commit_input = [(u ''envelope'', PDict (sample_envelope ''mutual_commit'' commit_payload)), (u ''self_aid'', PStr peer_aid)]"

lemma sample_commit_accepted:
  "verify_handshake_payload sample_crypto V commit_input REFERENCE_CLOCK = Inr (PDict [(u ''grants'', PList [PStr (u ''read'')])])"
proof -
  let ?cl = "tct_claims (replicate 32 0) (replicate 32 1) peer_aid [u ''read'']"
  let ?token = "sample_tct (replicate 32 0) (replicate 32 1) peer_aid [u ''read'']"
  have ok: "list_all scalar peer_aid" "list_all (list_all scalar) [u ''read'']" "length [u ''read''] \<le> 100"
    "length (replicate 32 (0 :: byte)) = 32" by simp_all
  note t = sample_tct_verified [OF ok, where l = "replicate 32 1"]
  have jws: "verify_tct_jws sample_crypto ?token (ed_aid (replicate 32 0)) tct_gate = Inr ?cl"
    using t(2) by (simp add: verify_tct_jws_def verify_jws_signed tct_gate_def)
  have "check_cnf_binding sample_crypto ?cl = Inr ()" "check_grant_context ''TCT_SIGNATURE_INVALID'' ?cl = Inr ()"
    unfolding check_cnf_binding_ok check_grant_context_ok
    using sample_aids_differ by (simp_all add: tct_claims_def jkt_of_def ATTESTATION_MARKER_def sample_aid_def peer_aid_def)
  then have tct: "verify_commit_tct sample_crypto ?token (PStr peer_aid) PNone REFERENCE_CLOCK = Inr (PList [PStr (u ''read'')])"
    using t(1) jws by (simp add: verify_commit_tct_def) (simp add: tct_claims_def)
  have "commit_sender commit_input = Inr (PStr sample_aid)"
    by (simp add: commit_sender_def commit_input_def) (simp add: sample_envelope_def)
  then have "verify_commit sample_crypto commit_input (PDict commit_payload) (PStr peer_aid) REFERENCE_CLOCK = Inr (PList [PStr (u ''read'')])"
    using tct by (simp add: verify_commit_def commit_payload_def check_round2_pop_def reject_unknown_fields_def COMMIT_PAYLOAD_FIELDS_def)
      (simp add: commit_input_def)
  then show ?thesis
    by (simp add: verify_handshake_payload_def commit_input_def BOOTSTRAP_def COMMIT_def)
qed


definition resigned_commit :: dict where
  "resigned_commit = (u ''signature'', PStr (u ''ed25519.'' @ b64url_encode (replicate 64 1))) #
     without (u ''signature'') (sample_envelope ''mutual_commit'' commit_payload)"


end
