(* ===== verification/Verify.thy ===== *)
theory Verify
  imports Delegation Session_Bundle Handshake "HOL-Library.Product_Lexorder"
begin

text \<open>
  \<open>aitp_verifier/verify.py\<close>: the operations by name, and the gate on the top-level arguments
  of a request that the adapter applies before it calls one.
\<close>

section \<open>The operations\<close>

type_synonym verifier = "dict \<Rightarrow> int \<Rightarrow> pyval res"

definition OPERATIONS :: "crypto \<Rightarrow> svid_api \<Rightarrow> (ustr \<times> verifier) list" where
  "OPERATIONS C V =
     [(u ''verify_envelope'', verify_envelope C),
      (u ''verify_manifest'', verify_manifest C),
      (u ''verify_tct'', verify_tct C),
      (u ''verify_tct_as_issuer'', verify_tct_as_issuer C),
      (u ''verify_attestation'', verify_attestation C),
      (u ''verify_grant_voucher'', verify_grant_voucher C),
      (u ''verify_delegation_token'', verify_delegation_token C),
      (u ''verify_revocation_snapshot'', \<lambda>inp now. verify_revocation_snapshot C inp (Some now)),
      (u ''verify_handshake_payload'', verify_handshake_payload C V),
      (u ''verify_session_bundle'', \<lambda>inp now. verify_session_bundle C inp (Some now))]"

definition operation_names :: "ustr list" where
  "operation_names =
     map u [''verify_envelope'', ''verify_manifest'', ''verify_tct'', ''verify_tct_as_issuer'', ''verify_attestation'',
       ''verify_grant_voucher'', ''verify_delegation_token'', ''verify_revocation_snapshot'', ''verify_handshake_payload'',
       ''verify_session_bundle'']"

definition supported :: "ustr \<Rightarrow> bool" where
  "supported operation \<longleftrightarrow> operation \<in> set operation_names"

lemma operation_names: "map fst (OPERATIONS C V) = operation_names"
  by (simp add: OPERATIONS_def operation_names_def)

section \<open>Required arguments\<close>

text \<open>
  A set of required names with their JSON types; \<open>None\<close> leaves the type to the operation.
\<close>

type_synonym argument_set = "(ustr \<times> string option) list"

definition argument :: "string \<Rightarrow> string \<Rightarrow> ustr \<times> string option" where
  "argument name t = (u name, Some t)"

definition REQUIRED_ARGUMENTS :: "(ustr \<times> argument_set list) list" where
  "REQUIRED_ARGUMENTS =
     [(u ''verify_envelope'',
         [[argument ''envelope'' ''object''],
          [argument ''active_tct'' ''string'', argument ''requested_capability'' ''string''],
          [argument ''manifest_fetch'' ''object''], [argument ''needed_key_for'' ''string'']]),
      (u ''verify_manifest'', [[argument ''manifest'' ''object'']]),
      (u ''verify_tct'', [[argument ''tct_token'' ''string'']]),
      (u ''verify_tct_as_issuer'', [[argument ''tct_token'' ''string'', argument ''self_aid'' ''string'']]),
      (u ''verify_attestation'', [[argument ''tct_token'' ''string'', argument ''expected_ext_key'' ''string'']]),
      (u ''verify_grant_voucher'', [[argument ''voucher_token'' ''string'']]),
      (u ''verify_delegation_token'', [[(u ''delegation_token'', None)], [argument ''delegation'' ''object'']]),
      (u ''verify_revocation_snapshot'', [[argument ''snapshot'' ''object'']]),
      (u ''verify_handshake_payload'',
         [[argument ''envelope'' ''object''], [argument ''peer_a'' ''object'', argument ''peer_b'' ''object'']]),
      (u ''verify_session_bundle'', [[argument ''self_aid'' ''string'', argument ''session_bundle'' ''object'']])]"

text \<open>\<open>min(range(len(sets)), key=...)\<close>: the first of the sets whose pair of numbers is least in
  lexicographic order (\<open>Product_Lexorder\<close>)\<close>

fun first_least :: "('a \<Rightarrow> 'b :: linorder) \<Rightarrow> 'a \<Rightarrow> 'a list \<Rightarrow> 'a" where
  "first_least f x [] = x"
| "first_least f x (y # ys) = first_least f (if f y < f x then y else x) ys"

definition missing_names :: "dict \<Rightarrow> argument_set \<Rightarrow> ustr list" where
  "missing_names params names = filter (\<lambda>a. \<not> has params a) (map fst names)"

definition missing_argument :: "ustr \<Rightarrow> dict \<Rightarrow> ustr option" where
  "missing_argument operation params =
     (let sets = (case map_of REQUIRED_ARGUMENTS operation of Some sets \<Rightarrow> sets | None \<Rightarrow> [[]]);
          missing = map (\<lambda>names. (missing_names params names, length names)) sets in
      if list_ex (\<lambda>m. fst m = []) missing then None
      else
        (let best = first_least (\<lambda>m. (int (length (fst m)) - int (snd m), int (length (fst m)))) (hd missing) (tl missing)
         in Some (hd (fst best))))"

fun json_type :: "pyval \<Rightarrow> string" where
  "json_type (PDict d) = ''object''"
| "json_type (PList xs) = ''array''"
| "json_type (PStr s) = ''string''"
| "json_type (PBool b) = ''boolean''"
| "json_type (PInt i) = ''number''"
| "json_type (PFloat f) = ''number''"
| "json_type PNone = ''null''"

text \<open>The name, the declared type and the type found; the source words them as a message.\<close>

definition invalid_argument :: "ustr \<Rightarrow> dict \<Rightarrow> (ustr \<times> string \<times> string) option" where
  "invalid_argument operation params =
     (let arguments = concat (case map_of REQUIRED_ARGUMENTS operation of Some sets \<Rightarrow> sets | None \<Rightarrow> []);
          wrong = filter (\<lambda>(name, expected). has params name \<and> expected \<noteq> None \<and> expected \<noteq> Some (json_type (get params name))) arguments in
      case wrong of
        [] \<Rightarrow> None
      | (name, expected) # _ \<Rightarrow> Some (name, the expected, json_type (get params name)))"

section \<open>What the gate guarantees\<close>

definition argument_sets :: "ustr \<Rightarrow> argument_set list" where
  "argument_sets operation = (case map_of REQUIRED_ARGUMENTS operation of Some sets \<Rightarrow> sets | None \<Rightarrow> [])"

lemma first_least_mem: "first_least f x ys \<in> set (x # ys)"
  by (induction ys arbitrary: x) (auto split: if_splits)

lemma argument_sets_nonempty: "supported operation \<Longrightarrow> map_of REQUIRED_ARGUMENTS operation = Some (argument_sets operation) \<and> argument_sets operation \<noteq> []"
  by (auto simp: supported_def operation_names_def argument_sets_def REQUIRED_ARGUMENTS_def)

lemma missing_argument_None:
  assumes "supported operation"
  shows "missing_argument operation params = None \<longleftrightarrow>
    (\<exists>names \<in> set (argument_sets operation). \<forall>a \<in> set names. has params (fst a))"
  using argument_sets_nonempty [OF assms]
  by (auto simp: missing_argument_def Let_def list_ex_iff missing_names_def filter_empty_conv)

lemma missing_argument_Some:
  assumes "supported operation" and "missing_argument operation params = Some a"
  shows "\<not> has params a \<and> (\<exists>names \<in> set (argument_sets operation). a \<in> fst ` set names)"
proof -
  let ?ms = "map (\<lambda>names. (missing_names params names, length names)) (argument_sets operation)"
  let ?best = "first_least (\<lambda>m. (int (length (fst m)) - int (snd m), int (length (fst m)))) (hd ?ms) (tl ?ms)"
  have sets: "map_of REQUIRED_ARGUMENTS operation = Some (argument_sets operation)" "argument_sets operation \<noteq> []"
    using argument_sets_nonempty [OF assms(1)] by simp_all
  then have all: "\<forall>m \<in> set ?ms. fst m \<noteq> []" and a: "a = hd (fst ?best)"
    using assms(2) by (auto simp: missing_argument_def Let_def list_ex_iff split: if_splits)
  have "?best \<in> set (hd ?ms # tl ?ms)" by (rule first_least_mem)
  then have best: "?best \<in> set ?ms" using sets(2) by (simp only: hd_Cons_tl list.map_disc_iff not_False_eq_True)
  then have "fst ?best \<noteq> []" using all by (rule bspec [rotated])
  then have "a \<in> set (fst ?best)" unfolding a by (rule hd_in_set)
  moreover obtain names where names: "names \<in> set (argument_sets operation)" and b: "?best = (missing_names params names, length names)"
    using best by auto
  ultimately have "a \<in> set (missing_names params names)" unfolding b by simp
  then have "\<not> has params a \<and> a \<in> fst ` set names" by (simp add: missing_names_def)
  then show ?thesis using names by blast
qed

lemma invalid_argument_None:
  assumes "supported operation"
  shows "invalid_argument operation params = None \<longleftrightarrow>
    (\<forall>names \<in> set (argument_sets operation). \<forall>a \<in> set names.
       has params (fst a) \<longrightarrow> snd a = None \<or> snd a = Some (json_type (get params (fst a))))"
proof -
  let ?wrong = "filter (\<lambda>(name, expected). has params name \<and> expected \<noteq> None \<and> expected \<noteq> Some (json_type (get params name)))
    (concat (argument_sets operation))"
  have "invalid_argument operation params = None \<longleftrightarrow> ?wrong = []"
    using argument_sets_nonempty [OF assms] by (simp add: invalid_argument_def Let_def split: list.split prod.split)
  also have "\<dots> \<longleftrightarrow> (\<forall>a \<in> set (concat (argument_sets operation)).
      has params (fst a) \<longrightarrow> snd a = None \<or> snd a = Some (json_type (get params (fst a))))"
    unfolding filter_empty_conv by (intro ball_cong) (auto split: prod.splits)
  finally show ?thesis by simp
qed

text \<open>
  C24. The argument gate. A request passes exactly when one of the operation's argument sets is
  complete and every declared argument it carries has the declared JSON type; when it does not, the
  name reported is an argument of the operation that the request lacks.
\<close>

theorem argument_gate:
  assumes "supported operation"
  shows "(missing_argument operation params = None \<and> invalid_argument operation params = None \<longleftrightarrow>
      (\<exists>names \<in> set (argument_sets operation). \<forall>a \<in> set names. has params (fst a)) \<and>
      (\<forall>names \<in> set (argument_sets operation). \<forall>a \<in> set names.
         has params (fst a) \<longrightarrow> snd a = None \<or> snd a = Some (json_type (get params (fst a))))) \<and>
    (\<forall>a. missing_argument operation params = Some a \<longrightarrow>
       \<not> has params a \<and> (\<exists>names \<in> set (argument_sets operation). a \<in> fst ` set names))"
  using missing_argument_None [OF assms] missing_argument_Some [OF assms] invalid_argument_None [OF assms] by blast

lemma argument_gate_witness:
  "missing_argument (u ''verify_tct_as_issuer'') [(u ''tct_token'', PStr [])] = Some (u ''self_aid'') \<and>
   \<not> has [(u ''tct_token'', PStr [])] (u ''self_aid'')"
proof -
  have s: "supported (u ''verify_tct_as_issuer'')" by (simp add: supported_def operation_names_def)
  have "missing_argument (u ''verify_tct_as_issuer'') [(u ''tct_token'', PStr [])] = Some (u ''self_aid'')" by code_simp
  then show ?thesis using argument_gate [OF s, of "[(u ''tct_token'', PStr [])]"] by blast
qed

end
