(* ===== verification/Signing.thy ===== *)
theory Signing
  imports Samples
begin

text \<open>
  The signing side: \<open>PrivateKey\<close> of \<open>aitp_verifier/crypto.py\<close>, \<open>encode_jws\<close> of
  \<open>aitp_verifier/jws.py\<close>, and the compact form of Python's \<open>json.dumps\<close>, which writes the headers
  and some payloads. Only the conformance tools sign; the verifiers never do.
\<close>

section \<open>Private keys\<close>

text \<open>
  The private key object of the \<open>cryptography\<close> package is a parameter: its three signing calls
  (Ed25519, ECDSA with SHA-256, ECDSA over a prehashed digest; the last two yield DER), the public
  key it belongs to, and that key's raw bytes.
\<close>

record key_ops =
  ko_sign :: "bytes \<Rightarrow> bytes"
  ko_sign_sha256 :: "bytes \<Rightarrow> bytes"
  ko_sign_prehashed :: "bytes \<Rightarrow> bytes"
  ko_public :: key_object
  ko_raw_public :: bytes

record private_key =
  sk_alg :: ustr
  sk_key :: key_ops

definition public_key_of :: "private_key \<Rightarrow> public_key" where
  "public_key_of k = \<lparr>pk_alg = sk_alg k, pk_key = ko_public (sk_key k)\<rparr>"

definition raw_public :: "private_key \<Rightarrow> bytes" where
  "raw_public k = ko_raw_public (sk_key k)"

definition sign_digest :: "crypto \<Rightarrow> private_key \<Rightarrow> bytes \<Rightarrow> bytes" where
  "sign_digest C k digest =
     (if sk_alg k = ALG_ED25519 then ko_sign (sk_key k) digest
      else p256_der_to_raw C (ko_sign_prehashed (sk_key k) digest))"

definition sign_jose :: "crypto \<Rightarrow> private_key \<Rightarrow> bytes \<Rightarrow> bytes" where
  "sign_jose C k inp =
     (if sk_alg k = ALG_ED25519 then ko_sign (sk_key k) inp
      else p256_der_to_raw C (ko_sign_sha256 (sk_key k) inp))"

section \<open>\<open>json.dumps\<close> with separators \<open>(",", ":")\<close>\<close>

definition u_escape :: "nat \<Rightarrow> ustr" where
  "u_escape n =
     [92, 117, hex_digit (n div 4096), hex_digit (n div 256 mod 16), hex_digit (n div 16 mod 16), hex_digit (n mod 16)]"

text \<open>\<open>ensure_ascii\<close>: everything outside the printable ASCII range is escaped, in UTF-16 units.\<close>

definition ascii_char :: "nat \<Rightarrow> ustr" where
  "ascii_char c =
     (case named_escape c of
        Some e \<Rightarrow> e
      | None \<Rightarrow> if 32 \<le> c \<and> c \<le> 126 then [c] else concat (map u_escape (utf16_char c)))"

definition ascii_string :: "ustr \<Rightarrow> ustr" where
  "ascii_string s = [34] @ concat (map ascii_char s) @ [34]"

definition json_float :: "pyfloat \<Rightarrow> ustr" where
  "json_float f =
     (case f of
        FNan \<Rightarrow> u ''NaN''
      | FInf s \<Rightarrow> (if s then u ''-Infinity'' else u ''Infinity'')
      | FFin s m e \<Rightarrow> str_float f)"

text \<open>Integers are taken to have at most the 4300 digits that \<open>str(int)\<close> allows.\<close>

fun json_dumps :: "pyval \<Rightarrow> ustr" where
  "json_dumps PNone = u ''null''"
| "json_dumps (PBool b) = (if b then u ''true'' else u ''false'')"
| "json_dumps (PInt i) = str_int i"
| "json_dumps (PFloat f) = json_float f"
| "json_dumps (PStr s) = ascii_string s"
| "json_dumps (PList xs) = [91] @ join_with [44] (map json_dumps xs) @ [93]"
| "json_dumps (PDict d) = [123] @ join_with [44] (map (\<lambda>p. ascii_string (fst p) @ [58] @ json_dumps (snd p)) d) @ [125]"

section \<open>Compact JWS\<close>

definition encode_jws :: "crypto \<Rightarrow> ustr \<Rightarrow> dict \<Rightarrow> private_key \<Rightarrow> ustr \<Rightarrow> ustr res" where
  "encode_jws C typ cl k alg =
     bindE (ascii_encode (json_dumps (PDict [(u ''alg'', PStr alg), (u ''typ'', PStr typ)]))) (\<lambda>header_bytes.
     bindE (canonicalize (PDict cl)) (\<lambda>payload_bytes.
     let inp = b64url_encode header_bytes @ u ''.'' @ b64url_encode payload_bytes in
     bindE (ascii_encode inp) (\<lambda>b. Inr (inp @ u ''.'' @ b64url_encode (sign_jose C k b)))))"

section \<open>Honest keys\<close>

text \<open>
  What the package documents of a key it made: each signing call yields a signature that the
  matching verification accepts; Ed25519 signatures have 64 bytes, ECDSA integers are in range, and
  \<open>(r, n - s)\<close> is a signature of the same message.
\<close>

definition ecdsa_pair :: "crypto \<Rightarrow> (bytes \<Rightarrow> bool) \<Rightarrow> bytes \<Rightarrow> bool" where
  "ecdsa_pair C accepts der \<longleftrightarrow>
     (case dss_decode C der of (r, s) \<Rightarrow>
        0 < r \<and> r < P256_N \<and> 0 < s \<and> s < P256_N \<and> accepts (dss_encode C r s) \<and> accepts (dss_encode C r (P256_N - s)))"

definition honest_signer :: "crypto \<Rightarrow> private_key \<Rightarrow> bool" where
  "honest_signer C k \<longleftrightarrow>
     (case ko_public (sk_key k) of
        Ed_key p \<Rightarrow> sk_alg k = ALG_ED25519 \<and>
          (\<forall>m. ed_verify C p (ko_sign (sk_key k) m) m \<and> length (ko_sign (sk_key k) m) = 64)
      | P256_key q \<Rightarrow> sk_alg k = ALG_P256 \<and>
          (\<forall>m. ecdsa_pair C (\<lambda>d. p256_verify C q d m) (ko_sign_sha256 (sk_key k) m) \<and>
             ecdsa_pair C (\<lambda>d. p256_verify_prehashed C q d m) (ko_sign_prehashed (sk_key k) m))
      | Rsa_key e n \<Rightarrow> False)"

lemma ecdsa_pair_accepted:
  "ecdsa_pair C accepts der \<Longrightarrow> \<exists>d. p256_raw_to_der C (p256_der_to_raw C der) False = Inr d \<and> accepts d"
  using p256_signer_form_accepted [of C der] by (auto simp: ecdsa_pair_def min_def split: prod.splits)

lemma sign_jose_verifies: "honest_signer C k \<Longrightarrow> verify_jose C (public_key_of k) m (sign_jose C k m) False = Inr True"
  unfolding honest_signer_def
  by (auto simp: verify_jose_def sign_jose_def public_key_of_def split: key_object.splits
      dest!: spec [of _ m] ecdsa_pair_accepted [of C "\<lambda>d. p256_verify C _ d m"])

lemma sign_digest_verifies: "honest_signer C k \<Longrightarrow> verify_digest C (public_key_of k) m (sign_digest C k m) = Inr True"
  unfolding honest_signer_def
  by (auto simp: verify_digest_def sign_digest_def public_key_of_def split: key_object.splits
      dest!: spec [of _ m] ecdsa_pair_accepted [of C "\<lambda>d. p256_verify_prehashed C _ d m"])

section \<open>What is signed verifies\<close>

definition simple_text :: "ustr \<Rightarrow> bool" where
  "simple_text s \<longleftrightarrow> list_all (\<lambda>c. 32 \<le> c \<and> c \<le> 126 \<and> c \<noteq> 34 \<and> c \<noteq> 92) s"

lemma simple_text_plain:
  assumes "simple_text s"
  shows "ascii_string s = format_string s" "list_all (\<lambda>c. c < 128) (format_string s)" "list_all scalar s" "format_string s = 34 # s @ [34]"
proof -
  have "ascii_char c = [c] \<and> format_char c = [c]" if "c \<in> set s" for c
    using assms that by (auto simp: simple_text_def list_all_iff ascii_char_def format_char_def named_escape_def)
  then have m: "map ascii_char s = map (\<lambda>c. [c]) s" "map format_char s = map (\<lambda>c. [c]) s" by simp_all
  have "concat (map (\<lambda>c. [c]) s) = s" by (induction s) simp_all
  then show f: "format_string s = 34 # s @ [34]" and "ascii_string s = format_string s"
    by (simp_all add: ascii_string_def format_string_def m)
  show "list_all (\<lambda>c. c < 128) (format_string s)" using assms by (auto simp: f simple_text_def list_all_iff)
  show "list_all scalar s" using assms by (intro ascii_scalars) (auto simp: simple_text_def list_all_iff)
qed

lemma sorted_alg_typ: "sorted_members [(u ''alg'', x), (u ''typ'', y)] = Inr [(u ''alg'', x), (u ''typ'', y)]"
proof -
  have "sorted (map utf16_key [u ''alg'', u ''typ''])" by code_simp
  then have "sort_key (\<lambda>p. utf16_key (fst p)) [(u ''alg'', x), (u ''typ'', y)] = [(u ''alg'', x), (u ''typ'', y)]"
    by (intro sort_key_id_if_sorted) simp
  moreover have "list_all scalar (u ''alg'')" "list_all scalar (u ''typ'')" by (simp_all add: u_def scalar_def surrogate_def)
  ultimately show ?thesis by (simp add: sorted_members_def utf16_units_def)
qed

lemma utf8_ascii: "list_all (\<lambda>c. c < 128) s \<Longrightarrow> utf8_encode s = ascii_encode s"
proof -
  assume a: "list_all (\<lambda>c. c < 128) s"
  then have "concat (map utf8_char s) = s" by (induction s) (auto simp: utf8_char_def)
  then show ?thesis using a ascii_scalars [OF a] by (simp add: utf8_encode_def ascii_encode_def)
qed

lemma signature_lengths:
  assumes "honest_signer C k"
  shows sign_jose_length: "length (sign_jose C k m) = 64" and sign_digest_length: "length (sign_digest C k m) = 64"
  using assms by (auto simp: honest_signer_def sign_jose_def sign_digest_def p256_der_to_raw_def split: key_object.splits prod.splits)

lemma header_canonical:
  assumes "simple_text a" and "simple_text t"
  shows "ascii_encode (json_dumps (PDict [(u ''alg'', PStr a), (u ''typ'', PStr t)])) =
    canonicalize (PDict [(u ''alg'', PStr a), (u ''typ'', PStr t)])"
proof -
  have s: "simple_text (u ''alg'')" "simple_text (u ''typ'')" by (simp_all add: simple_text_def u_def)
  note p = simple_text_plain [OF assms(1)] simple_text_plain [OF assms(2)] simple_text_plain [OF s(1)] simple_text_plain [OF s(2)]
  let ?t = "[123] @ format_string (u ''alg'') @ [58] @ format_string a @ [44] @ format_string (u ''typ'') @ [58] @ format_string t @ [125]"
  have j: "json_dumps (PDict [(u ''alg'', PStr a), (u ''typ'', PStr t)]) = ?t" by (simp add: p(1,5,9,13))
  have sep: "u '','' = [44]" "u '':'' = [58]" by (simp_all add: u_def)
  have "dumps (PDict [(u ''alg'', PStr a), (u ''typ'', PStr t)]) = Inr ?t"
    by (simp add: dumps_def serialize.simps sorted_alg_typ visit_def max_nodes_visited_def max_depth_def sep)
  moreover have a: "list_all (\<lambda>c. c < 128) ?t" using p by (simp only: list_all_append) simp
  ultimately show ?thesis unfolding canonicalize_def j by (simp only: bindE_Inr utf8_ascii)
qed

lemma jose_alg_simple: "jose_alg a = Inr j \<Longrightarrow> simple_text j"
  by (auto simp: jose_alg_def jose_alg_of_def ok_simps simple_text_def u_def split: if_splits)

text \<open>
  Sign and verify round trip: for an honest key that is the key of an AID, the compact JWS that
  \<open>encode_jws\<close> writes under the AID's algorithm is a token signed under that AID, of the type asked
  for and with the claims given, in canonical member order.
\<close>

lemma encode_jws_signed:
  assumes "parse_aid C iss = Inr a" and "jose_alg a = Inr alg" and "aid_key a = public_key_of k" and "honest_signer C k"
    and "simple_text typ" and "plain (PDict cl)" and "encode_jws C typ cl k alg = Inr token"
  shows "jws_signed C (PStr token) iss typ (the_dict (canon (PDict cl)))"
proof -
  let ?h = "[(u ''alg'', PStr alg), (u ''typ'', PStr typ)]"
  have simple: "simple_text alg" using assms(2) by (rule jose_alg_simple)
  from assms(7) obtain hb pb b where hb: "ascii_encode (json_dumps (PDict ?h)) = Inr hb" and pb: "canonicalize (PDict cl) = Inr pb"
    and b: "ascii_encode (b64url_encode hb @ u ''.'' @ b64url_encode pb) = Inr b"
    and token: "token = (b64url_encode hb @ u ''.'' @ b64url_encode pb) @ u ''.'' @ b64url_encode (sign_jose C k b)"
    unfolding encode_jws_def Let_def by (auto simp: ok_simps)
  have ch: "canonicalize (PDict ?h) = Inr hb" using header_canonical [OF simple assms(5)] hb by simp
  have "plain (PDict ?h)" using simple_text_plain(3) [OF simple] simple_text_plain(3) [OF assms(5)]
    by simp
  then have lh: "loads_bytes hb = Inr (canon (PDict ?h))" by (rule canonicalize_loads [OF ch])
  have "sorted (map utf16_key [u ''alg'', u ''typ''])" by code_simp
  then have h: "canon (PDict ?h) = PDict ?h" by (subst canon_sorted) simp_all
  have lp: "loads_bytes pb = Inr (canon (PDict cl))" by (rule canonicalize_loads [OF pb assms(6)])
  have cl: "canon (PDict cl) = PDict (the_dict (canon (PDict cl)))" by (simp add: canon_PDict del: canon.simps)
  have sig: "sign_jose C k b \<noteq> []" using sign_jose_length [OF assms(4), of b] by auto
  have ne: "b64url_encode hb \<noteq> []" "b64url_encode pb \<noteq> []" "b64url_encode (sign_jose C k b) \<noteq> []"
    using canonicalize_dict_head [OF ch] canonicalize_dict_head [OF pb] sig by (auto intro!: b64_nonempty)
  have "parse_compact (PStr token) [] =
      Inr \<lparr>header = ?h, claims = the_dict (canon (PDict cl)), signing_input = b, signature = sign_jose C k b\<rparr>"
    unfolding parse_compact_ok token using ne lh h lp cl b
    by (intro exI [of _ "b64url_encode hb"] exI [of _ "b64url_encode pb"] exI [of _ "b64url_encode (sign_jose C k b)"]
        exI [of _ hb] exI [of _ pb]) (simp add: b64url_decode_encode)
  then show ?thesis
    unfolding jws_signed_def using assms(1,2) sign_jose_verifies [OF assms(4)]
    by (intro exI conjI) (auto simp: assms(3))
qed

section \<open>A sample key\<close>

definition sample_signer :: "bytes \<Rightarrow> private_key" where
  "sample_signer k =
     \<lparr>sk_alg = ALG_ED25519,
      sk_key = \<lparr>ko_sign = \<lambda>m. replicate 64 0, ko_sign_sha256 = \<lambda>m. [], ko_sign_prehashed = \<lambda>m. [],
        ko_public = Ed_key k, ko_raw_public = k\<rparr>\<rparr>"

lemma sample_signer_honest [simp]: "honest_signer sample_crypto (sample_signer k)"
  by (simp add: honest_signer_def sample_signer_def sample_crypto_def)

lemma sample_signer_public [simp]: "public_key_of (sample_signer k) = aid_key (sample_key k)"
  by (simp add: public_key_of_def sample_signer_def sample_key_def)

lemma encode_jws_total:
  assumes "simple_text typ" and "simple_text alg" and "plain (PDict cl)" "nesting (PDict cl) \<le> max_depth" "nodes (PDict cl) \<le> max_nodes_visited"
  shows "\<exists>token. encode_jws C typ cl k alg = Inr token"
proof -
  have "plain (PDict [(u ''alg'', PStr alg), (u ''typ'', PStr typ)])"
    using simple_text_plain(3) [OF assms(1)] simple_text_plain(3) [OF assms(2)] by simp
  then obtain hb where "canonicalize (PDict [(u ''alg'', PStr alg), (u ''typ'', PStr typ)]) = Inr hb"
    using canonicalize_plain by (fastforce simp: max_depth_def max_nodes_visited_def)
  moreover obtain pb where "canonicalize (PDict cl) = Inr pb" using canonicalize_plain [OF assms(3-5)] by blast
  moreover obtain b where "ascii_encode (b64url_encode hb @ u ''.'' @ b64url_encode pb) = Inr b"
    using ascii_encode_total [of "b64url_encode hb @ u ''.'' @ b64url_encode pb"] by (auto simp: b64_text_ascii u_def)
  ultimately show ?thesis using header_canonical [OF assms(2,1)] by (simp add: encode_jws_def)
qed

end
