(* ===== verification/Mint_Tokens.thy ===== *)
theory Mint_Tokens
  imports Signing Delegation
begin

text \<open>
  The placeholder language of the conformance fixtures, first half of
  \<open>aitp_verifier/minter.py\<close>: times, compact-JWS tokens (nested claims included) and the
  signatures over canonical objects. The functions of the source that update a dictionary in place
  return the updated dictionary here.
\<close>

section \<open>Dictionaries and keys\<close>

text \<open>\<open>d[k] = v\<close>: an existing member keeps its place.\<close>

fun put :: "dict \<Rightarrow> ustr \<Rightarrow> pyval \<Rightarrow> dict" where
  "put [] k v = [(k, v)]"
| "put ((k', w) # d) k v = (if k' = k then (k, v) # d else (k', w) # put d k v)"

lemma get_or_put [simp]: "get_or w (put d k v) k' = (if k' = k then v else get_or w d k')"
  by (induction d) auto

lemma has_put [simp]: "has (put d k v) k' \<longleftrightarrow> k' = k \<or> has d k'"
  by (induction d) (auto split: if_splits)

text \<open>The signing keys, by AID or by vector id; \<open>keys[v]\<close>.\<close>

type_synonym kat_keys = "ustr \<rightharpoonup> private_key"

definition has_key :: "kat_keys \<Rightarrow> pyval \<Rightarrow> bool res" where
  "has_key K v = ensure (hashable v) (Inl TypeError) (Inr (is_str v \<and> K (the_str v) \<noteq> None))"

definition key_of :: "kat_keys \<Rightarrow> pyval \<Rightarrow> private_key res" where
  "key_of K v =
     bindE (has_key K v) (\<lambda>known. ensure known (Inl KeyError) (Inr (the (K (the_str v)))))"

definition starts_with :: "string \<Rightarrow> pyval \<Rightarrow> bool" where
  "starts_with p v \<longleftrightarrow> is_str v \<and> strip_prefix (u p) (the_str v) \<noteq> None"

text \<open>\<open>k.endswith("_claims")\<close>, and the removal of such members\<close>

definition claims_member :: "ustr \<Rightarrow> bool" where
  "claims_member k \<longleftrightarrow> strip_prefix (rev (u ''_claims'')) (rev k) \<noteq> None"

definition strip_claims :: "dict \<Rightarrow> dict" where
  "strip_claims d = filter (\<lambda>p. \<not> claims_member (fst p)) d"

section \<open>Times\<close>

text \<open>
  \<open>_TIME_RE\<close>: \<open>__NOW__\<close>, \<open>__NOW_MINUS_<digits>__\<close> or \<open>__NOW_PLUS_<digits>__\<close>, with the final
  newline that \<open>$\<close> allows. Digits are ASCII.
\<close>

definition drop_newline :: "ustr \<Rightarrow> ustr" where
  "drop_newline s = (if s \<noteq> [] \<and> last s = 10 then butlast s else s)"

definition time_delta :: "ustr \<Rightarrow> int option" where
  "time_delta s =
     (let ds = takeWhile is_digit s in
      if ds \<noteq> [] \<and> dropWhile is_digit s = u ''__'' then Some (int (parse_nat ds)) else None)"

definition resolve_time :: "int \<Rightarrow> ustr \<Rightarrow> pyval" where
  "resolve_time now s =
     (case strip_prefix (u ''__NOW'') s of
        None \<Rightarrow> PStr s
      | Some r0 \<Rightarrow>
          (let r = drop_newline r0 in
           if r = u ''__'' then PInt now
           else
             case (strip_prefix (u ''_MINUS_'') r, strip_prefix (u ''_PLUS_'') r) of
               (Some t, _) \<Rightarrow> (case time_delta t of None \<Rightarrow> PStr s | Some n \<Rightarrow> PInt (now - n))
             | (None, Some t) \<Rightarrow> (case time_delta t of None \<Rightarrow> PStr s | Some n \<Rightarrow> PInt (now + n))
             | (None, None) \<Rightarrow> PStr s))"

fun resolve_times :: "int \<Rightarrow> pyval \<Rightarrow> pyval" where
  "resolve_times now (PStr s) = resolve_time now s"
| "resolve_times now (PList xs) = PList (map (resolve_times now) xs)"
| "resolve_times now (PDict d) = PDict (map (\<lambda>p. (fst p, resolve_times now (snd p))) d)"
| "resolve_times now v = v"

section \<open>Tokens\<close>

datatype token_variant = Normal | Tamper | Alg_none | Wrong_alg | Any_jws

definition JWS_TOKENS :: "(ustr \<times> ustr \<times> token_variant) list" where
  "JWS_TOKENS =
     [(u ''__JWS_TCT__'', u ''aitp-tct+jwt'', Normal), (u ''__JWS_GRANT_VOUCHER__'', u ''aitp-grant+jwt'', Normal),
      (u ''__JWS_DELEGATION__'', u ''aitp-delegation+jwt'', Normal), (u ''__JWS_TCT_TAMPERED_SIG__'', u ''aitp-tct+jwt'', Tamper),
      (u ''__JWS_DELEGATION_TAMPERED_SIG__'', u ''aitp-delegation+jwt'', Tamper),
      (u ''__JWS_VOUCHER_TAMPERED_SIG__'', u ''aitp-grant+jwt'', Tamper), (u ''__JWS_TCT_ALG_NONE__'', u ''aitp-tct+jwt'', Alg_none),
      (u ''__JWS_TCT_WRONG_ALG__'', u ''aitp-tct+jwt'', Wrong_alg), (u ''__ANY_JWS__'', u ''aitp-delegation+jwt'', Any_jws)]"

text \<open>\<open>isinstance(v, str) and v in _JWS_TOKENS\<close>\<close>

definition jws_placeholder :: "pyval \<Rightarrow> bool" where
  "jws_placeholder v \<longleftrightarrow> is_str v \<and> map_of JWS_TOKENS (the_str v) \<noteq> None"

text \<open>\<open>raw[-1] ^= 0x01\<close>\<close>

definition flip_last :: "bytes \<Rightarrow> bytes res" where
  "flip_last raw = ensure (raw \<noteq> []) (Inl IndexError) (Inr (butlast raw @ [last raw XOR 1]))"

definition tamper_last_sig_byte :: "ustr \<Rightarrow> ustr res" where
  "tamper_last_sig_byte token =
     (case split_on 46 token of
        [h, p, s] \<Rightarrow>
          bindE (b64url_decode s) (\<lambda>raw. bindE (flip_last raw) (\<lambda>raw.
            Inr (h @ u ''.'' @ p @ u ''.'' @ b64url_encode raw)))
      | _ \<Rightarrow> Inl ValueError)"

text \<open>A header written as text, for the variants \<open>encode_jws\<close> does not make\<close>

definition header_segment :: "string \<Rightarrow> ustr \<Rightarrow> ustr res" where
  "header_segment alg typ =
     bindE (utf8_encode (jtext ''{`alg`:`'' @ u alg @ jtext ''`,`typ`:`'' @ typ @ jtext ''`}'')) (\<lambda>b. Inr (b64url_encode b))"

definition unsigned_token :: "dict \<Rightarrow> ustr \<Rightarrow> ustr res" where
  "unsigned_token cl typ =
     bindE (header_segment ''none'' typ) (\<lambda>h.
     bindE (canonicalize (PDict cl)) (\<lambda>b.
       Inr (h @ u ''.'' @ b64url_encode b @ u ''.'' @ b64url_encode (replicate 64 0))))"

definition wrong_alg_token :: "crypto \<Rightarrow> private_key \<Rightarrow> dict \<Rightarrow> ustr \<Rightarrow> ustr res" where
  "wrong_alg_token C k cl typ =
     bindE (header_segment ''ES256'' typ) (\<lambda>h.
     bindE (canonicalize (PDict cl)) (\<lambda>b.
     let inp = h @ u ''.'' @ b64url_encode b in
     bindE (ascii_encode inp) (\<lambda>raw. Inr (inp @ u ''.'' @ b64url_encode (sign_jose C k raw)))))"

definition token_of_variant :: "crypto \<Rightarrow> private_key \<Rightarrow> dict \<Rightarrow> ustr \<Rightarrow> token_variant \<Rightarrow> ustr res" where
  "token_of_variant C k cl typ variant =
     (let alg = (if sk_alg k = u ''ed25519'' then u ''EdDSA'' else u ''ES256'') in
      case variant of
        Alg_none \<Rightarrow> unsigned_token cl typ
      | Wrong_alg \<Rightarrow> wrong_alg_token C k cl typ
      | Tamper \<Rightarrow> bindE (encode_jws C typ cl k alg) tamper_last_sig_byte
      | _ \<Rightarrow> encode_jws C typ cl k alg)"

text \<open>
  \<open>_mint_claims_object\<close>: times, then every member that holds a token placeholder and has a
  \<open>_claims\<close> sibling, then the delegation chain and its commitment; \<open>mint\<close> is \<open>_mint_token\<close>.
\<close>

definition mint_member :: "(pyval \<Rightarrow> pyval \<Rightarrow> ustr res) \<Rightarrow> dict \<Rightarrow> ustr \<Rightarrow> dict res" where
  "mint_member mint d base =
     (let sibling = base @ u ''_claims'' in
      if has d sibling \<and> jws_placeholder (get d base) then
        bindE (mint (get d base) (get d sibling)) (\<lambda>t. Inr (put d base (PStr t)))
      else Inr d)"

definition mint_members :: "(pyval \<Rightarrow> pyval \<Rightarrow> ustr res) \<Rightarrow> dict \<Rightarrow> dict res" where
  "mint_members mint d = foldE (mint_member mint) d (map fst d)"

definition mint_chain :: "(pyval \<Rightarrow> pyval \<Rightarrow> ustr res) \<Rightarrow> dict \<Rightarrow> dict res" where
  "mint_chain mint d =
     (if has d (u ''chain'') \<and> has d (u ''chain_claims'') then
        bindE (py_iter (get d (u ''chain_claims''))) (\<lambda>ccs.
        bindE (mapE (mint (PStr (u ''__JWS_DELEGATION__''))) ccs) (\<lambda>ts.
        let chain = PList (map PStr ts); out = put d (u ''chain'') chain in
        if get out (u ''chain_hash'') = PStr (u ''__COMPUTED_CHAIN_HASH__'') then
          bindE (compute_chain_hash chain) (\<lambda>h. Inr (put out (u ''chain_hash'') (PStr h)))
        else Inr out))
      else Inr d)"

definition mint_claims_object :: "(pyval \<Rightarrow> pyval \<Rightarrow> ustr res) \<Rightarrow> pyval \<Rightarrow> int \<Rightarrow> dict res" where
  "mint_claims_object mint cl now =
     ensure (is_dict cl) (Inl AttributeError) (
     bindE (mint_members mint (the_dict (resolve_times now cl))) (\<lambda>out.
     bindE (mint_chain mint out) (\<lambda>out. Inr (strip_claims out))))"

fun mint_token_fuel :: "nat \<Rightarrow> crypto \<Rightarrow> kat_keys \<Rightarrow> int \<Rightarrow> pyval \<Rightarrow> pyval \<Rightarrow> ustr res" where
  "mint_token_fuel 0 C K now placeholder cl = Inl OutOfFuel"
| "mint_token_fuel (Suc n) C K now placeholder cl =
     (case map_of JWS_TOKENS (the_str placeholder) of
        None \<Rightarrow> Inl MinterError
      | Some (typ, variant) \<Rightarrow>
          bindE (mint_claims_object (mint_token_fuel n C K now) cl now) (\<lambda>signing_claims.
          let iss = get signing_claims (u ''iss'') in
          bindE (has_key K iss) (\<lambda>known.
          ensure known (Inl MinterError) (
          bindE (key_of K iss) (\<lambda>k. token_of_variant C k signing_claims typ variant)))))"

text \<open>Claims nest to a finite depth, which is the fuel the recursion needs.\<close>

definition mint_token :: "crypto \<Rightarrow> kat_keys \<Rightarrow> int \<Rightarrow> pyval \<Rightarrow> pyval \<Rightarrow> ustr res" where
  "mint_token C K now placeholder cl = mint_token_fuel (Suc (nesting cl)) C K now placeholder cl"

section \<open>Signatures over canonical objects\<close>

definition env_wire_sig :: "crypto \<Rightarrow> private_key \<Rightarrow> bytes \<Rightarrow> ustr" where
  "env_wire_sig C k digest =
     (let sig = b64url_encode (sign_digest C k digest) in if sk_alg k = u ''p256'' then u ''p256.'' @ sig else sig)"

definition tamper_sig_str :: "ustr \<Rightarrow> ustr res" where
  "tamper_sig_str s = bindE (b64url_decode s) (\<lambda>raw. bindE (flip_last raw) (\<lambda>raw. Inr (b64url_encode raw)))"

definition sign_envelope :: "crypto \<Rightarrow> kat_keys \<Rightarrow> dict \<Rightarrow> dict res" where
  "sign_envelope C K env =
     bindE (item env (u ''sender'')) (\<lambda>sender.
     bindE (subscript sender (u ''agent_id'')) (\<lambda>agent_id.
     bindE (envelope_signing_input env) (\<lambda>b.
     bindE (key_of K agent_id) (\<lambda>k.
       Inr (put env (u ''signature'') (PStr (env_wire_sig C k (sha256 b))))))))"

definition sign_pop :: "crypto \<Rightarrow> private_key \<Rightarrow> dict \<Rightarrow> dict res" where
  "sign_pop C k man =
     (let pop = get man (u ''proof_of_possession'') in
      if \<not> truthy pop then Inr man
      else
        bindE (dict_get pop (u ''signature'')) (\<lambda>s.
        if s = PStr (u ''__VALID_POP_SIG__'') then
          bindE (subscript pop (u ''challenge'')) (\<lambda>c.
          bindE (b64url_decode_value c) (\<lambda>challenge.
            Inr (put man (u ''proof_of_possession'')
                   (PDict (put (the_dict pop) (u ''signature'') (PStr (env_wire_sig C k (sha256 challenge))))))))
        else if s = PStr (u ''__INVALID_POP_SIG__'') then
          Inr (put man (u ''proof_of_possession'')
                 (PDict (put (the_dict pop) (u ''signature'') (PStr (env_wire_sig C k (sha256 (ub ''aitp-invalid-pop'')))))))
        else Inr man))"

definition sign_manifest :: "crypto \<Rightarrow> kat_keys \<Rightarrow> dict \<Rightarrow> dict res" where
  "sign_manifest C K man =
     bindE (item man (u ''aid'')) (\<lambda>a.
     bindE (has_key K a) (\<lambda>known.
     ensure known (Inl MinterError) (
     bindE (key_of K a) (\<lambda>k.
     bindE (sign_pop C k man) (\<lambda>man.
     let s = get man (u ''signature'') in
     if s = PStr (u ''__VALID_MANIFEST_SIG__'') \<or> s = PStr (u ''__TAMPERED_SIGNATURE__'') then
       bindE (canonicalize (PDict (without (u ''signature'') man))) (\<lambda>b.
       let sig = env_wire_sig C k (sha256 b) in
       bindE (if s = PStr (u ''__TAMPERED_SIGNATURE__'') then tamper_sig_str sig else Inr sig) (\<lambda>sig.
         Inr (put man (u ''signature'') (PStr sig))))
     else Inr man)))))"

definition sign_revocation :: "crypto \<Rightarrow> kat_keys \<Rightarrow> dict \<Rightarrow> dict res" where
  "sign_revocation C K snapshot =
     (if get snapshot (u ''signature'') \<notin> {PStr (u ''__VALID_A_SIG__''), PStr (u ''__VALID_B_SIG__''), PStr (u ''__VALID_MANIFEST_SIG__'')}
      then Inr snapshot
      else
        bindE (item snapshot (u ''revocation_list'')) (\<lambda>body.
        bindE (subscript body (u ''issuer'')) (\<lambda>issuer.
        bindE (key_of K issuer) (\<lambda>k.
        bindE (canonicalize body) (\<lambda>b.
          Inr (put snapshot (u ''signature'') (PStr (env_wire_sig C k (sha256 b)))))))))"

section \<open>The fuel is enough\<close>

text \<open>
  The nested claims of a token are minted first, and they nest less deeply than the claims they are
  a member of; minting a member replaces it by a text. So claims of every depth below the fuel are
  minted alike, whatever the fuel.
\<close>

lemma nesting_resolve_times [simp]: "nesting (resolve_times now v) = nesting v"
proof (induction v rule: nesting.induct)
  case (1 xs)
  then show ?case by (simp add: comp_def cong: map_cong)
next
  case (2 d)
  then show ?case by (simp add: comp_def cong: map_cong)
qed (simp_all add: resolve_time_def Let_def split: option.splits prod.splits)

lemma foldr_max_less: "x \<in> set xs \<Longrightarrow> f x < foldr max (map (\<lambda>x. Suc (f x)) xs) 0" for f :: "'a \<Rightarrow> nat"
  by (induction xs) auto

definition shallow :: "nat \<Rightarrow> dict \<Rightarrow> bool" where
  "shallow n d \<longleftrightarrow> (\<forall>p \<in> set d. nesting (snd p) < n)"

lemma shallow_members: "shallow (nesting v) (the_dict v)"
  by (cases v) (auto simp: shallow_def intro!: foldr_max_less)

lemma shallow_get: "shallow n d \<Longrightarrow> has d k \<Longrightarrow> nesting (get d k) < n"
  using has_get_in_set [of d k] by (fastforce simp: shallow_def)

lemma set_put: "p \<in> set (put d k v) \<Longrightarrow> p = (k, v) \<or> p \<in> set d"
  by (induction d) (auto split: if_splits)

lemma shallow_put: "shallow n d \<Longrightarrow> nesting v < n \<Longrightarrow> shallow n (put d k v)"
  by (auto simp: shallow_def dest: set_put)

lemma shallow_elements:
  assumes "shallow n d" and "has d k" and "py_iter (get d k) = Inr vs" and "v \<in> set vs"
  shows "nesting v < n"
proof -
  have n: "nesting (get d k) < n" using assms(1,2) by (rule shallow_get)
  show ?thesis
  proof (cases "get d k")
    case (PList xs)
    then show ?thesis using n assms(3,4) foldr_max_less [of v xs nesting] by simp
  qed (use n assms(3,4) in \<open>auto simp: py_iter_def\<close>)
qed

lemma mint_member_shallow: "mint_member mint d base = Inr d' \<Longrightarrow> shallow n d \<Longrightarrow> shallow n d'"
  by (auto simp: mint_member_def Let_def ok_simps split: if_splits intro!: shallow_put dest: shallow_get)

lemma mint_members_shallow: "mint_members mint d = Inr d' \<Longrightarrow> shallow n d \<Longrightarrow> shallow n d'"
  unfolding mint_members_def by (erule foldE_invariant, assumption) (rule mint_member_shallow)

lemma mint_members_agree:
  assumes "shallow n d" and "\<And>p c. nesting c < n \<Longrightarrow> f p c = g p c"
  shows "mint_members f d = mint_members g d"
  unfolding mint_members_def
proof (rule foldE_agree [of "shallow n"])
  fix s base
  assume "shallow n s"
  then show "mint_member f s base = mint_member g s base"
    using assms(2) shallow_get by (simp add: mint_member_def Let_def)
qed (use assms(1) in \<open>auto dest: mint_member_shallow\<close>)

lemma mint_chain_agree:
  assumes "shallow n d" and "\<And>p c. nesting c < n \<Longrightarrow> f p c = g p c"
  shows "mint_chain f d = mint_chain g d"
proof -
  have "mapE (f p) ccs = mapE (g p) ccs" if "has d (u ''chain_claims'')" "py_iter (get d (u ''chain_claims'')) = Inr ccs" for p ccs
    using shallow_elements [OF assms(1) that] assms(2) by (intro mapE_cong) simp_all
  then show ?thesis by (simp add: mint_chain_def Let_def cong: bindE_cong)
qed

lemma mint_claims_agree:
  assumes "\<And>p c. nesting c < nesting cl \<Longrightarrow> f p c = g p c"
  shows "mint_claims_object f cl now = mint_claims_object g cl now"
proof -
  let ?d = "the_dict (resolve_times now cl)"
  have sh: "shallow (nesting cl) ?d" using shallow_members [of "resolve_times now cl"] by simp
  then have "mint_members f ?d = mint_members g ?d" by (rule mint_members_agree) (rule assms)
  moreover have "mint_chain f d = mint_chain g d" if "mint_members g ?d = Inr d" for d
    by (rule mint_chain_agree [OF mint_members_shallow [OF that sh]]) (rule assms)
  ultimately show ?thesis by (simp add: mint_claims_object_def cong: bindE_cong)
qed

lemma mint_fuel_agree: "nesting cl < n \<Longrightarrow> nesting cl < m \<Longrightarrow> mint_token_fuel n C K now p cl = mint_token_fuel m C K now p cl"
proof (induction n arbitrary: m p cl)
  case (Suc n)
  then obtain k where m: "m = Suc k" by (cases m) auto
  have "mint_token_fuel n C K now q c = mint_token_fuel k C K now q c" if "nesting c < nesting cl" for q c
    using Suc.IH [of c k q] Suc.prems m that by simp
  then have "mint_claims_object (mint_token_fuel n C K now) cl now = mint_claims_object (mint_token_fuel k C K now) cl now"
    by (rule mint_claims_agree)
  then show ?case by (simp add: m split: option.splits)
qed simp

lemma codecs_never_out_of_fuel [never_intros]:
  "never OutOfFuel (canonicalize v)" "never OutOfFuel (utf8_encode s)" "never OutOfFuel (ascii_encode s)" "never OutOfFuel (b64url_decode s)"
  by (auto simp: never_def ascii_encode_def utf8_encode_def dest: canonicalize_err b64url_decode_err)

lemma values_never_out_of_fuel [never_intros]:
  "never OutOfFuel (py_iter v)" "never OutOfFuel (str_of v)" "never OutOfFuel (has_key K v)" "never OutOfFuel (key_of K v)"
  by (auto simp: never_def py_iter_def str_of_def has_key_def key_of_def err_simps split: pyval.splits)

lemma token_of_variant_never [never_intros]: "never OutOfFuel (token_of_variant C k cl typ variant)"
  by (auto simp: token_of_variant_def Let_def unsigned_token_def wrong_alg_token_def header_segment_def encode_jws_def
      tamper_last_sig_byte_def flip_last_def split: token_variant.splits list.splits intro!: never_intros)

lemma mint_claims_never:
  assumes "\<And>p c. nesting c < nesting cl \<Longrightarrow> never OutOfFuel (f p c)"
  shows "never OutOfFuel (mint_claims_object f cl now)"
proof -
  let ?g = "\<lambda>p c. if nesting c < nesting cl then f p c else Inl MinterError"
  have g: "never OutOfFuel (?g p c)" for p c using assms by simp
  have "mint_claims_object f cl now = mint_claims_object ?g cl now" by (rule mint_claims_agree) simp
  moreover have "never OutOfFuel (mint_claims_object ?g cl now)"
    unfolding mint_claims_object_def mint_members_def mint_member_def mint_chain_def Let_def compute_chain_hash_def entry_digest_def
    by (intro never_intros never_foldE g) simp_all
  ultimately show ?thesis by simp
qed

lemma mint_fuel_never: "nesting cl < n \<Longrightarrow> never OutOfFuel (mint_token_fuel n C K now p cl)"
proof (induction n arbitrary: p cl)
  case (Suc n)
  have "never OutOfFuel (mint_claims_object (mint_token_fuel n C K now) cl now)"
    using Suc.prems by (intro mint_claims_never Suc.IH) simp
  then show ?case by (auto simp: Let_def split: option.splits intro!: never_intros)
qed simp

lemma mint_token_unfold:
  "mint_token C K now p cl =
     (case map_of JWS_TOKENS (the_str p) of
        None \<Rightarrow> Inl MinterError
      | Some (typ, variant) \<Rightarrow>
          bindE (mint_claims_object (mint_token C K now) cl now) (\<lambda>signing_claims.
          bindE (has_key K (get signing_claims (u ''iss''))) (\<lambda>known.
          ensure known (Inl MinterError) (
          bindE (key_of K (get signing_claims (u ''iss''))) (\<lambda>k. token_of_variant C k signing_claims typ variant)))))"
proof -
  have "mint_token_fuel (nesting cl) C K now q c = mint_token C K now q c" if "nesting c < nesting cl" for q c
    unfolding mint_token_def using that by (intro mint_fuel_agree) simp_all
  then have "mint_claims_object (mint_token_fuel (nesting cl) C K now) cl now = mint_claims_object (mint_token C K now) cl now"
    by (rule mint_claims_agree)
  then show ?thesis by (subst mint_token_def) (simp add: Let_def split: option.splits)
qed

text \<open>
  C26. Minting terminates: \<open>mint_token\<close> satisfies the recursion of the source, which calls itself on
  the nested claims without a bound, and the fuel that bounds it here is never used up.
\<close>

theorem mint_token_terminates:
  "mint_token C K now p cl \<noteq> Inl OutOfFuel \<and>
   mint_token C K now p cl =
     (case map_of JWS_TOKENS (the_str p) of
        None \<Rightarrow> Inl MinterError
      | Some (typ, variant) \<Rightarrow>
          bindE (mint_claims_object (mint_token C K now) cl now) (\<lambda>signing_claims.
          bindE (has_key K (get signing_claims (u ''iss''))) (\<lambda>known.
          ensure known (Inl MinterError) (
          bindE (key_of K (get signing_claims (u ''iss''))) (\<lambda>k. token_of_variant C k signing_claims typ variant)))))"
proof
  show "mint_token C K now p cl \<noteq> Inl OutOfFuel"
    using mint_fuel_never [of cl "Suc (nesting cl)"] by (simp add: mint_token_def never_def)
qed (rule mint_token_unfold)

section \<open>What is minted verifies\<close>

lemma mint_token_variant:
  assumes "mint_token C K now (PStr p) cl = Inr t"
  obtains ty variant scl s k where "map_of JWS_TOKENS p = Some (ty, variant)"
    and "mint_claims_object (mint_token C K now) cl now = Inr scl" and "get scl (u ''iss'') = PStr s" and "K s = Some k"
    and "token_of_variant C k scl ty variant = Inr t"
  using assms unfolding mint_token_unfold [of C K now "PStr p"]
  by (auto simp: ok_simps has_key_def key_of_def is_str_iff split: option.splits)

lemma honest_alg: "honest_signer C k \<Longrightarrow> sk_alg k = ALG_ED25519 \<or> sk_alg k = ALG_P256"
  by (auto simp: honest_signer_def split: key_object.splits)


text \<open>
  C27. A wire signature over a canonical digest is accepted again: the field decodes, under the
  signer's algorithm and no other, to the signature that was made, and the signer's public key
  verifies it.
\<close>

theorem wire_signature_verifies:
  assumes "honest_signer C k"
  shows "(\<forall>alg raw. decode_tagged_signature_for (PStr (env_wire_sig C k digest)) alg c = Inr raw \<longleftrightarrow>
      alg = sk_alg k \<and> raw = sign_digest C k digest) \<and>
    verify_digest C (public_key_of k) digest (sign_digest C k digest) = Inr True"
proof
  have b: "b64url_decode (b64url_encode (sign_digest C k digest)) = Inr (sign_digest C k digest)"
    by (rule b64url_decode_encode)
  have "46 \<notin> set (b64url_encode (sign_digest C k digest))" using no_dot_b64 [OF b] .
  moreover have "partition_at 46 (u ''p256.'' @ t) = (u ''p256'', t)" for t
    using partition_at_append [of 46 "u ''p256''" t] by (simp add: u_def)
  ultimately show "\<forall>alg raw. decode_tagged_signature_for (PStr (env_wire_sig C k digest)) alg c = Inr raw \<longleftrightarrow>
      alg = sk_alg k \<and> raw = sign_digest C k digest"
    using honest_alg [OF assms] sign_digest_length [OF assms, of digest]
    by (auto simp: decode_tagged_signature_for_def env_wire_sig_def Let_def b ALG_ED25519_def ALG_P256_def ensure_def u_Cons)
  show "verify_digest C (public_key_of k) digest (sign_digest C k digest) = Inr True"
    using assms by (rule sign_digest_verifies)
qed

lemma wire_signature_verifies_witness:
  "\<forall>key digest. verify_digest sample_crypto (public_key_of (sample_signer key)) digest (sign_digest sample_crypto (sample_signer key) digest) = Inr True"
  using wire_signature_verifies [OF sample_signer_honest] by blast

text \<open>
  The negative placeholders are negative: a token minted with \<open>alg: none\<close> is signed under no AID,
  and one minted with the wrong algorithm name under no Ed25519 AID.
\<close>

lemma negative_token_unsigned:
  assumes "mint_token C K now (PStr p) cl = Inr t" and "map_of JWS_TOKENS p = Some (typ, variant)"
    and "variant = Alg_none \<or> variant = Wrong_alg \<and> (\<exists>a. parse_aid C iss = Inr a \<and> aid_alg a = ALG_ED25519)"
  shows "\<not> jws_signed C (PStr t) iss typ' cl'"
proof
  assume signed: "jws_signed C (PStr t) iss typ' cl'"
  have ty: "typ = u ''aitp-tct+jwt''" using assms(2,3) map_of_SomeD [OF assms(2)] by (auto simp: JWS_TOKENS_def)
  from assms(1) obtain scl k where v: "token_of_variant C k scl typ variant = Inr t"
    using assms(2) by (auto elim!: mint_token_variant)
  have h: "bindE (utf8_encode (jtext ''{`alg`:`'' @ u alg @ jtext ''`,`typ`:`'' @ u ''aitp-tct+jwt'' @ jtext ''`}'')) loads_bytes =
      Inr (PDict [(u ''alg'', PStr (u alg)), (u ''typ'', PStr (u ''aitp-tct+jwt''))])" if "alg = ''none'' \<or> alg = ''ES256''" for alg
    using that by (elim disjE; simp only:; code_simp)
  obtain alg b rest where seg: "header_segment alg typ = Inr b" "t = b @ u ''.'' @ rest"
    and alg: "alg = (if variant = Alg_none then ''none'' else ''ES256'')"
    using v assms(3) by (auto simp: token_of_variant_def Let_def unsigned_token_def wrong_alg_token_def ok_simps)
  obtain hb where hb: "b = b64url_encode hb" "loads_bytes hb = Inr (PDict [(u ''alg'', PStr (u alg)), (u ''typ'', PStr (u ''aitp-tct+jwt''))])"
    using seg(1) h [of alg] alg by (auto simp: header_segment_def ty ok_simps)
  from signed obtain q a j where q: "parse_compact (PStr t) [] = Inr q" and a: "parse_aid C iss = Inr a" "jose_alg a = Inr j"
    and j: "get (header q) (u ''alg'') = PStr j"
    unfolding jws_signed_def by blast
  obtain a' rest' ab where t: "t = a' @ u ''.'' @ rest'" "b64url_decode a' = Inr ab" "loads_bytes ab = Inr (PDict (header q))"
    using q unfolding parse_compact_ok by auto
  have "a' @ 46 # rest' = b @ 46 # rest" using seg(2) t(1) by (simp add: u_def)
  then have "split_on 46 (a' @ 46 # rest') = split_on 46 (b @ 46 # rest)" by (rule arg_cong)
  then have "a' = b"
    using no_dot_b64 [OF t(2)] no_dot_b64 [OF b64url_decode_encode [of hb]] by (simp add: hb(1) split_on_append)
  then have "header q = [(u ''alg'', PStr (u alg)), (u ''typ'', PStr (u ''aitp-tct+jwt''))]"
    using t(2,3) hb by (simp add: b64url_decode_encode)
  then have "j = u alg" using j by simp
  then show False
    using a assms(3) parse_aid_wf(4) [OF a(1)] alg by (auto simp: jose_alg_def jose_alg_of_def ok_simps)
qed

section \<open>A minted sample\<close>

definition sample_keys :: kat_keys where
  "sample_keys = [ed_aid (key_no 0) \<mapsto> sample_signer (key_no 0)]"

definition sample_claims :: dict where
  "sample_claims = [(u ''iss'', PStr (ed_aid (key_no 0)))]"

lemma sample_claims_object: "mint_claims_object f (PDict sample_claims) 0 = Inr sample_claims"
proof -
  have "resolve_time 0 (ed_aid (key_no 0)) = PStr (ed_aid (key_no 0))" "claims_member (u ''iss'') = False" by code_simp+
  then show ?thesis
    by (simp add: mint_claims_object_def sample_claims_def mint_members_def mint_member_def mint_chain_def Let_def strip_claims_def)
qed

lemma scalar_ed_aid [simp]: "list_all scalar (ed_aid key)"
  by (simp add: ed_aid_def)

lemma sample_claims_plain:
  "plain (PDict sample_claims)" "nesting (PDict sample_claims) \<le> max_depth" "nodes (PDict sample_claims) \<le> max_nodes_visited"
  by (simp_all add: sample_claims_def max_depth_def max_nodes_visited_def)

lemma sample_minted:
  assumes "map_of JWS_TOKENS p = Some (typ, variant)" and "variant = Normal \<or> variant = Wrong_alg"
  shows "\<exists>t. mint_token sample_crypto sample_keys 0 (PStr p) (PDict sample_claims) = Inr t"
proof -
  let ?k = "sample_signer (key_no 0)"
  have simple: "simple_text typ" using map_of_SomeD [OF assms(1)] by (auto simp: JWS_TOKENS_def simple_text_def u_def)
  have "\<exists>t. token_of_variant sample_crypto ?k sample_claims typ variant = Inr t"
  proof (cases "variant = Normal")
    case True
    have "simple_text (u ''EdDSA'')" "sk_alg ?k = u ''ed25519''" by (simp_all add: simple_text_def u_def sample_signer_def ALG_ED25519_def)
    then show ?thesis using encode_jws_total [OF simple _ sample_claims_plain] True by (simp add: token_of_variant_def)
  next
    case False
    obtain h where h: "header_segment ''ES256'' typ = Inr (b64url_encode h)"
      using simple_text_plain(3) [OF simple] by (auto simp: header_segment_def jtext_def utf8_encode_def scalar_def surrogate_def)
    moreover obtain b where "canonicalize (PDict sample_claims) = Inr b" using canonicalize_plain [OF sample_claims_plain] by blast
    moreover obtain raw where "ascii_encode (b64url_encode h @ u ''.'' @ b64url_encode b) = Inr raw"
      using ascii_encode_total [of "b64url_encode h @ u ''.'' @ b64url_encode b"] by (auto simp: b64_text_ascii u_def)
    ultimately show ?thesis using False assms(2) by (auto simp: token_of_variant_def wrong_alg_token_def)
  qed
  then show ?thesis
    by (simp add: mint_token_unfold assms(1) sample_claims_object)
      (simp add: sample_claims_def sample_keys_def has_key_def key_of_def hashable_def)
qed


lemma negative_token_unsigned_witness:
  "\<exists>t. mint_token sample_crypto sample_keys 0 (PStr (u ''__JWS_TCT_WRONG_ALG__'')) (PDict sample_claims) = Inr t \<and>
     (\<forall>cl. \<not> jws_signed sample_crypto (PStr t) (ed_aid (key_no 0)) (u ''aitp-tct+jwt'') cl)"
proof -
  have p: "map_of JWS_TOKENS (u ''__JWS_TCT_WRONG_ALG__'') = Some (u ''aitp-tct+jwt'', Wrong_alg)" by (simp add: JWS_TOKENS_def)
  then obtain t where t: "mint_token sample_crypto sample_keys 0 (PStr (u ''__JWS_TCT_WRONG_ALG__'')) (PDict sample_claims) = Inr t"
    using sample_minted by blast
  have "\<exists>a. parse_aid sample_crypto (ed_aid (key_no 0)) = Inr a \<and> aid_alg a = ALG_ED25519" by (simp add: sample_key_def)
  then show ?thesis using t negative_token_unsigned [OF t p] by blast
qed

end
