(* ===== verification/Minter.thy ===== *)
theory Minter
  imports Mint_Tokens Identity
begin

text \<open>
  The second half of \<open>aitp_verifier/minter.py\<close>: identity proofs, proofs of possession, the SPIFFE
  test authorities, and \<open>mint_input\<close>, which materializes every placeholder of a fixture input. Key
  derivation and the X.509 certificate builder of the \<open>cryptography\<close> package are parameters.
\<close>

section \<open>Keys derived from labels\<close>

text \<open>\<open>PrivateKey.ed25519_from_seed\<close> and \<open>PrivateKey.p256_from_scalar\<close>\<close>

record signing_api =
  seed_key :: "bytes \<Rightarrow> key_ops option"
  scalar_key :: "int \<Rightarrow> key_ops option"

definition ed25519_from_seed :: "signing_api \<Rightarrow> bytes \<Rightarrow> private_key res" where
  "ed25519_from_seed S seed =
     (case seed_key S seed of None \<Rightarrow> Inl ValueError | Some k \<Rightarrow> Inr \<lparr>sk_alg = ALG_ED25519, sk_key = k\<rparr>)"

definition p256_from_scalar :: "signing_api \<Rightarrow> int \<Rightarrow> private_key res" where
  "p256_from_scalar S n =
     (case scalar_key S n of None \<Rightarrow> Inl ValueError | Some k \<Rightarrow> Inr \<lparr>sk_alg = ALG_P256, sk_key = k\<rparr>)"

definition P256_ORDER :: nat where
  "P256_ORDER = 0xFFFFFFFF00000000FFFFFFFFFFFFFFFFBCE6FAADA7179E84F3B9CAC2FC632551"

definition label_scalar :: "bytes \<Rightarrow> int" where
  "label_scalar digest = int (from_bytes digest mod (P256_ORDER - 1) + 1)"

definition issuer_signing_key :: "signing_api \<Rightarrow> ustr \<Rightarrow> ustr \<Rightarrow> private_key res" where
  "issuer_signing_key S issuer alg =
     bindE (utf8_encode issuer) (\<lambda>b.
     let seed = sha256 (ub ''aitp-conformance-issuer:'' @ b) in
     if alg = u ''ES256'' then p256_from_scalar S (label_scalar seed) else ed25519_from_seed S seed)"

definition OIDC_ISSUER_KEY_IDS :: "(ustr \<times> ustr) list" where
  "OIDC_ISSUER_KEY_IDS = [(u ''https://auth.openai.com'', u ''kat-oidc-issuer-001'')]"

definition UNKNOWN_OIDC_ISSUER_KEY_ID :: ustr where
  "UNKNOWN_OIDC_ISSUER_KEY_ID = u ''kat-oidc-issuer-002-unknown''"

definition corpus_issuer_key :: "pyval \<Rightarrow> pyval \<Rightarrow> kat_keys \<Rightarrow> private_key res" where
  "corpus_issuer_key placeholder issuer K =
     (if placeholder = PStr (u ''__VALID_JWT_FROM_UNKNOWN_ISSUER__'') then key_of K (PStr UNKNOWN_OIDC_ISSUER_KEY_ID)
      else
        (case (if is_str issuer then map_of OIDC_ISSUER_KEY_IDS (the_str issuer) else None) of
           None \<Rightarrow> Inl MinterError
         | Some key_id \<Rightarrow> key_of K (PStr key_id)))"

section \<open>Identity proofs\<close>

definition OTHER_AID :: ustr where
  "OTHER_AID = u ''aid:pubkey:iojj3XQJ8ZX9UtstPLpdcspnCb8dlBIb83SIAbQPb1w''"

definition WRONG_NONCE :: ustr where
  "WRONG_NONCE = b64url_encode (replicate 16 0xFF)"

text \<open>\<open>env["sender"]["agent_id"]\<close> and \<open>env["payload"].get("pop_nonce")\<close>\<close>

definition env_sender :: "dict \<Rightarrow> pyval res" where
  "env_sender env = bindE (item env (u ''sender'')) (\<lambda>s. subscript s (u ''agent_id''))"

definition env_pop_nonce :: "dict \<Rightarrow> pyval res" where
  "env_pop_nonce env = bindE (item env (u ''payload'')) (\<lambda>p. dict_get p (u ''pop_nonce''))"

definition jkt_for :: "crypto \<Rightarrow> pyval \<Rightarrow> ustr res" where
  "jkt_for C sender = bindE (parse_aid_value C sender) thumbprint"

text \<open>\<open>b64url(header) + "." + b64url(claims)\<close> with both written by \<open>json.dumps\<close>, then the signature\<close>

definition json_jws :: "dict \<Rightarrow> dict \<Rightarrow> (bytes \<Rightarrow> bytes res) \<Rightarrow> ustr res" where
  "json_jws header_obj cl sign =
     bindE (utf8_encode (json_dumps (PDict header_obj))) (\<lambda>h.
     bindE (utf8_encode (json_dumps (PDict cl))) (\<lambda>c.
     let inp = b64url_encode h @ u ''.'' @ b64url_encode c in
     bindE (ascii_encode inp) (\<lambda>raw. bindE (sign raw) (\<lambda>sig. Inr (inp @ u ''.'' @ b64url_encode sig)))))"

definition oidc_claims_for :: "crypto \<Rightarrow> dict \<Rightarrow> dict \<Rightarrow> dict \<Rightarrow> int \<Rightarrow> dict res" where
  "oidc_claims_for C identity env inp now =
     bindE (item identity (u ''issuer'')) (\<lambda>issuer.
     bindE (env_sender env) (\<lambda>sender.
     bindE (item identity (u ''subject'')) (\<lambda>subject.
     bindE (env_pop_nonce env) (\<lambda>nonce.
     bindE (jkt_for C sender) (\<lambda>jkt.
       Inr [(u ''iss'', issuer), (u ''sub'', subject), (u ''aud'', py_or (get inp (u ''self_aid'')) sender),
            (u ''iat'', PInt now), (u ''exp'', PInt (now + 3600)), (u ''nonce'', nonce),
            (u ''cnf'', PDict [(u ''jkt'', PStr jkt)])])))))"

definition oidc_variant :: "pyval \<Rightarrow> dict \<Rightarrow> dict" where
  "oidc_variant placeholder cl =
     (if placeholder = PStr (u ''__JWT_MISSING_AUD_CLAIM__'') then without (u ''aud'') cl
      else if placeholder = PStr (u ''__JWT_AUD_TARGETS_DIFFERENT_PEER__'') then put cl (u ''aud'') (PStr OTHER_AID)
      else if placeholder = PStr (u ''__JWT_MISSING_CNF_JKT_CLAIM__'') then without (u ''cnf'') cl
      else cl)"

definition mint_oidc_jwt ::
  "crypto \<Rightarrow> signing_api \<Rightarrow> pyval \<Rightarrow> dict \<Rightarrow> dict \<Rightarrow> dict \<Rightarrow> int \<Rightarrow> ustr \<Rightarrow> ustr option \<Rightarrow> (bytes \<Rightarrow> bytes) option \<Rightarrow> ustr res"
where
  "mint_oidc_jwt C S placeholder identity env inp now alg kid sign_override =
     bindE (oidc_claims_for C identity env inp now) (\<lambda>cl.
     let header_obj = [(u ''alg'', PStr alg), (u ''typ'', PStr (u ''JWT''))] @
           (case kid of None \<Rightarrow> [] | Some k \<Rightarrow> [(u ''kid'', PStr k)]) in
     json_jws header_obj (oidc_variant placeholder cl)
       (\<lambda>raw. case sign_override of
          Some sign \<Rightarrow> Inr (sign raw)
        | None \<Rightarrow>
            bindE (str_of (get identity (u ''issuer''))) (\<lambda>issuer.
            bindE (issuer_signing_key S issuer alg) (\<lambda>k. Inr (sign_jose C k raw)))))"

text \<open>The proof input of a message, over members of any type, with a nonce given\<close>

definition proof_input_values :: "bytes \<Rightarrow> pyval \<Rightarrow> pyval \<Rightarrow> pyval \<Rightarrow> pyval \<Rightarrow> pyval \<Rightarrow> bytes res" where
  "proof_input_values domain sender receiver mid ts nonce =
     bindE (str_of sender) (\<lambda>s. bindE (utf8_encode s) (\<lambda>sb.
     bindE (str_of receiver) (\<lambda>r. bindE (utf8_encode r) (\<lambda>rb.
     bindE (str_of mid) (\<lambda>m. bindE (utf8_encode m) (\<lambda>mb.
     bindE (py_int ts) (\<lambda>t. bindE (ascii_encode (str_int t)) (\<lambda>tb.
     bindE (b64url_decode_value nonce) (\<lambda>n.
       Inr (domain @ sb @ [0] @ rb @ [0] @ mb @ [0] @ tb @ [0] @ n))))))))))"

definition mint_pinned_proof :: "crypto \<Rightarrow> pyval \<Rightarrow> dict \<Rightarrow> dict \<Rightarrow> kat_keys \<Rightarrow> ustr res" where
  "mint_pinned_proof C placeholder env inp K =
     bindE (env_sender env) (\<lambda>sender.
     bindE (key_of K sender) (\<lambda>k.
     bindE (item inp (u ''self_aid'')) (\<lambda>self_aid.
     bindE (item env (u ''message_id'')) (\<lambda>mid.
     bindE (item env (u ''timestamp'')) (\<lambda>ts.
     bindE (item env (u ''payload'')) (\<lambda>payload.
     bindE (subscript payload (u ''pop_nonce'')) (\<lambda>nonce.
     bindE (if placeholder = PStr (u ''__CAPTURED_PROOF_FROM_ORIGINAL_HANDSHAKE__'') then
              bindE (item inp (u ''captured_proof_context'')) (\<lambda>c.
              bindE (subscript c (u ''original_sender_aid'')) (\<lambda>cs.
              bindE (subscript c (u ''original_receiver_aid'')) (\<lambda>cr.
              bindE (subscript c (u ''original_message_id'')) (\<lambda>cm.
              bindE (subscript c (u ''original_timestamp'')) (\<lambda>ct.
              bindE (subscript c (u ''original_pop_nonce'')) (\<lambda>cn.
                proof_input_values PINNED_KEY_DOMAIN cs cr cm ct cn))))))
            else if placeholder = PStr (u ''__LEGACY_PINNED_PROOF__'') then utf8_encode (py_str mid @ u ''|'' @ py_str ts)
            else if placeholder \<in> {PStr (u ''__PINNED_PROOF_OVER_WRONG_NONCE__''), PStr (u ''__INVALID_POP_SIG_OVER_WRONG_NONCE__'')} then
              proof_input_values PINNED_KEY_DOMAIN sender self_aid mid ts (PStr WRONG_NONCE)
            else if placeholder = PStr (u ''__VALID_PINNED_PROOF__'') then
              proof_input_values PINNED_KEY_DOMAIN sender self_aid mid ts nonce
            else Inl MinterError) (\<lambda>data. Inr (env_wire_sig C k (sha256 data))))))))))"

definition mint_pop_signature :: "crypto \<Rightarrow> dict \<Rightarrow> pyval \<Rightarrow> pyval \<Rightarrow> kat_keys \<Rightarrow> dict res" where
  "mint_pop_signature C payload sender self_nonce K =
     (let ph = get payload (u ''pop_signature'') in
      if \<not> starts_with ''__'' ph then Inr payload
      else
        bindE (key_of K sender) (\<lambda>k.
        let nonce = (if ph = PStr (u ''__INVALID_POP_SIG_OVER_WRONG_NONCE__'') then PStr WRONG_NONCE
                     else py_or self_nonce (get payload (u ''pop_nonce_echo''))) in
        if nonce = PNone then Inr payload
        else
          bindE (b64url_decode_value nonce) (\<lambda>n.
            Inr (put payload (u ''pop_signature'') (PStr (b64url_encode (sign_digest C k (sha256 n))))))))"

section \<open>SPIFFE test authorities\<close>

definition SPIFFE_TRUST_DOMAIN :: ustr where
  "SPIFFE_TRUST_DOMAIN = u ''prod.example.com''"

definition SPIFFE_JWT_KID :: ustr where
  "SPIFFE_JWT_KID = u ''aitp-test-spiffe-jwt-1''"

definition SPIFFE_LEAF_AID :: ustr where
  "SPIFFE_LEAF_AID = u ''aid:pubkey:dqFZIESm5PURJlvKc6YE2QsFKdHfYCvjChmpJXZg0fU''"

definition SPIFFE_OTHER_SAN :: ustr where
  "SPIFFE_OTHER_SAN = u ''spiffe://prod.example.com/ns/payments/sa/other''"

definition SPIFFE_WRONG_NONCE :: ustr where
  "SPIFFE_WRONG_NONCE = u ''YWl0cC1zcGlmZmUtand0OQ''"

definition spiffe_key :: "signing_api \<Rightarrow> string \<Rightarrow> private_key res" where
  "spiffe_key S label = p256_from_scalar S (label_scalar (sha256 (ub ''aitp-conformance-spiffe:'' @ ub label)))"

text \<open>The public numbers of a key; only a P-256 key has them, and they fit in 32 bytes.\<close>

definition ec_jwk :: "private_key \<Rightarrow> dict res" where
  "ec_jwk k =
     (case ko_public (sk_key k) of
        P256_key (x, y) \<Rightarrow>
          ensure (x < 256 ^ 32 \<and> y < 256 ^ 32) (Inl OverflowError) (
            Inr [(u ''kty'', PStr (u ''EC'')), (u ''crv'', PStr (u ''P-256'')),
                 (u ''x'', PStr (b64url_encode (to_bytes 32 x))), (u ''y'', PStr (b64url_encode (to_bytes 32 y)))])
      | _ \<Rightarrow> Inl AttributeError)"

text \<open>
  What the code asks of the certificate builder: names, the subject's public key, the serial, the
  validity in seconds, the critical basic constraint and key usage, and the URI names. The builder,
  with the key that signs, returns the DER of the certificate.
\<close>

record cert_request =
  cr_subject :: string
  cr_issuer :: string
  cr_public :: key_object
  cr_serial :: int
  cr_not_before :: int
  cr_not_after :: int
  cr_ca :: bool
  cr_key_usage :: "bool list"
  cr_uris :: "ustr list"

type_synonym cert_builder = "cert_request \<Rightarrow> key_ops \<Rightarrow> bytes"

definition spiffe_ca :: "signing_api \<Rightarrow> cert_builder \<Rightarrow> int \<Rightarrow> bytes res" where
  "spiffe_ca S B now =
     bindE (spiffe_key S ''x509-ca'') (\<lambda>k.
       Inr (B \<lparr>cr_subject = ''aitp-test-spiffe-ca'', cr_issuer = ''aitp-test-spiffe-ca'', cr_public = ko_public (sk_key k),
             cr_serial = 1, cr_not_before = now - 3600, cr_not_after = now + 86400, cr_ca = True,
             cr_key_usage = [False, False, False, False, False, True, True, False, False],
             cr_uris = [u ''spiffe://'' @ SPIFFE_TRUST_DOMAIN]\<rparr> (sk_key k)))"

text \<open>\<open>base64.b64encode\<close>, with padding\<close>

definition std_b64_encode :: "bytes \<Rightarrow> ustr" where
  "std_b64_encode b =
     (let t = map (\<lambda>c. if c = 45 then 43 else if c = 95 then 47 else c) (b64url_encode b)
      in t @ replicate ((4 - length t mod 4) mod 4) 61)"

definition spiffe_bundle_key :: "signing_api \<Rightarrow> cert_builder \<Rightarrow> pyval \<Rightarrow> int \<Rightarrow> pyval res" where
  "spiffe_bundle_key S B placeholder now =
     (if placeholder = PStr (u ''__TEST_SPIFFE_JWT_AUTHORITY_JWK__'') then
        bindE (spiffe_key S ''jwt-authority'') (\<lambda>k. bindE (ec_jwk k) (\<lambda>d.
          Inr (PDict (d @ [(u ''kid'', PStr SPIFFE_JWT_KID), (u ''use'', PStr (u ''jwt-svid''))]))))
      else if placeholder = PStr (u ''__TEST_SPIFFE_X509_CA_JWK__'') then
        bindE (spiffe_key S ''x509-ca'') (\<lambda>k. bindE (ec_jwk k) (\<lambda>d. bindE (spiffe_ca S B now) (\<lambda>der.
          Inr (PDict (d @ [(u ''use'', PStr (u ''x509-svid'')), (u ''x5c'', PList [PStr (std_b64_encode der)])])))))
      else Inl MinterError)"

definition mint_bundle_entry :: "signing_api \<Rightarrow> cert_builder \<Rightarrow> int \<Rightarrow> pyval \<Rightarrow> pyval res" where
  "mint_bundle_entry S B now entry =
     (let bundle = (if is_dict entry then get (the_dict entry) (u ''bundle'') else PNone);
          keys = (if is_dict bundle then get (the_dict bundle) (u ''keys'') else PNone) in
      if \<not> is_list keys then Inr entry
      else
        bindE (mapE (\<lambda>k. if starts_with ''__'' k then spiffe_bundle_key S B k now else Inr k) (the_list keys)) (\<lambda>ks.
          Inr (PDict (put (the_dict entry) (u ''bundle'') (PDict (put (the_dict bundle) (u ''keys'') (PList ks)))))))"

definition mint_spiffe_bundles :: "signing_api \<Rightarrow> cert_builder \<Rightarrow> dict \<Rightarrow> int \<Rightarrow> dict res" where
  "mint_spiffe_bundles S B config now =
     (let v = get_or (PList []) config (u ''spiffe_bundles'') in
      bindE (py_iter v) (\<lambda>entries.
      bindE (mapE (mint_bundle_entry S B now) entries) (\<lambda>es.
        Inr (if is_list v \<and> has config (u ''spiffe_bundles'') then put config (u ''spiffe_bundles'') (PList es) else config))))"

definition mint_x509_svid :: "signing_api \<Rightarrow> cert_builder \<Rightarrow> pyval \<Rightarrow> pyval \<Rightarrow> kat_keys \<Rightarrow> int \<Rightarrow> ustr res" where
  "mint_x509_svid S B placeholder subject K now =
     bindE (if placeholder = PStr (u ''__X509_SVID_LEAF_TWO_URI_SANS__'') then Inr [SPIFFE_OTHER_SAN]
            else if placeholder \<noteq> PStr (u ''__X509_SVID_LEAF__'') then Inl MinterError else Inr []) (\<lambda>extra.
     bindE (spiffe_key S ''x509-ca'') (\<lambda>ca.
     bindE (key_of K (PStr SPIFFE_LEAF_AID)) (\<lambda>leaf.
     ensure (is_str subject) (Inl TypeError) (
     ensure (list_all (\<lambda>c. c < 128) (the_str subject)) (Inl ValueError) (
       Inr (std_b64_encode (B \<lparr>cr_subject = ''aitp-test-svid'', cr_issuer = ''aitp-test-spiffe-ca'', cr_public = ko_public (sk_key leaf),
             cr_serial = 2, cr_not_before = now - 60, cr_not_after = now + 3600, cr_ca = False,
             cr_key_usage = [True, False, False, False, False, False, False, False, False],
             cr_uris = the_str subject # extra\<rparr> (sk_key ca))))))))"

definition jwt_svid_variant :: "pyval \<Rightarrow> int \<Rightarrow> dict \<Rightarrow> dict res" where
  "jwt_svid_variant placeholder now cl =
     (if placeholder = PStr (u ''__JWT_SVID_WRONG_NONCE__'') then Inr (put cl (u ''nonce'') (PStr SPIFFE_WRONG_NONCE))
      else if placeholder = PStr (u ''__JWT_SVID_EXPIRED__'') then
        Inr (put (put cl (u ''iat'') (PInt (now - 360))) (u ''exp'') (PInt (now - 60)))
      else if placeholder = PStr (u ''__JWT_SVID_AUD_DIFFERENT_PEER__'') then Inr (put cl (u ''aud'') (PList [PStr OTHER_AID]))
      else if placeholder \<in> {PStr (u ''__VALID_JWT_SVID__''), PStr (u ''__JWT_SVID_STAGING_SUBJECT_PROD_KEY__'')} then Inr cl
      else Inl MinterError)"

definition mint_jwt_svid :: "crypto \<Rightarrow> signing_api \<Rightarrow> pyval \<Rightarrow> dict \<Rightarrow> dict \<Rightarrow> dict \<Rightarrow> int \<Rightarrow> ustr res" where
  "mint_jwt_svid C S placeholder identity env inp now =
     bindE (item identity (u ''subject'')) (\<lambda>subject.
     bindE (env_pop_nonce env) (\<lambda>nonce.
     bindE (env_sender env) (\<lambda>sender.
     bindE (jkt_for C sender) (\<lambda>jkt.
     bindE (jwt_svid_variant placeholder now
              [(u ''sub'', subject), (u ''aud'', PList [get inp (u ''self_aid'')]), (u ''iat'', PInt now),
               (u ''exp'', PInt (now + 300)), (u ''nonce'', nonce), (u ''cnf'', PDict [(u ''jkt'', PStr jkt)])]) (\<lambda>cl.
       json_jws [(u ''alg'', PStr (u ''ES256'')), (u ''kid'', PStr SPIFFE_JWT_KID), (u ''typ'', PStr (u ''JWT''))] cl
         (\<lambda>raw. bindE (spiffe_key S ''jwt-authority'') (\<lambda>k. Inr (sign_jose C k raw))))))))"

definition mint_spiffe_identity ::
  "crypto \<Rightarrow> signing_api \<Rightarrow> cert_builder \<Rightarrow> dict \<Rightarrow> dict \<Rightarrow> dict \<Rightarrow> kat_keys \<Rightarrow> int \<Rightarrow> dict res" where
  "mint_spiffe_identity C S B identity env inp K now =
     bindE (case get identity (u ''x5c'') of
              PList cs \<Rightarrow>
                bindE (mapE (\<lambda>c. if starts_with ''__'' c then
                          bindE (item identity (u ''subject'')) (\<lambda>subject.
                          bindE (mint_x509_svid S B c subject K now) (\<lambda>t. Inr (PStr t)))
                        else Inr c) cs) (\<lambda>cs. Inr (put identity (u ''x5c'') (PList cs)))
            | _ \<Rightarrow> Inr identity) (\<lambda>identity.
     let pr = get identity (u ''proof'') in
     if \<not> starts_with ''__'' pr then Inr identity
     else if get identity (u ''svid_type'') = PStr (u ''jwt-svid'') then
       bindE (mint_jwt_svid C S pr identity env inp now) (\<lambda>t. Inr (put identity (u ''proof'') (PStr t)))
     else if pr = PStr (u ''__VALID_X509_SVID_PROOF__'') then
       bindE (env_sender env) (\<lambda>sender.
       bindE (item env (u ''message_id'')) (\<lambda>mid.
       bindE (item env (u ''timestamp'')) (\<lambda>ts.
       bindE (py_int ts) (\<lambda>t.
       bindE (item env (u ''payload'')) (\<lambda>payload.
       bindE (subscript payload (u ''pop_nonce'')) (\<lambda>nonce.
       bindE (proof_input_values SPIFFE_X509_DOMAIN sender (get_or (PStr []) inp (u ''self_aid'')) mid (PInt t) nonce) (\<lambda>data.
       bindE (key_of K (PStr SPIFFE_LEAF_AID)) (\<lambda>k.
         Inr (put identity (u ''proof'') (PStr (env_wire_sig C k (sha256 data))))))))))))
     else Inl MinterError)"

section \<open>Inputs\<close>

text \<open>The parameters of the minter: the package, its key derivation and its certificate builder\<close>

record mint_env =
  me_crypto :: crypto
  me_signing :: signing_api
  me_builder :: cert_builder
  me_keys :: kat_keys

text \<open>The identity of a handshake payload; the envelope is read, not changed.\<close>

definition mint_identity :: "mint_env \<Rightarrow> pyval \<Rightarrow> dict \<Rightarrow> dict \<Rightarrow> int \<Rightarrow> pyval res" where
  "mint_identity M v env inp now =
     (if \<not> is_dict v then Inr v
      else
        (let d = the_dict v; pr = get d (u ''proof'') in
         bindE (if \<not> starts_with ''__'' pr then Inr d
                else if get d (u ''type'') = PStr (u ''oidc'') then
                  bindE (corpus_issuer_key pr (get d (u ''issuer'')) (me_keys M)) (\<lambda>k.
                  bindE (mint_oidc_jwt (me_crypto M) (me_signing M) pr d env inp now (u ''EdDSA'') None (Some (sign_jose (me_crypto M) k)))
                    (\<lambda>t. Inr (put d (u ''proof'') (PStr t))))
                else if get d (u ''type'') = PStr (u ''pinned_key'') then
                  bindE (mint_pinned_proof (me_crypto M) pr env inp (me_keys M)) (\<lambda>t. Inr (put d (u ''proof'') (PStr t)))
                else Inr d) (\<lambda>d.
         bindE (if get d (u ''type'') = PStr (u ''spiffe'') then
                  mint_spiffe_identity (me_crypto M) (me_signing M) (me_builder M) d env inp (me_keys M) now
                else Inr d) (\<lambda>d. Inr (PDict d)))))"

text \<open>\<open>payload[base]\<close>, when it is a placeholder with a \<open>_claims\<close> sibling\<close>

definition mint_field :: "mint_env \<Rightarrow> int \<Rightarrow> dict \<Rightarrow> string \<Rightarrow> dict res" where
  "mint_field M now d base = mint_member (mint_token (me_crypto M) (me_keys M) now) d (u base)"

definition handshake_self_nonce :: "dict \<Rightarrow> pyval" where
  "handshake_self_nonce inp =
     py_or (py_or (get inp (u ''self_pop_nonce_sent_in_hello_ack'')) (get inp (u ''self_pop_nonce_sent_in_hello'')))
       (get inp (u ''self_pop_nonce''))"

definition mint_payload :: "mint_env \<Rightarrow> dict \<Rightarrow> dict \<Rightarrow> dict \<Rightarrow> int \<Rightarrow> dict res" where
  "mint_payload M payload env inp now =
     bindE (case get payload (u ''manifest'') of
              PDict man \<Rightarrow> bindE (sign_manifest (me_crypto M) (me_keys M) man) (\<lambda>m. Inr (put payload (u ''manifest'') (PDict m)))
            | _ \<Rightarrow> Inr payload) (\<lambda>payload.
     bindE (mint_identity M (get payload (u ''identity'')) env inp now) (\<lambda>id.
     let payload = (if has payload (u ''identity'') then put payload (u ''identity'') id else payload) in
     bindE (mint_field M now payload ''tct'') (\<lambda>payload.
     bindE (env_sender env) (\<lambda>sender.
     bindE (mint_pop_signature (me_crypto M) payload sender (handshake_self_nonce inp) (me_keys M)) (\<lambda>payload.
       Inr (strip_claims payload))))))"

text \<open>A missing payload is a fresh dictionary that the envelope never holds.\<close>

definition mint_handshake :: "mint_env \<Rightarrow> dict \<Rightarrow> int \<Rightarrow> dict res" where
  "mint_handshake M inp now =
     (let env = the_dict (get inp (u ''envelope'')); payload = get_or (PDict []) env (u ''payload'') in
      ensure (is_dict payload) (Inl AttributeError) (
      bindE (mint_payload M (the_dict payload) env inp now) (\<lambda>payload.
      let env = (if has env (u ''payload'') then put env (u ''payload'') (PDict payload) else env) in
      bindE (if starts_with ''__VALID_ENVELOPE_SIG__'' (get env (u ''signature'')) then sign_envelope (me_crypto M) (me_keys M) env
             else Inr env) (\<lambda>env. Inr (put inp (u ''envelope'') (PDict env))))))"

definition mint_participant :: "mint_env \<Rightarrow> int \<Rightarrow> pyval \<Rightarrow> pyval res" where
  "mint_participant M now p =
     ensure (is_dict p) (Inl AttributeError) (
     bindE (mint_field M now (the_dict p) ''tct'') (\<lambda>d. Inr (PDict (strip_claims d))))"

definition mint_bundle :: "mint_env \<Rightarrow> dict \<Rightarrow> int \<Rightarrow> dict res" where
  "mint_bundle M outer now =
     (let v = get outer (u ''session_bundle'') in
      ensure (is_dict v) (Inl AttributeError) (
      let body = the_dict v; ps = get_or (PList []) body (u ''participants'') in
      bindE (py_iter ps) (\<lambda>entries.
      bindE (mapE (mint_participant M now) entries) (\<lambda>es.
      let body = (if has body (u ''participants'') \<and> is_list ps then put body (u ''participants'') (PList es) else body) in
      bindE (if get body (u ''signature'') = PStr (u ''__VALID_A_SIG__'') then
               bindE (item body (u ''coordinator'')) (\<lambda>c.
               bindE (key_of (me_keys M) c) (\<lambda>k.
               bindE (canonicalize (PDict (without (u ''signature'') body))) (\<lambda>b.
                 Inr (put body (u ''signature'') (PStr (env_wire_sig (me_crypto M) k (sha256 b)))))))
             else Inr body) (\<lambda>body. Inr (put outer (u ''session_bundle'') (PDict body)))))))"

definition peer_nonce :: "pyval \<Rightarrow> ustr res" where
  "peer_nonce self_aid =
     bindE (str_of self_aid) (\<lambda>s. bindE (utf8_encode s) (\<lambda>b.
       Inr (b64url_encode (take 16 (sha256 (ub ''aitp-conformance-nonce:'' @ b))))))"

definition fill_nonce :: "ustr \<Rightarrow> dict \<Rightarrow> string \<Rightarrow> dict" where
  "fill_nonce nonce peer k =
     (if get peer (u k) = PStr (u ''__VALID_NONCE__'') then put peer (u k) (PStr nonce) else peer)"

definition mint_peer :: "mint_env \<Rightarrow> dict \<Rightarrow> int \<Rightarrow> dict res" where
  "mint_peer M peer now =
     (let v = get_or (PDict []) peer (u ''received_payload'') in
      bindE (item peer (u ''self_aid'')) (\<lambda>self_aid.
      bindE (peer_nonce self_aid) (\<lambda>nonce.
      let peer = foldl (fill_nonce nonce) peer [''self_pop_nonce_sent_in_hello'', ''self_pop_nonce_sent_in_hello_ack'', ''self_pop_nonce''] in
      ensure (is_dict v) (Inl AttributeError) (
      bindE (dict_get (get_or (PDict []) (the_dict v) (u ''tct_claims'')) (u ''iss'')) (\<lambda>issuer.
      bindE (foldE (mint_field M now) (the_dict v) [''tct'', ''grant_voucher'']) (\<lambda>payload.
      bindE (if get payload (u ''pop_signature'') = PStr (u ''__VALID_POP_SIG__'') then has_key (me_keys M) issuer else Inr False) (\<lambda>known.
      bindE (if known then
               bindE (key_of (me_keys M) issuer) (\<lambda>k.
               bindE (b64url_decode nonce) (\<lambda>n.
                 Inr (put payload (u ''pop_signature'') (PStr (b64url_encode (sign_digest (me_crypto M) k (sha256 n)))))))
             else Inr payload) (\<lambda>payload.
      let payload = (if get payload (u ''pop_nonce_echo'') = PStr (u ''__VALID_NONCE_ECHO__'')
                     then put payload (u ''pop_nonce_echo'') (PStr nonce) else payload);
          payload = strip_claims payload in
      Inr (if has peer (u ''received_payload'') then put peer (u ''received_payload'') (PDict payload) else peer)))))))))"

text \<open>\<open>f\<close> on the member \<open>k\<close>, when it is an object\<close>

definition on_dict :: "(dict \<Rightarrow> dict res) \<Rightarrow> dict \<Rightarrow> string \<Rightarrow> dict res" where
  "on_dict f d k =
     (case get d (u k) of PDict x \<Rightarrow> bindE (f x) (\<lambda>y. Inr (put d (u k) (PDict y))) | _ \<Rightarrow> Inr d)"

definition sign_manifest_value :: "mint_env \<Rightarrow> pyval \<Rightarrow> pyval res" where
  "sign_manifest_value M v =
     (case v of PDict m \<Rightarrow> bindE (sign_manifest (me_crypto M) (me_keys M) m) (\<lambda>m. Inr (PDict m)) | _ \<Rightarrow> Inr v)"

definition sign_record :: "mint_env \<Rightarrow> pyval \<Rightarrow> pyval res" where
  "sign_record M v =
     (if is_dict v then bindE (on_dict (sign_revocation (me_crypto M) (me_keys M)) (the_dict v) ''snapshot'') (\<lambda>d. Inr (PDict d))
      else Inr v)"

definition sign_holder :: "mint_env \<Rightarrow> dict \<Rightarrow> string \<Rightarrow> dict res" where
  "sign_holder M d k =
     on_dict (\<lambda>node. if is_dict (get node (u ''snapshot'')) then on_dict (sign_revocation (me_crypto M) (me_keys M)) node ''snapshot''
                     else if has node (u ''revocation_list'') then sign_revocation (me_crypto M) (me_keys M) node else Inr node) d k"

text \<open>The elements of a list member, rewritten in place\<close>

definition on_elements :: "(pyval \<Rightarrow> pyval res) \<Rightarrow> dict \<Rightarrow> string \<Rightarrow> dict res" where
  "on_elements f d k =
     (case get d (u k) of PList xs \<Rightarrow> bindE (mapE f xs) (\<lambda>ys. Inr (put d (u k) (PList ys))) | _ \<Rightarrow> Inr d)"

definition mint_input :: "mint_env \<Rightarrow> dict \<Rightarrow> int \<Rightarrow> dict res" where
  "mint_input M inp now =
     bindE (mint_members (mint_token (me_crypto M) (me_keys M) now) (the_dict (resolve_times now (PDict inp)))) (\<lambda>d.
     bindE (on_dict (\<lambda>c. mint_spiffe_bundles (me_signing M) (me_builder M) c now) d ''trust_anchors_config'') (\<lambda>d.
     bindE (if is_dict (get d (u ''envelope'')) then mint_handshake M d now else Inr d) (\<lambda>d.
     bindE (foldE (on_dict (\<lambda>peer. mint_peer M peer now)) d [''peer_a'', ''peer_b'']) (\<lambda>d.
     bindE (on_dict (\<lambda>outer. if has outer (u ''session_bundle'') then mint_bundle M outer now else Inr outer) d ''session_bundle'') (\<lambda>d.
     bindE (on_dict (sign_manifest (me_crypto M) (me_keys M)) d ''manifest'') (\<lambda>d.
     bindE (on_dict (sign_manifest (me_crypto M) (me_keys M)) d ''coordinator_manifest'') (\<lambda>d.
     bindE (on_elements (sign_manifest_value M) d ''issuer_manifests'') (\<lambda>d.
     bindE (foldE (sign_holder M) d [''snapshot'', ''issuer_revocation_list'']) (\<lambda>d.
     bindE (py_iter (py_or (get_or (PList []) d (u ''revocation_snapshots'')) (PList []))) (\<lambda>records.
       on_elements (sign_record M) d ''revocation_snapshots''))))))))))"

end
