(* ===== verification/Harness.thy ===== *)
theory Harness
  imports Verify Minter
begin

text \<open>
  \<open>aitp_verifier/harness.py\<close>: the conventions that map a minted fixture input onto a verifier's
  input, and \<open>run_operation\<close>. Functions of the source that update the input in place return it.
\<close>

section \<open>Reading what a fixture is about\<close>

definition RUNNER_OIDC_ISSUER :: ustr where
  "RUNNER_OIDC_ISSUER = u ''https://auth.openai.com''"

definition NOT_TESTED :: pyval where
  "NOT_TESTED = PDict [(u ''fail_mode'', PStr (u ''fail_open''))]"

text \<open>The only exception of \<open>parse_compact\<close> is the one caught here (\<open>parse_compact_err\<close>).\<close>

definition unverified_claims :: "pyval \<Rightarrow> dict" where
  "unverified_claims token = (case parse_compact token [] of Inr p \<Rightarrow> claims p | Inl e \<Rightarrow> [])"

text \<open>\<open>d.setdefault(k, v)\<close>\<close>

definition set_default :: "dict \<Rightarrow> string \<Rightarrow> pyval \<Rightarrow> dict" where
  "set_default d k v = (if has d (u k) then d else d @ [(u k, v)])"

text \<open>\<open>int(inp.get("now", REFERENCE_CLOCK))\<close>\<close>

definition input_clock :: "dict \<Rightarrow> int res" where
  "input_clock inp = py_int (get_or (PInt REFERENCE_CLOCK) inp (u ''now''))"

section \<open>Revocation inputs\<close>

text \<open>An empty list of the issuer, to be signed with its key\<close>

definition empty_snapshot :: "int \<Rightarrow> ustr \<Rightarrow> pyval" where
  "empty_snapshot now issuer =
     PDict
       [(u ''issuer_aid'', PStr issuer),
        (u ''snapshot'', PDict
           [(u ''revocation_list'', PDict
               [(u ''version'', PStr PROTOCOL_VERSION), (u ''issuer'', PStr issuer), (u ''published_at'', PInt now),
                (u ''expires_at'', PInt (now + 3600)), (u ''entries'', PList [])]),
            (u ''signature'', PStr (u ''__VALID_B_SIG__''))])]"

text \<open>\<open>dict.fromkeys\<close>: the first occurrence of every element\<close>

definition first_occurrences :: "'a list \<Rightarrow> 'a list" where
  "first_occurrences xs = rev (remdups (rev xs))"

definition uncovered_issuers :: "dict \<Rightarrow> pyval list \<Rightarrow> (int \<times> ustr list) res" where
  "uncovered_issuers inp snaps =
     (let cl = unverified_claims (get inp (u ''delegation_token''));
          hop_issuers = (case get cl (u ''chain'') of PList hops \<Rightarrow> map (\<lambda>h. get (unverified_claims h) (u ''iss'')) hops | _ \<Rightarrow> []);
          covered = map (\<lambda>r. get (the_dict r) (u ''issuer_aid'')) (filter is_dict snaps);
          candidates = [get inp (u ''self_aid''), get cl (u ''iss'')] @ hop_issuers in
      ensure (list_all hashable covered) (Inl TypeError) (
      bindE (input_clock inp) (\<lambda>now.
      ensure (list_all hashable candidates) (Inl TypeError) (
        Inr (now, first_occurrences (map the_str (filter (\<lambda>a. is_str a \<and> a \<notin> set covered) candidates)))))))"

definition cover_unsupplied_issuers :: "mint_env \<Rightarrow> dict \<Rightarrow> dict res" where
  "cover_unsupplied_issuers M inp =
     (case get inp (u ''revocation_snapshots'') of
        PList snaps \<Rightarrow>
          bindE (uncovered_issuers inp snaps) (\<lambda>(now, issuers).
          if issuers = [] then Inr inp
          else
            bindE (mint_input M [(u ''revocation_snapshots'', PList (map (empty_snapshot now) issuers))] now) (\<lambda>minted.
            bindE (item minted (u ''revocation_snapshots'')) (\<lambda>v.
            bindE (py_iter v) (\<lambda>signed.
              Inr (put inp (u ''revocation_snapshots'') (PList (snaps @ signed)))))))
      | _ \<Rightarrow> Inr inp)"

definition revocation_list_conventions :: "dict \<Rightarrow> dict \<Rightarrow> dict res" where
  "revocation_list_conventions out revlist =
     (let mode = get revlist (u ''fail_mode'');
          available = get_or (PBool True) revlist (u ''available'');
          revlist = without (u ''available'') (without (u ''fail_mode'') revlist) in
      bindE (case available of
               PBool True \<Rightarrow> Inr (put out (u ''issuer_revocation_list'') (PDict revlist))
             | PBool False \<Rightarrow>
                 ensure (\<not> has revlist (u ''snapshot'')) (Inl FixtureError) (Inr (without (u ''issuer_revocation_list'') out))
             | _ \<Rightarrow> Inl FixtureError) (\<lambda>out.
        Inr (if mode = PNone then out else set_default out ''policy'' (PDict [(u ''fail_mode'', mode)]))))"

definition revocation_conventions :: "ustr \<Rightarrow> dict \<Rightarrow> dict res" where
  "revocation_conventions op inp =
     (if op = u ''verify_delegation_token'' then
        Inr (if has inp (u ''revocation_snapshots'') then inp else set_default inp ''policy'' NOT_TESTED)
      else if op \<notin> {u ''verify_tct'', u ''verify_attestation'', u ''verify_tct_as_issuer''} then Inr inp
      else
        (case get inp (u ''issuer_revocation_list'') of
           PNone \<Rightarrow> Inr (set_default inp ''policy'' NOT_TESTED)
         | PDict revlist \<Rightarrow> revocation_list_conventions inp revlist
         | _ \<Rightarrow> Inr inp))"

section \<open>Handshake inputs\<close>

text \<open>\<open>v.get(k, {})\<close>\<close>

definition get_obj :: "pyval \<Rightarrow> string \<Rightarrow> pyval res" where
  "get_obj v k = (case v of PDict d \<Rightarrow> Inr (get_or (PDict []) d (u k)) | _ \<Rightarrow> Inl AttributeError)"

definition receiver_policy :: "dict \<Rightarrow> bool \<Rightarrow> dict res" where
  "receiver_policy inp accept_presented_type =
     (let inp = set_default inp ''self_trust_anchors'' (PList [PStr RUNNER_OIDC_ISSUER]) in
      bindE (get_obj (PDict inp) ''envelope'') (\<lambda>env.
      bindE (get_obj env ''payload'') (\<lambda>payload.
      bindE (dict_get payload (u ''identity'')) (\<lambda>identity.
        Inr (if accept_presented_type \<and> is_dict identity
             then set_default inp ''self_accepted_identity_types'' (PList [get (the_dict identity) (u ''type'')])
             else inp)))))"

definition issuer_resolver :: "kat_keys \<Rightarrow> dict res" where
  "issuer_resolver K =
     mapE (\<lambda>(issuer, key_id). bindE (key_of K (PStr key_id)) (\<lambda>k. Inr (issuer, PStr (b64url_encode (raw_public k))))) OIDC_ISSUER_KEY_IDS"

text \<open>\<open>set(xs) & set(ys)\<close> is not empty\<close>

definition py_disjoint :: "pyval list \<Rightarrow> pyval list \<Rightarrow> bool" where
  "py_disjoint xs ys = list_all (\<lambda>x. \<not> list_ex (py_eq x) ys) xs"

definition pop_required :: "dict \<Rightarrow> pyval \<Rightarrow> bool res" where
  "pop_required inp cl =
     bindE (get_obj (PDict inp) ''issuer_policy'') (\<lambda>policy.
     bindE (dict_get policy (u ''pop_posture'')) (\<lambda>posture.
     if posture = PStr (u ''enforce-for-all'') then Inr True
     else
       bindE (dict_get cl (u ''iss'')) (\<lambda>iss.
       if py_eq (get inp (u ''self_aid'')) iss then Inr True
       else
         bindE (py_set (get_or (PList []) (the_dict policy) (u ''pop_required_grants''))) (\<lambda>marked.
         bindE (py_set (get_or (PList []) (the_dict cl) (u ''grants''))) (\<lambda>grants.
           Inr (\<not> py_disjoint marked grants))))))"

section \<open>Running an operation\<close>

text \<open>\<open>(None, result)\<close> or \<open>(code, message)\<close>\<close>

datatype outcome = Accepted pyval | Refused string

definition run_operation :: "mint_env \<Rightarrow> svid_api \<Rightarrow> ustr \<Rightarrow> dict \<Rightarrow> bool \<Rightarrow> outcome res" where
  "run_operation M V op inp accept_presented_type =
     bindE (if op = u ''verify_delegation_token'' then cover_unsupplied_issuers M inp else Inr inp) (\<lambda>inp.
     bindE (revocation_conventions op inp) (\<lambda>inp.
     bindE (if op = u ''verify_handshake_payload'' then
              bindE (receiver_policy inp accept_presented_type) (\<lambda>inp.
              bindE (issuer_resolver (me_keys M)) (\<lambda>r. Inr (set_default inp ''resolved_issuer_keys'' (PDict r))))
            else Inr inp) (\<lambda>inp.
     bindE (input_clock inp) (\<lambda>now.
     (case map_of (OPERATIONS (me_crypto M) V) op of
        None \<Rightarrow> Inl KeyError
      | Some verify \<Rightarrow>
          (case verify inp now of
             Inr result \<Rightarrow> Inr (Accepted result)
           | Inl (AitpError code r) \<Rightarrow> Inr (Refused code)
           | Inl e \<Rightarrow> Inl e))))))"

section \<open>An issuer without a snapshot reads not revoked\<close>

lemma env_wire_sig_decodes:
  assumes "honest_signer C k" and "aid_key a = public_key_of k" and "parse_aid C s = Inr a"
  shows "decode_tagged_signature (PStr (env_wire_sig C k digest)) a c = Inr (sign_digest C k digest)"
proof -
  have alg: "aid_alg a = sk_alg k" using parse_aid_wf(3) [OF assms(3)] assms(2) by (simp add: public_key_of_def)
  have b: "b64url_decode (b64url_encode (sign_digest C k digest)) = Inr (sign_digest C k digest)"
    by (rule b64url_decode_encode)
  have "46 \<notin> set (b64url_encode (sign_digest C k digest))" using no_dot_b64 [OF b] .
  moreover have "partition_at 46 (u ''p256.'' @ t) = (u ''p256'', t)" for t
    using partition_at_append [of 46 "u ''p256''" t] by (simp add: u_def)
  ultimately show ?thesis
    using honest_alg [OF assms(1)] sign_digest_length [OF assms(1), of digest]
    by (auto simp: decode_tagged_signature_def decode_tagged_signature_for_def env_wire_sig_def Let_def b alg
        ALG_ED25519_def ALG_P256_def ensure_def u_Cons)
qed

text \<open>The body of an empty snapshot\<close>

definition empty_body :: "int \<Rightarrow> ustr \<Rightarrow> dict" where
  "empty_body now issuer =
     [(u ''version'', PStr PROTOCOL_VERSION), (u ''issuer'', PStr issuer), (u ''published_at'', PInt now),
      (u ''expires_at'', PInt (now + 3600)), (u ''entries'', PList [])]"

lemma aid_no_time: "parse_aid C s = Inr a \<Longrightarrow> resolve_time now s = PStr s"
proof -
  assume "parse_aid C s = Inr a"
  then obtain rest where "s = u ''aid:pubkey:'' @ rest"
    by (auto simp: parse_aid_def ok_simps split: option.splits)
  then show ?thesis by (simp add: resolve_time_def u_Cons)
qed

lemma resolve_empty_snapshot:
  "parse_aid C issuer = Inr a \<Longrightarrow> resolve_times t (empty_snapshot now issuer) = empty_snapshot now issuer"
proof -
  assume "parse_aid C issuer = Inr a"
  moreover have "resolve_time t (u ''__VALID_B_SIG__'') = PStr (u ''__VALID_B_SIG__'')"
    by (simp add: resolve_time_def u_Cons)
  moreover have "resolve_time t PROTOCOL_VERSION = PStr PROTOCOL_VERSION"
    by (simp add: resolve_time_def PROTOCOL_VERSION_def u_Cons)
  ultimately show ?thesis by (simp add: empty_snapshot_def aid_no_time)
qed

lemma signed_snapshot_trusted:
  assumes "sign_record M (empty_snapshot now issuer) = Inr v"
    and "parse_aid (me_crypto M) issuer = Inr a" and "me_keys M issuer = Some k" and "aid_key a = public_key_of k"
    and "honest_signer (me_crypto M) k"
  shows "\<exists>snap. v = PDict [(u ''issuer_aid'', PStr issuer), (u ''snapshot'', snap)] \<and>
    verify_snapshot_trust (me_crypto M) snap = Inr (empty_body now issuer)"
proof -
  have eb: "has (empty_body now issuer) (u ''issuer'')" "get (empty_body now issuer) (u ''issuer'') = PStr issuer"
    by (simp_all add: empty_body_def)
  let ?signed = "\<lambda>b. PDict [(u ''revocation_list'', PDict (empty_body now issuer)), (u ''signature'', PStr (env_wire_sig (me_crypto M) k (sha256 b)))]"
  obtain b where b: "canonicalize (PDict (empty_body now issuer)) = Inr b"
    and v: "v = PDict [(u ''issuer_aid'', PStr issuer), (u ''snapshot'', ?signed b)]"
    using assms(1,3)
    by (auto simp: sign_record_def on_dict_def empty_snapshot_def sign_revocation_def key_of_def has_key_def hashable_def ok_simps eb
        simp flip: empty_body_def)
  have "validate_shape (?signed b) = Inr (empty_body now issuer)"
    by (simp add: validate_shape_def empty_body_def require_members_def SNAPSHOT_FIELDS_def
        REQUIRED_BODY_FIELDS_def check_types_def BODY_TYPES_def type_ok_def)
  moreover have "reject_unknown_fields SNAPSHOT_FIELDS SNAPSHOT_INVALID (?signed b) = Inr ()"
    "reject_unknown_fields BODY_FIELDS SNAPSHOT_INVALID (PDict (empty_body now issuer)) = Inr ()"
    by (simp_all add: reject_unknown_fields_def SNAPSHOT_FIELDS_def BODY_FIELDS_def empty_body_def)
  moreover have "get (empty_body now issuer) (u ''entries'') = PList []" by (simp add: empty_body_def)
  moreover have "canonical_bytes SNAPSHOT_INVALID (PDict (empty_body now issuer)) = Inr b" by (simp add: canonical_bytes_def b)
  ultimately have "verify_snapshot_trust (me_crypto M) (?signed b) = Inr (empty_body now issuer)"
    using assms(2) env_wire_sig_decodes [OF assms(5,4,2)] sign_digest_verifies [OF assms(5)]
    by (simp add: verify_snapshot_trust_def eb assms(4))
  then show ?thesis using v by blast
qed

lemma mint_snapshots:
  "mint_input M [(u ''revocation_snapshots'', PList rs)] now =
     bindE (mapE (sign_record M) (map (resolve_times now) rs)) (\<lambda>ys. Inr [(u ''revocation_snapshots'', PList ys)])"
  by (simp add: mint_input_def mint_members_def mint_member_def Let_def on_dict_def sign_holder_def on_elements_def py_or_def)


definition sample_mint :: mint_env where
  "sample_mint =
     \<lparr>me_crypto = sample_crypto, me_signing = \<lparr>seed_key = \<lambda>s. None, scalar_key = \<lambda>n. None\<rparr>, me_builder = \<lambda>r k. [],
      me_keys = sample_keys\<rparr>"

definition uncovered_input :: dict where
  "uncovered_input = [(u ''self_aid'', PStr (ed_aid (key_no 0))), (u ''revocation_snapshots'', PList [])]"

lemma uncovered_sample: "uncovered_issuers uncovered_input [] = Inr (REFERENCE_CLOCK, [ed_aid (key_no 0)])"
proof -
  have "unverified_claims PNone = []" by (simp add: unverified_claims_def parse_compact_def raise_def)
  then show ?thesis
    by (simp add: uncovered_issuers_def uncovered_input_def Let_def input_clock_def hashable_def first_occurrences_def)
qed

lemma empty_snapshot_signed:
  "\<exists>v. sign_record sample_mint (empty_snapshot REFERENCE_CLOCK (ed_aid (key_no 0))) = Inr v"
proof -
  have "plain (PDict (empty_body REFERENCE_CLOCK (ed_aid (key_no 0))))" by (simp add: empty_body_def REFERENCE_CLOCK_def)
  then obtain b where "canonicalize (PDict (empty_body REFERENCE_CLOCK (ed_aid (key_no 0)))) = Inr b"
    using canonicalize_plain [of "PDict (empty_body REFERENCE_CLOCK (ed_aid (key_no 0)))"]
    by (auto simp: empty_body_def max_depth_def max_nodes_visited_def)
  moreover have "item (empty_body REFERENCE_CLOCK (ed_aid (key_no 0))) (u ''issuer'') = Inr (PStr (ed_aid (key_no 0)))"
    by (simp add: empty_body_def)
  ultimately show ?thesis
    by (simp add: sign_record_def on_dict_def empty_snapshot_def sign_revocation_def key_of_def has_key_def hashable_def
        sample_mint_def sample_keys_def flip: empty_body_def)
qed


end
