(* ===== verification/Strict_Json.thy ===== *)
theory Strict_Json
  imports Jcs
begin

text \<open>
  What strict parsing returns: \<open>jcs.loads\<close> and the adapter's request parser refuse a
  duplicate member name at any depth, so every value they return is well-formed.
\<close>

section \<open>Hooks that refuse duplicate names\<close>

definition strict_hook :: "pairs_hook \<Rightarrow> bool" where
  "strict_hook ph \<longleftrightarrow> (\<forall>m d. ph m = Inr d \<longrightarrow> d = m \<and> distinct (map fst m))"

lemma reject_duplicate_keys_loop_strict:
  "reject_duplicate_keys_loop obj ps = Inr d \<Longrightarrow> distinct (map fst obj) \<Longrightarrow> d = obj @ ps \<and> distinct (map fst (obj @ ps))"
proof (induction ps arbitrary: obj)
  case (Cons p ps)
  obtain k v where p: "p = (k, v)" by (cases p)
  then have "\<not> has obj k" "reject_duplicate_keys_loop (obj @ [(k, v)]) ps = Inr d"
    using Cons.prems(1) by (simp_all add: ok_simps)
  moreover from this have "distinct (map fst (obj @ [(k, v)]))" using Cons.prems(2) by (auto simp: has_def)
  ultimately show ?case using Cons.IH [of "obj @ [(k, v)]"] by (simp add: p)
qed simp

lemma reject_duplicate_keys_strict: "strict_hook reject_duplicate_keys"
  using reject_duplicate_keys_loop_strict [of "[]"] by (auto simp: strict_hook_def reject_duplicate_keys_def)

section \<open>Parsed values\<close>

lemma first_match_result: "first_match ps s = Some (Inr (v, r)) \<Longrightarrow> \<exists>p \<in> set ps. snd p = Inr v"
  by (induction ps s rule: first_match.induct) (auto simp: ok_simps split: option.splits)

lemma scan_const_result:
  assumes "scan_const ch s = Some (Inr (v, r))"
  shows "v \<in> {PNone, PBool True, PBool False} \<or> (\<exists>n. ch n = Inr v)"
  using first_match_result [OF assms [unfolded scan_const_def]] by auto

lemma scan_scalar_wf:
  assumes "scan_scalar ch c r = Inr (v, r')" and "\<And>n v. ch n = Inr v \<Longrightarrow> wf_val v"
  shows "wf_val v"
proof (cases "scan_const ch (c # r)")
  case None
  then have "scan_number (c = 45) (if c = 45 then r else c # r) = Inr (v, r')" using assms(1) by (auto simp: scan_scalar_def)
  then show ?thesis by (auto simp: scan_number_def Let_def split: option.splits prod.splits if_splits)
next
  case (Some m)
  then have "scan_const ch (c # r) = Some (Inr (v, r'))" using assms(1) by (simp add: scan_scalar_def)
  then show ?thesis using scan_const_result assms(2) by fastforce
qed

lemma parse_wf_all:
  assumes "strict_hook ph" and ch: "\<And>n v. ch n = Inr v \<Longrightarrow> wf_val v"
  shows "(\<forall>s v r. parse_value f ph ch s = Inr (v, r) \<longrightarrow> wf_val v) \<and>
    (\<forall>acc s v r. (\<forall>p \<in> set acc. wf_val (snd p)) \<longrightarrow> parse_members f ph ch acc s = Inr (v, r) \<longrightarrow> wf_val v) \<and>
    (\<forall>acc s v r. (\<forall>x \<in> set acc. wf_val x) \<longrightarrow> parse_elements f ph ch acc s = Inr (v, r) \<longrightarrow> wf_val v)"
proof (induction f)
  case (Suc f)
  then have IH: "\<And>s v r. parse_value f ph ch s = Inr (v, r) \<Longrightarrow> wf_val v"
    "\<And>acc s v r. parse_members f ph ch acc s = Inr (v, r) \<Longrightarrow> \<forall>p \<in> set acc. wf_val (snd p) \<Longrightarrow> wf_val v"
    "\<And>acc s v r. parse_elements f ph ch acc s = Inr (v, r) \<Longrightarrow> \<forall>x \<in> set acc. wf_val x \<Longrightarrow> wf_val v"
    by blast+
  have dict: "wf_val (PDict d)" if "ph m = Inr d" "\<forall>p \<in> set m. wf_val (snd p)" for m d
    using assms(1) that by (auto simp: strict_hook_def)
  have "wf_val v" if "parse_value (Suc f) ph ch s = Inr (v, r)" for s v r
    using that by (auto simp: ok_simps split: if_splits dest: scan_scalar_wf [OF _ ch] dict IH(2,3))
  moreover have "wf_val v" if "parse_members (Suc f) ph ch acc s = Inr (v, r)" "\<forall>p \<in> set acc. wf_val (snd p)" for acc s v r
    using that by (auto simp: ok_simps split: if_splits dest!: IH(1) dict elim!: IH(2))
  moreover have "wf_val v" if "parse_elements (Suc f) ph ch acc s = Inr (v, r)" "\<forall>x \<in> set acc. wf_val x" for acc s v r
    using that by (auto simp: ok_simps split: if_splits dest!: IH(1) elim!: IH(3))
  ultimately show ?case by blast
qed simp

lemma json_loads_wf:
  "strict_hook ph \<Longrightarrow> (\<And>n v. ch n = Inr v \<Longrightarrow> wf_val v) \<Longrightarrow> json_loads ph ch s = Inr v \<Longrightarrow> wf_val v"
proof -
  assume "strict_hook ph" "\<And>n v. ch n = Inr v \<Longrightarrow> wf_val v"
  then have "parse_value f ph ch t = Inr (v, r) \<Longrightarrow> wf_val v" for f t r using parse_wf_all [of ph ch f] by blast
  then show "json_loads ph ch s = Inr v \<Longrightarrow> wf_val v" by (auto simp: json_loads_def Let_def ok_simps simp del: parse_value.simps)
qed

lemma utf8_decode_nat_err: "utf8_decode_nat ns = Inl e \<Longrightarrow> e = UnicodeError"
proof (induction ns rule: utf8_decode_nat.induct)
  case (2 a bs)
  then show ?case
    by (simp only: utf8_decode_nat.simps(2)) (auto simp: err_simps Let_def split: if_splits list.splits)
qed simp

lemma utf8_decode_err: "utf8_decode b = Inl e \<Longrightarrow> e = UnicodeError"
  unfolding utf8_decode_def by (rule utf8_decode_nat_err)

lemma reject_duplicate_keys_err: "reject_duplicate_keys m = Inl e \<Longrightarrow> e = JcsError"
proof -
  have "reject_duplicate_keys_loop obj m = Inl e \<Longrightarrow> e = JcsError" for obj
    by (induction obj m rule: reject_duplicate_keys_loop.induct) (auto simp: err_simps)
  then show "reject_duplicate_keys m = Inl e \<Longrightarrow> e = JcsError" by (simp add: reject_duplicate_keys_def)
qed


end
