(* ===== verification/Adapter.thy ===== *)
theory Adapter
  imports Harness Strict_Json
begin

text \<open>
  \<open>aitp_verifier/adapter.py\<close>: the adapter the conformance runner drives over standard input and
  output. Its state is a record, a request handler maps a state and a request to a response and a
  state, and \<open>serve\<close> is the loop over the input lines. Log lines and message texts are not
  modelled. The environment is a parameter: how the known-answer keys load, the package version and
  the random bytes of a challenge.
\<close>

section \<open>Requests\<close>

fun no_duplicate_keys_loop :: "dict \<Rightarrow> dict \<Rightarrow> dict res" where
  "no_duplicate_keys_loop out [] = Inr out"
| "no_duplicate_keys_loop out ((key, value) # ps) =
     ensure (\<not> has out key) (Inl MalformedRequest) (no_duplicate_keys_loop (out @ [(key, value)]) ps)"

definition no_duplicate_keys :: pairs_hook where
  "no_duplicate_keys pairs = no_duplicate_keys_loop [] pairs"

definition no_constant :: const_hook where
  "no_constant name = Inl MalformedRequest"

definition parse_request :: "bytes \<Rightarrow> dict res" where
  "parse_request line =
     bindE (catchE (\<lambda>e. e = UnicodeError) (utf8_decode line) (\<lambda>_. Inl MalformedRequest)) (\<lambda>text.
     bindE (catchE (\<lambda>e. e = JSONDecodeError) (json_loads no_duplicate_keys no_constant text) (\<lambda>_. Inl MalformedRequest)) (\<lambda>v.
     ensure (is_dict v) (Inl MalformedRequest) (Inr (the_dict v))))"

section \<open>Responses and state\<close>

text \<open>\<open>_ok\<close> and \<open>_err\<close>; the id, and the result or the code\<close>

datatype response = Ok ustr dict | Err ustr string

fun response_id :: "response \<Rightarrow> ustr" where
  "response_id (Ok rid result) = rid"
| "response_id (Err rid code) = rid"

text \<open>\<open>keys\<close> is \<open>None\<close> until the first use; the other fields are those of \<open>Adapter.__init__\<close>.\<close>

record adapter =
  ad_keys :: "kat_keys option"
  clock :: int
  features :: "ustr list"
  seen_message_ids :: "ustr list"
  challenges :: "pyval list"
  pop_presenter :: "ustr option"
  pop_challenge_issued :: bool

definition begin_fixture :: "adapter \<Rightarrow> adapter" where
  "begin_fixture s =
     s\<lparr>seen_message_ids := [], challenges := [], pop_presenter := None, pop_challenge_issued := False\<rparr>"

definition initial :: adapter where
  "initial =
     \<lparr>ad_keys = None, clock = REFERENCE_CLOCK, features = [], seen_message_ids = [], challenges = [],
      pop_presenter = None, pop_challenge_issued = False\<rparr>"

text \<open>The environment: the keys of the minter are filled in once loaded.\<close>

record adapter_env =
  ae_mint :: mint_env
  ae_svid :: svid_api
  ae_load :: "kat_keys res"
  ae_version :: ustr

definition PROTOCOL :: ustr where
  "PROTOCOL = u ''1''"

definition FEATURE_GATED_OPS :: "(ustr \<times> ustr) list" where
  "FEATURE_GATED_OPS =
     [(u ''verify_delegation_token'', u ''experimental-multihop-delegation''),
      (u ''verify_handshake_payload'', u ''experimental-spiffe-identity'')]"

definition POP_CHALLENGE_TTL_SECS :: int where
  "POP_CHALLENGE_TTL_SECS = 300"

definition session_op_names :: "ustr list" where
  "session_op_names =
     map u [''issue_pop_challenge'', ''produce_pop_response'', ''verify_pop_response'', ''authorize_capability_invocation'',
       ''expect_pop_challenge_issued'', ''withhold_pop_response'']"

definition supported_ops :: "ustr list" where
  "supported_ops =
     map u [''init'', ''shutdown'', ''set_clock'', ''set_features'', ''begin_fixture'', ''process_handshake_message''] @
     operation_names @ session_op_names"

text \<open>The \<open>keys\<close> property: loaded at the first use and kept\<close>

definition use_keys :: "adapter_env \<Rightarrow> adapter \<Rightarrow> kat_keys res \<times> adapter" where
  "use_keys E s =
     (case ad_keys s of
        Some K \<Rightarrow> (Inr K, s)
      | None \<Rightarrow> (case ae_load E of Inr K \<Rightarrow> (Inr K, s\<lparr>ad_keys := Some K\<rparr>) | Inl e \<Rightarrow> (Inl e, s)))"

section \<open>Proof-of-possession sequences\<close>

definition token_claims :: "dict \<Rightarrow> dict" where
  "token_claims params = unverified_claims (get params (u ''tct_token''))"

text \<open>Each session operation: an outcome (with the exception it may raise) and the state it leaves\<close>

type_synonym session_result = "outcome res \<times> adapter"

definition side_effect :: "string \<Rightarrow> bool \<Rightarrow> outcome res" where
  "side_effect k b = Inr (Accepted (PDict [(u ''side_effects'', PDict [(u k, PBool b)])]))"

definition challenge_nonce :: "bytes \<Rightarrow> dict \<Rightarrow> ustr res" where
  "challenge_nonce random params =
     bindE (get_obj (PDict params) ''envelope'') (\<lambda>env.
     bindE (get_obj env ''payload'') (\<lambda>payload.
     bindE (dict_get payload (u ''nonce'')) (\<lambda>nonce.
       Inr (if is_str nonce then the_str nonce else b64url_encode random))))"

definition challenge_record :: "pyval \<Rightarrow> ustr \<Rightarrow> int \<Rightarrow> dict" where
  "challenge_record jti nonce expires =
     [(u ''tct_jti'', jti), (u ''nonce'', PStr nonce), (u ''expires_at'', PInt expires)]"

definition issue_pop_challenge :: "bytes \<Rightarrow> dict \<Rightarrow> adapter \<Rightarrow> session_result" where
  "issue_pop_challenge random params s =
     (case challenge_nonce random params of
        Inl e \<Rightarrow> (Inl e, s)
      | Inr nonce \<Rightarrow>
          (let challenge = challenge_record (get (token_claims params) (u ''jti'')) nonce (clock s + POP_CHALLENGE_TTL_SECS) in
           (Inr (Accepted (PDict [(u ''pop_nonce'', PStr nonce)])),
            s\<lparr>challenges := challenges s @ [PDict challenge], pop_challenge_issued := True\<rparr>)))"

definition pop_input :: "dict \<Rightarrow> pyval list \<Rightarrow> dict" where
  "pop_input params outstanding =
     [(u ''envelope'', get params (u ''envelope'')), (u ''outstanding_pop_challenges'', PList outstanding)]"

definition produce_pop_response :: "crypto \<Rightarrow> dict \<Rightarrow> adapter \<Rightarrow> session_result" where
  "produce_pop_response C params s =
     (case presenter_from_pop C (pop_input params (challenges s)) (token_claims params) (clock s) of
        Inr presenter \<Rightarrow> (Inr (Accepted (PDict [])), s\<lparr>pop_presenter := Some presenter\<rparr>)
      | Inl (AitpError code r) \<Rightarrow> (Inr (Refused code), s\<lparr>pop_presenter := None\<rparr>)
      | Inl e \<Rightarrow> (Inl e, s))"

definition verify_pop_response :: "adapter \<Rightarrow> session_result" where
  "verify_pop_response s =
     (case pop_presenter s of
        None \<Rightarrow> (Inr (Refused ''POP_RESPONSE_INVALID''), s)
      | Some p \<Rightarrow> (Inr (Accepted (PDict [(u ''presenter_aid'', PStr p)])), s))"

definition authorize_capability_invocation :: "dict \<Rightarrow> adapter \<Rightarrow> session_result" where
  "authorize_capability_invocation params s =
     (case pop_required params (PDict (token_claims params)) of
        Inl e \<Rightarrow> (Inl e, s)
      | Inr True \<Rightarrow> (side_effect ''pop_challenge_issued'' True, s\<lparr>pop_challenge_issued := True\<rparr>)
      | Inr False \<Rightarrow> (side_effect ''capability_authorized'' True, s))"

definition expect_pop_challenge_issued :: "adapter \<Rightarrow> session_result" where
  "expect_pop_challenge_issued s = (side_effect ''pop_challenge_issued'' (pop_challenge_issued s), s)"

definition withhold_pop_response :: "adapter \<Rightarrow> session_result" where
  "withhold_pop_response s =
     (if pop_challenge_issued s then (Inr (Refused ''POP_RESPONSE_INVALID''), s)
      else (side_effect ''capability_authorized'' True, s))"

definition session_op :: "crypto \<Rightarrow> bytes \<Rightarrow> ustr \<Rightarrow> dict \<Rightarrow> adapter \<Rightarrow> session_result option" where
  "session_op C random op params s =
     (if op = u ''issue_pop_challenge'' then Some (issue_pop_challenge random params s)
      else if op = u ''produce_pop_response'' then Some (produce_pop_response C params s)
      else if op = u ''verify_pop_response'' then Some (verify_pop_response s)
      else if op = u ''authorize_capability_invocation'' then Some (authorize_capability_invocation params s)
      else if op = u ''expect_pop_challenge_issued'' then Some (expect_pop_challenge_issued s)
      else if op = u ''withhold_pop_response'' then Some (withhold_pop_response s)
      else None)"

section \<open>Dispatch\<close>

text \<open>A response or an exception, and the state either leaves\<close>

type_synonym dispatch_result = "response res \<times> adapter"

definition respond :: "ustr \<Rightarrow> outcome res \<Rightarrow> response res" where
  "respond rid r =
     (case r of
        Inl e \<Rightarrow> Inl e
      | Inr (Accepted v) \<Rightarrow> Inr (Ok rid (the_dict v))
      | Inr (Refused code) \<Rightarrow> Inr (Err rid code))"

definition do_init :: "adapter_env \<Rightarrow> ustr \<Rightarrow> dict \<Rightarrow> adapter \<Rightarrow> dispatch_result" where
  "do_init E rid params s =
     (if get params (u ''version'') \<noteq> PStr PROTOCOL then (Inr (Err rid ''MALFORMED_REQUEST''), s)
      else
        (case use_keys E s of
           (Inl KatKeysError, s) \<Rightarrow> (Inr (Err rid ''ADAPTER_INTERNAL_ERROR''), s)
         | (Inl e, s) \<Rightarrow> (Inl e, s)
         | (Inr K, s) \<Rightarrow>
             (Inr (Ok rid
                [(u ''implementation'', PStr (u ''aitp-verifier-py'')), (u ''version'', PStr (ae_version E)),
                 (u ''repository'', PStr (u ''https://github.com/agentidentitytrustprotocol/aitp-verifier-py'')),
                 (u ''supported_ops'', PList (map PStr supported_ops)), (u ''supported_features'', PList [])]), s)))"

definition do_set_clock :: "ustr \<Rightarrow> dict \<Rightarrow> adapter \<Rightarrow> dispatch_result" where
  "do_set_clock rid params s =
     (let now = get_or (get params (u ''now'')) params (u ''now_unix_secs'') in
      if is_int now then (Inr (Ok rid []), s\<lparr>clock := the_int now\<rparr>) else (Inr (Err rid ''MALFORMED_REQUEST''), s))"

definition do_set_features :: "ustr \<Rightarrow> dict \<Rightarrow> adapter \<Rightarrow> dispatch_result" where
  "do_set_features rid params s =
     (case get_or (PList []) params (u ''features'') of
        PList fs \<Rightarrow>
          (if list_all is_str fs then (Inr (Ok rid []), s\<lparr>features := map the_str fs\<rparr>) else (Inr (Err rid ''MALFORMED_REQUEST''), s))
      | _ \<Rightarrow> (Inr (Err rid ''MALFORMED_REQUEST''), s))"

text \<open>A step that names only a message id exercises the replay check.\<close>

definition replay_step :: "ustr \<Rightarrow> dict \<Rightarrow> bool" where
  "replay_step op params \<longleftrightarrow>
     (op = u ''verify_envelope'' \<or> op = u ''process_handshake_message'') \<and> \<not> has params (u ''envelope'') \<and>
     is_str (get params (u ''message_id''))"

definition do_replay :: "ustr \<Rightarrow> dict \<Rightarrow> adapter \<Rightarrow> dispatch_result" where
  "do_replay rid params s =
     (let mid = the_str (get params (u ''message_id'')) in
      if mid \<in> set (seen_message_ids s) then (Inr (Err rid ''REPLAY_DETECTED''), s)
      else (Inr (Ok rid []), s\<lparr>seen_message_ids := mid # seen_message_ids s\<rparr>))"

text \<open>\<open>{"now": self.clock, **params}\<close>, with the feature of a gated operation\<close>

definition operation_input :: "ustr \<Rightarrow> dict \<Rightarrow> adapter \<Rightarrow> dict" where
  "operation_input op params s =
     (let inp = (u ''now'', get_or (PInt (clock s)) params (u ''now'')) # without (u ''now'') params in
      case map_of FEATURE_GATED_OPS op of
        None \<Rightarrow> inp
      | Some f \<Rightarrow> put inp (u ''_feature'') (if f \<in> set (features s) then PStr f else PNone))"

definition do_verify :: "adapter_env \<Rightarrow> ustr \<Rightarrow> ustr \<Rightarrow> dict \<Rightarrow> adapter \<Rightarrow> dispatch_result" where
  "do_verify E rid op params s =
     (if missing_argument op params \<noteq> None \<or> invalid_argument op params \<noteq> None then (Inr (Err rid ''MALFORMED_REQUEST''), s)
      else
        (case use_keys E s of
           (Inl e, s) \<Rightarrow> (Inl e, s)
         | (Inr K, s) \<Rightarrow>
             (case run_operation ((ae_mint E)\<lparr>me_keys := K\<rparr>) (ae_svid E) op (operation_input op params s) True of
                Inl FixtureError \<Rightarrow> (Inr (Err rid ''MALFORMED_FIXTURE''), s)
              | r \<Rightarrow> (respond rid r, s))))"

definition dispatch :: "adapter_env \<Rightarrow> bytes \<Rightarrow> ustr \<Rightarrow> ustr \<Rightarrow> dict \<Rightarrow> adapter \<Rightarrow> dispatch_result" where
  "dispatch E random rid op params s =
     (if op = u ''init'' then do_init E rid params s
      else if op = u ''shutdown'' then (Inr (Ok rid []), s)
      else if op = u ''set_clock'' then do_set_clock rid params s
      else if op = u ''set_features'' then do_set_features rid params s
      else if op = u ''begin_fixture'' then (Inr (Ok rid []), begin_fixture s)
      else if replay_step op params then do_replay rid params s
      else
        (case session_op (me_crypto (ae_mint E)) random op params s of
           Some (r, s) \<Rightarrow> (respond rid r, s)
         | None \<Rightarrow>
             (if op \<in> set operation_names then do_verify E rid op params s else (Inr (Err rid ''OP_NOT_SUPPORTED''), s))))"

definition request_id :: "dict \<Rightarrow> ustr" where
  "request_id request =
     (case get request (u ''id'') of PStr s \<Rightarrow> s | _ \<Rightarrow> u ''unknown'')"

text \<open>\<open>Adapter.handle\<close>: no exception of an operation leaves it.\<close>

definition handle :: "adapter_env \<Rightarrow> bytes \<Rightarrow> dict \<Rightarrow> adapter \<Rightarrow> response \<times> adapter" where
  "handle E random request s =
     (let rid = request_id request; op = get request (u ''op''); params = get_or (PDict []) request (u ''params'') in
      if \<not> is_str op \<or> \<not> is_dict params then (Err rid ''MALFORMED_REQUEST'', s)
      else
        (case dispatch E random rid (the_str op) (the_dict params) s of
           (Inr r, s) \<Rightarrow> (r, s)
         | (Inl e, s) \<Rightarrow> (Err rid ''ADAPTER_INTERNAL_ERROR'', s)))"

section \<open>Serving\<close>

definition ws_byte :: "byte \<Rightarrow> bool" where
  "ws_byte b \<longleftrightarrow> unat b \<in> {9, 10, 11, 12, 13, 32}"

definition blank :: "bytes \<Rightarrow> bool" where
  "blank line \<longleftrightarrow> list_all ws_byte line"

text \<open>\<open>line.rstrip(b"\r\n")\<close>\<close>

definition strip_newline :: "bytes \<Rightarrow> bytes" where
  "strip_newline line = rev (dropWhile (\<lambda>b. unat b = 13 \<or> unat b = 10) (rev line))"

text \<open>
  The responses written, in order, and the exit code, or the exception that ends the process: only
  \<open>MalformedRequest\<close> is caught. \<open>random\<close> supplies the random bytes of each request.
\<close>

fun serve :: "adapter_env \<Rightarrow> (nat \<Rightarrow> bytes) \<Rightarrow> bytes list \<Rightarrow> adapter \<Rightarrow> response list \<times> int res" where
  "serve E random [] s = ([], Inr 0)"
| "serve E random (line # lines) s =
     (if blank line then serve E random lines s
      else
        (case parse_request (strip_newline line) of
           Inl MalformedRequest \<Rightarrow>
             (case serve E random lines s of (rs, x) \<Rightarrow> (Err (u ''unknown'') ''MALFORMED_REQUEST'' # rs, x))
         | Inl e \<Rightarrow> ([], Inl e)
         | Inr request \<Rightarrow>
             (case handle E (random (length lines)) request s of
                (r, s) \<Rightarrow>
                  (if get request (u ''op'') = PStr (u ''shutdown'') then ([r], Inr 0)
                   else case serve E random lines s of (rs, x) \<Rightarrow> (r # rs, x)))))"

section \<open>What a request is\<close>

lemma no_duplicate_keys_loop_strict:
  "no_duplicate_keys_loop out ps = Inr d \<Longrightarrow> distinct (map fst out) \<Longrightarrow> d = out @ ps \<and> distinct (map fst (out @ ps))"
proof (induction ps arbitrary: out)
  case (Cons p ps)
  obtain k v where p: "p = (k, v)" by (cases p)
  then have "\<not> has out k" "no_duplicate_keys_loop (out @ [(k, v)]) ps = Inr d"
    using Cons.prems(1) by (simp_all add: ok_simps)
  moreover from this have "distinct (map fst (out @ [(k, v)]))" using Cons.prems(2) by (auto simp: has_def)
  ultimately show ?case using Cons.IH [of "out @ [(k, v)]"] by (simp add: p)
qed simp

lemma no_duplicate_keys_strict: "strict_hook no_duplicate_keys"
  using no_duplicate_keys_loop_strict [of "[]"] by (auto simp: strict_hook_def no_duplicate_keys_def)

lemma no_duplicate_keys_err: "no_duplicate_keys m = Inl e \<Longrightarrow> e = MalformedRequest"
proof -
  have "no_duplicate_keys_loop obj m = Inl e \<Longrightarrow> e = MalformedRequest" for obj
    by (induction obj m rule: no_duplicate_keys_loop.induct) (auto simp: err_simps)
  then show "no_duplicate_keys m = Inl e \<Longrightarrow> e = MalformedRequest" by (simp add: no_duplicate_keys_def)
qed

lemma parse_request_err: "parse_request line = Inl e \<Longrightarrow> e = MalformedRequest \<or> e = ValueError"
proof -
  assume err: "parse_request line = Inl e"
  let ?load = "\<lambda>tx. json_loads no_duplicate_keys no_constant tx"
  have "catchE (\<lambda>e. e = JSONDecodeError) (?load tx) (\<lambda>_. Inl MalformedRequest) = Inl e' \<Longrightarrow> e' = MalformedRequest \<or> e' = ValueError" for tx e'
    using json_loads_err [of no_duplicate_keys no_constant tx]
    by (cases "?load tx") (auto simp: json_err_def no_constant_def split: if_splits dest: no_duplicate_keys_err)
  moreover have "catchE (\<lambda>e. e = UnicodeError) (utf8_decode line) (\<lambda>_. Inl MalformedRequest) = Inl e' \<Longrightarrow> e' = MalformedRequest" for e'
    by (cases "utf8_decode line") (auto dest: utf8_decode_err)
  ultimately show "e = MalformedRequest \<or> e = ValueError"
    using err unfolding parse_request_def bindE_err ensure_err by blast
qed

lemma parse_request_wf: "parse_request line = Inr d \<Longrightarrow> wf_val (PDict d)"
proof -
  assume "parse_request line = Inr d"
  then obtain tx v where "catchE (\<lambda>e. e = JSONDecodeError) (json_loads no_duplicate_keys no_constant tx) (\<lambda>_. Inl MalformedRequest) = Inr v"
    and v: "v = PDict d"
    by (auto simp: parse_request_def ok_simps is_dict_iff)
  then have "json_loads no_duplicate_keys no_constant tx = Inr v"
    by (cases "json_loads no_duplicate_keys no_constant tx") (auto split: if_splits)
  then have "wf_val v" by (rule json_loads_wf [OF no_duplicate_keys_strict, rotated]) (simp add: no_constant_def)
  then show "wf_val (PDict d)" using v by simp
qed

text \<open>
  What the adapter reads as a request has no duplicate member name at any depth, and every other
  line is reported as malformed, except an integer literal too long for Python's conversion.
\<close>

lemma requests_strict:
  "case parse_request line of Inr d \<Rightarrow> wf_val (PDict d) | Inl e \<Rightarrow> e = MalformedRequest \<or> e = ValueError"
  using parse_request_err parse_request_wf by (auto split: sum.split)

text \<open>
  That exception ends the process: a line that is one integer literal of more than 4300 digits
  stops the adapter with \<open>ValueError\<close>, and neither it nor any later line is answered.
\<close>

lemma long_integer_stops_adapter:
  assumes "max_str_digits < n"
  shows "serve E random (replicate n 49 # lines) s = ([], Inl ValueError)"
proof -
  let ?l = "replicate n 49 :: bytes"
  obtain m where n: "n = Suc m" using assms by (cases n) auto
  have utf: "utf8_decode_nat (replicate k 49) = Inr (replicate k 49)" for k
    by (induction k) (simp_all add: decode_1)
  then have "utf8_decode ?l = Inr (replicate n 49)" by (simp add: utf8_decode_def)
  moreover have "json_loads no_duplicate_keys no_constant (replicate n 49) = Inl ValueError"
  proof -
    have d: "is_digit 49" "\<not> is_ws 49" by (simp_all add: is_digit_def is_ws_def)
    have "int_digits (replicate n 49) = Some (replicate n 49, [])"
      by (simp add: int_digits_def n d)
    then have "scan_number False (replicate n 49) = Inl ValueError"
      using assms by (simp add: scan_number_def frac_digits_def exp_part_def)
    moreover have "scan_const ch (49 # r) = None" for ch r by (simp add: scan_const_def u_Cons)
    ultimately have "scan_scalar no_constant 49 (replicate m 49) = Inl ValueError" by (simp add: scan_scalar_def n)
    then show ?thesis by (simp add: json_loads_def n skip_ws_def d uncons_def)
  qed
  ultimately have "parse_request ?l = Inl ValueError" by (simp add: parse_request_def)
  moreover have "strip_newline ?l = ?l" "\<not> blank ?l"
    by (simp_all add: strip_newline_def n blank_def ws_byte_def replicate_append_same)
  ultimately show ?thesis by simp
qed

lemma long_integer_stops_adapter_witness:
  "\<forall>E random lines s. serve E random (replicate 4301 49 # lines) s = ([], Inl ValueError)"
  using long_integer_stops_adapter [of 4301] by (simp add: max_str_digits_def del: serve.simps)

section \<open>One response per line\<close>

definition line_request :: "bytes \<Rightarrow> dict res" where
  "line_request line = parse_request (strip_newline line)"

definition line_id :: "bytes \<Rightarrow> ustr" where
  "line_id line = (case line_request line of Inr request \<Rightarrow> request_id request | Inl e \<Rightarrow> u ''unknown'')"

definition shutdown_line :: "bytes \<Rightarrow> bool" where
  "shutdown_line line = (case line_request line of Inr request \<Rightarrow> get request (u ''op'') = PStr (u ''shutdown'') | Inl e \<Rightarrow> False)"

text \<open>The lines up to the first that asks for a shutdown\<close>

fun served_lines :: "bytes list \<Rightarrow> bytes list" where
  "served_lines [] = []"
| "served_lines (l # ls) = (if shutdown_line l then [l] else l # served_lines ls)"

lemma respond_id: "respond rid r = Inr x \<Longrightarrow> response_id x = rid"
  by (cases r) (auto simp: respond_def split: outcome.splits)

lemma dispatch_id: "fst (dispatch E random rid op params s) = Inr r \<Longrightarrow> response_id r = rid"
  by (auto simp: dispatch_def do_init_def do_set_clock_def do_set_features_def do_replay_def do_verify_def Let_def
      dest: respond_id split: if_splits prod.splits sum.splits exn.splits pyval.splits option.splits)

lemma handle_id: "response_id (fst (handle E random request s)) = request_id request"
  by (auto simp: handle_def Let_def case_prod_beta split: sum.split intro: dispatch_id)


definition shutdown_request :: bytes where
  "shutdown_request = map of_nat (jtext ''{`id`:`req-1`,`op`:`shutdown`}'')"


section \<open>The state across requests\<close>

text \<open>An event is the random bytes of a request and the request.\<close>

type_synonym event = "bytes \<times> dict"

definition asks :: "event \<Rightarrow> string \<Rightarrow> bool" where
  "asks ev op \<longleftrightarrow> get (snd ev) (u ''op'') = PStr (u op) \<and> is_dict (get_or (PDict []) (snd ev) (u ''params''))"

definition params_of :: "event \<Rightarrow> dict" where
  "params_of ev = the_dict (get_or (PDict []) (snd ev) (u ''params''))"

text \<open>The state after a request; \<open>begins_fixture\<close> recognises the one request that forgets a fixture.\<close>

definition after :: "adapter_env \<Rightarrow> adapter \<Rightarrow> event \<Rightarrow> adapter" where
  "after E s ev = snd (handle E (fst ev) (snd ev) s)"

abbreviation begins_fixture :: "event \<Rightarrow> bool" where
  "begins_fixture ev \<equiv> asks ev ''begin_fixture''"

definition within_fixture :: "adapter_env \<Rightarrow> adapter \<Rightarrow> event \<Rightarrow> adapter" where
  "within_fixture E s ev = (if begins_fixture ev then s else after E s ev)"

lemma use_keys_state: "\<exists>K. snd (use_keys E s) = s\<lparr>ad_keys := K\<rparr>"
proof -
  have "\<exists>K. s = s\<lparr>ad_keys := K\<rparr>" by (rule exI [of _ "ad_keys s"]) simp
  then show ?thesis by (auto simp: use_keys_def split: option.split sum.split)
qed

text \<open>The session fields: a verification operation and the control requests keep them.\<close>

definition session_of :: "adapter \<Rightarrow> ustr list \<times> pyval list \<times> ustr option \<times> bool" where
  "session_of s = (seen_message_ids s, challenges s, pop_presenter s, pop_challenge_issued s)"

lemma session_of_update [simp]:
  "session_of (s\<lparr>ad_keys := K\<rparr>) = session_of s" "session_of (s\<lparr>clock := n\<rparr>) = session_of s"
  "session_of (s\<lparr>features := fs\<rparr>) = session_of s"
  by (simp_all add: session_of_def)

lemma use_keys_session [simp]: "session_of (snd (use_keys E s)) = session_of s"
  using use_keys_state [of E s] by auto

lemma control_session:
  "session_of (snd (do_init E rid params s)) = session_of s" "session_of (snd (do_set_clock rid params s)) = session_of s"
  "session_of (snd (do_set_features rid params s)) = session_of s" "session_of (snd (do_verify E rid op params s)) = session_of s"
proof -
  obtain K where K: "snd (use_keys E s) = s\<lparr>ad_keys := K\<rparr>" using use_keys_state by blast
  then show "session_of (snd (do_init E rid params s)) = session_of s"
    by (cases "use_keys E s") (auto simp: do_init_def split: sum.split exn.split)
  show "session_of (snd (do_verify E rid op params s)) = session_of s"
    using K by (cases "use_keys E s") (auto simp: do_verify_def split: sum.split exn.split)
qed (auto simp: do_set_clock_def do_set_features_def Let_def split: pyval.split)

text \<open>The state a request leaves, operation by operation\<close>

lemma handle_state:
  "snd (handle E random request s) =
     (if is_str (get request (u ''op'')) \<and> is_dict (get_or (PDict []) request (u ''params'')) then
        snd (dispatch E random (request_id request) (the_str (get request (u ''op''))) (the_dict (get_or (PDict []) request (u ''params''))) s)
      else s)"
  by (auto simp: handle_def Let_def case_prod_beta split: sum.split)

lemma session_op_named: "session_op C random op params s = Some x \<Longrightarrow> \<exists>n. op = u n \<and> n \<noteq> ''begin_fixture''"
  by (auto simp: session_op_def split: if_splits)

lemma dispatch_step:
  "op \<noteq> u ''begin_fixture'' \<and> session_of (snd (dispatch E random rid op params s)) = session_of s \<or>
   op = u ''begin_fixture'' \<and> snd (dispatch E random rid op params s) = begin_fixture s \<or>
   op \<noteq> u ''begin_fixture'' \<and> (\<exists>mid. mid \<notin> set (seen_message_ids s) \<and>
      snd (dispatch E random rid op params s) = s\<lparr>seen_message_ids := mid # seen_message_ids s\<rparr>) \<or>
   (\<exists>n r. op = u n \<and> session_op (me_crypto (ae_mint E)) random (u n) params s = Some (r, snd (dispatch E random rid op params s)))"
proof -
  consider (begun) "op = u ''begin_fixture''"
    | (control) "op \<in> {u ''init'', u ''shutdown'', u ''set_clock'', u ''set_features''}"
    | (replay) "op \<notin> {u ''init'', u ''shutdown'', u ''set_clock'', u ''set_features'', u ''begin_fixture''}" "replay_step op params"
    | (operation) "op \<notin> {u ''init'', u ''shutdown'', u ''set_clock'', u ''set_features'', u ''begin_fixture''}" "\<not> replay_step op params"
    by blast
  then show ?thesis
  proof cases
    case begun
    then show ?thesis by (simp add: dispatch_def)
  next
    case control
    then show ?thesis by (auto simp: dispatch_def control_session)
  next
    case replay
    then show ?thesis by (auto simp: dispatch_def do_replay_def Let_def)
  next
    case operation
    then show ?thesis
      using session_op_named [of "me_crypto (ae_mint E)" random op params s]
      by (cases "session_op (me_crypto (ae_mint E)) random op params s") (auto simp: dispatch_def control_session)
  qed
qed

text \<open>The states of the adapter after a sequence of events\<close>

inductive adapter_run :: "adapter_env \<Rightarrow> event list \<Rightarrow> adapter \<Rightarrow> bool" for E where
  run_start: "adapter_run E [] initial"
| run_step: "adapter_run E evs s \<Longrightarrow> adapter_run E (evs @ [ev]) (after E s ev)"

lemma adapter_run_iff: "adapter_run E evs s \<longleftrightarrow> s = foldl (after E) initial evs"
proof
  show "adapter_run E evs s \<Longrightarrow> s = foldl (after E) initial evs" by (induction rule: adapter_run.induct) simp_all
  show "s = foldl (after E) initial evs \<Longrightarrow> adapter_run E evs s"
    by (induction evs arbitrary: s rule: rev_induct) (auto intro: adapter_run.intros)
qed

text \<open>
  The abstract session machine: what one event may do to the state of a fixture. Everything but the
  message ids, the challenges, the presenter and the flag is left open.
\<close>

inductive session_step :: "adapter_env \<Rightarrow> adapter \<Rightarrow> event \<Rightarrow> adapter \<Rightarrow> bool" for E s ev where
  quiet: "\<not> begins_fixture ev \<Longrightarrow> session_of s' = session_of s \<Longrightarrow> session_step E s ev s'"
| fixture: "begins_fixture ev \<Longrightarrow> session_step E s ev (begin_fixture s)"
| message: "\<not> begins_fixture ev \<Longrightarrow> mid \<notin> set (seen_message_ids s) \<Longrightarrow>
    session_step E s ev (s\<lparr>seen_message_ids := mid # seen_message_ids s\<rparr>)"
| challenge: "asks ev ''issue_pop_challenge'' \<Longrightarrow> challenge_nonce (fst ev) (params_of ev) = Inr nonce \<Longrightarrow>
    session_step E s ev (s\<lparr>challenges := challenges s @
      [PDict (challenge_record (get (token_claims (params_of ev)) (u ''jti'')) nonce (clock s + POP_CHALLENGE_TTL_SECS))],
      pop_challenge_issued := True\<rparr>)"
| present: "asks ev ''produce_pop_response'' \<Longrightarrow>
    presenter_from_pop (me_crypto (ae_mint E)) (pop_input (params_of ev) (challenges s)) (token_claims (params_of ev)) (clock s) =
      Inr p \<Longrightarrow> session_step E s ev (s\<lparr>pop_presenter := Some p\<rparr>)"
| withdraw: "asks ev ''produce_pop_response'' \<Longrightarrow> session_step E s ev (s\<lparr>pop_presenter := None\<rparr>)"
| owe: "asks ev ''authorize_capability_invocation'' \<Longrightarrow> session_step E s ev (s\<lparr>pop_challenge_issued := True\<rparr>)"

lemma asks_unique: "asks ev a \<Longrightarrow> asks ev b \<longleftrightarrow> a = b"
  by (auto simp: asks_def)

lemma session_op_step:
  assumes "asks ev op" and "session_op (me_crypto (ae_mint E)) (fst ev) (u op) (params_of ev) s = Some (r, s')"
  shows "session_step E s ev s'"
proof -
  have q: "session_step E s ev s" if "\<not> begins_fixture ev" using that by (intro quiet) simp_all
  have issue: "session_step E s ev s'"
    if op: "asks ev ''issue_pop_challenge''" and run: "issue_pop_challenge (fst ev) (params_of ev) s = (r, s')"
    using run q challenge [OF op] asks_unique [OF op]
    by (auto simp: issue_pop_challenge_def challenge_record_def Let_def split: sum.splits)
  have produce: "session_step E s ev s'"
    if op: "asks ev ''produce_pop_response''" and run: "produce_pop_response (me_crypto (ae_mint E)) (params_of ev) s = (r, s')"
    using run q present [OF op] withdraw [OF op] asks_unique [OF op]
    by (auto simp: produce_pop_response_def split: sum.splits exn.splits)
  have auth: "session_step E s ev s'"
    if op: "asks ev ''authorize_capability_invocation''" and run: "authorize_capability_invocation (params_of ev) s = (r, s')"
    using run q owe [OF op] asks_unique [OF op]
    by (auto simp: authorize_capability_invocation_def split: sum.splits bool.splits)
  show ?thesis
    using assms issue produce auth q asks_unique [OF assms(1)]
    by (auto simp: session_op_def verify_pop_response_def expect_pop_challenge_issued_def withhold_pop_response_def
        split: if_splits option.splits)
qed

text \<open>Every request of the adapter is a step of that machine.\<close>

lemma after_session_step: "session_step E s ev (after E s ev)"
proof (cases "is_str (get (snd ev) (u ''op'')) \<and> is_dict (get_or (PDict []) (snd ev) (u ''params''))")
  case True
  let ?op = "the_str (get (snd ev) (u ''op''))"
  have a: "after E s ev = snd (dispatch E (fst ev) (request_id (snd ev)) ?op (params_of ev) s)"
    using True by (simp add: after_def handle_state params_of_def)
  have asks: "asks ev op \<longleftrightarrow> ?op = u op" for op using True by (auto simp: asks_def is_str_iff)
  show ?thesis
    using dispatch_step [of ?op E "fst ev" "request_id (snd ev)" "params_of ev" s]
    unfolding a [symmetric]
  proof (elim disjE exE conjE)
    fix op r
    assume "?op = u op" "session_op (me_crypto (ae_mint E)) (fst ev) (u op) (params_of ev) s = Some (r, after E s ev)"
    then show ?thesis by (intro session_op_step) (simp_all add: asks)
  qed (auto intro: session_step.intros simp: asks)
next
  case False
  then have "after E s ev = s" "\<not> begins_fixture ev" by (auto simp: after_def handle_state asks_def)
  then show ?thesis by (auto intro: quiet)
qed

lemma seen_kept: "mid \<in> set (seen_message_ids s) \<Longrightarrow> mid \<in> set (seen_message_ids (within_fixture E s ev))"
  using after_session_step [of E s ev]
  by (cases rule: session_step.cases) (auto simp: within_fixture_def session_of_def)

interpretation replay: invariant_machine "within_fixture E" "\<lambda>s. mid \<in> set (seen_message_ids s)"
  by unfold_locales (rule seen_kept)

lemma foldl_within: "\<forall>ev \<in> set evs. \<not> begins_fixture ev \<Longrightarrow> foldl (within_fixture E) s evs = foldl (after E) s evs"
  by (induction evs arbitrary: s) (simp_all add: within_fixture_def)

text \<open>The request of a step that names only a message id\<close>

definition message_step :: "ustr \<Rightarrow> dict \<Rightarrow> bool" where
  "message_step mid request \<longleftrightarrow>
     (\<exists>op params. get request (u ''op'') = PStr op \<and> get_or (PDict []) request (u ''params'') = PDict params \<and>
        replay_step op params \<and> get params (u ''message_id'') = PStr mid)"

lemma handle_message_step:
  assumes "message_step mid request"
  shows "handle E random request s =
    (if mid \<in> set (seen_message_ids s) then (Err (request_id request) ''REPLAY_DETECTED'', s)
     else (Ok (request_id request) [], s\<lparr>seen_message_ids := mid # seen_message_ids s\<rparr>))"
proof -
  obtain op params where r: "get request (u ''op'') = PStr op" "get_or (PDict []) request (u ''params'') = PDict params"
    "replay_step op params" "get params (u ''message_id'') = PStr mid"
    using assms by (auto simp: message_step_def)
  then have "op \<noteq> u ''init''" "op \<noteq> u ''shutdown''" "op \<noteq> u ''set_clock''" "op \<noteq> u ''set_features''" "op \<noteq> u ''begin_fixture''"
    by (auto simp: replay_step_def)
  then show ?thesis using r by (simp add: handle_def dispatch_def do_replay_def)
qed

text \<open>
  C21. Replay detection. Within a fixture, whatever requests come between, the first step that names a
  message id is accepted exactly if the id is new, and every later one is \<open>REPLAY_DETECTED\<close> and
  changes nothing.
\<close>

theorem replay_detected:
  assumes "message_step mid first" and "message_step mid again" and "\<forall>ev \<in> set evs. \<not> begins_fixture ev"
  shows "(fst (handle E random first s) = Ok (request_id first) [] \<longleftrightarrow> mid \<notin> set (seen_message_ids s)) \<and>
    (let s' = foldl (after E) (snd (handle E random first s)) evs in
     handle E random' again s' = (Err (request_id again) ''REPLAY_DETECTED'', s'))"
proof -
  have "mid \<in> set (seen_message_ids (snd (handle E random first s)))" by (simp add: handle_message_step [OF assms(1)])
  then have "mid \<in> set (seen_message_ids (foldl (after E) (snd (handle E random first s)) evs))"
    using replay.run_inv foldl_within [OF assms(3)] by metis
  then show ?thesis by (simp add: Let_def handle_message_step [OF assms(1)] handle_message_step [OF assms(2)])
qed

definition message_request :: "ustr \<Rightarrow> dict" where
  "message_request mid =
     [(u ''op'', PStr (u ''process_handshake_message'')), (u ''params'', PDict [(u ''message_id'', PStr mid)])]"

lemma message_request_step: "message_step mid (message_request mid)"
  by (simp add: message_step_def message_request_def replay_step_def)

lemma replay_detected_witness:
  "\<forall>E random. handle E random (message_request (u ''m'')) (foldl (after E) (snd (handle E random (message_request (u ''m'')) initial))
      [(random, message_request (u ''n''))]) =
    (Err (u ''unknown'') ''REPLAY_DETECTED'',
     foldl (after E) (snd (handle E random (message_request (u ''m'')) initial)) [(random, message_request (u ''n''))])"
proof (intro allI)
  fix E random
  have "request_id (message_request (u ''m'')) = u ''unknown''" by code_simp
  moreover have e: "\<forall>ev \<in> set [(random, message_request (u ''n''))]. \<not> begins_fixture ev"
    by (simp add: asks_def message_request_def)
  note replay_detected [OF message_request_step [of "u ''m''"] message_request_step e, of E random initial random]
  ultimately show "handle E random (message_request (u ''m'')) (foldl (after E) (snd (handle E random (message_request (u ''m'')) initial))
      [(random, message_request (u ''n''))]) =
    (Err (u ''unknown'') ''REPLAY_DETECTED'',
     foldl (after E) (snd (handle E random (message_request (u ''m'')) initial)) [(random, message_request (u ''n''))])"
    by (simp only: Let_def)
qed

section \<open>Proof of possession across requests\<close>

text \<open>
  \<open>happened E evs P\<close>: an event since the last \<open>begin_fixture\<close> satisfies \<open>P\<close> of the events before it,
  itself and the state it met. Every challenge and every presenter in the state happened.
\<close>

definition happened :: "adapter_env \<Rightarrow> event list \<Rightarrow> (event list \<Rightarrow> event \<Rightarrow> adapter \<Rightarrow> bool) \<Rightarrow> bool" where
  "happened E evs P \<longleftrightarrow>
     (\<exists>pre ev post s. evs = pre @ ev # post \<and> (\<forall>x \<in> set (ev # post). \<not> begins_fixture x) \<and> adapter_run E pre s \<and> P pre ev s)"

definition issues :: "event \<Rightarrow> adapter \<Rightarrow> dict \<Rightarrow> bool" where
  "issues ev s c \<longleftrightarrow> asks ev ''issue_pop_challenge'' \<and>
     (\<exists>nonce. challenge_nonce (fst ev) (params_of ev) = Inr nonce \<and>
        c = challenge_record (get (token_claims (params_of ev)) (u ''jti'')) nonce (clock s + POP_CHALLENGE_TTL_SECS))"

definition answers :: "adapter_env \<Rightarrow> event \<Rightarrow> adapter \<Rightarrow> dict \<Rightarrow> ustr \<Rightarrow> bool" where
  "answers E ev s c p \<longleftrightarrow> asks ev ''produce_pop_response'' \<and>
     pop_answers (me_crypto (ae_mint E)) (get (params_of ev) (u ''envelope'')) (token_claims (params_of ev)) (clock s) c p"

abbreviation issued :: "adapter_env \<Rightarrow> event list \<Rightarrow> dict \<Rightarrow> bool" where
  "issued E evs c \<equiv> happened E evs (\<lambda>_ ev s. issues ev s c)"

abbreviation proved :: "adapter_env \<Rightarrow> event list \<Rightarrow> ustr \<Rightarrow> bool" where
  "proved E evs p \<equiv> happened E evs (\<lambda>pre ev s. \<exists>c. issued E pre c \<and> answers E ev s c p)"

definition accounted :: "adapter_env \<Rightarrow> event list \<Rightarrow> adapter \<Rightarrow> bool" where
  "accounted E evs s \<longleftrightarrow>
     (\<forall>v \<in> set (challenges s). \<exists>c. v = PDict c \<and> issued E evs c) \<and> (\<forall>p. pop_presenter s = Some p \<longrightarrow> proved E evs p)"

lemma happened_now:
  assumes "adapter_run E evs s" and "\<not> begins_fixture ev" and "P evs ev s"
  shows "happened E (evs @ [ev]) P"
  unfolding happened_def
  by (rule exI [of _ evs], rule exI [of _ ev], rule exI [of _ "[]"], rule exI [of _ s]) (use assms in simp)

lemma happened_later:
  assumes "happened E evs P" and "\<not> begins_fixture ev"
  shows "happened E (evs @ [ev]) P"
proof -
  obtain pre x post s where "evs = pre @ x # post" "\<forall>y \<in> set (x # post). \<not> begins_fixture y" "adapter_run E pre s" "P pre x s"
    using assms(1) by (auto simp: happened_def)
  then show ?thesis
    unfolding happened_def
    by - (rule exI [of _ pre], rule exI [of _ x], rule exI [of _ "post @ [ev]"], rule exI [of _ s], use assms(2) in auto)
qed

lemma accounted_extend:
  assumes "accounted E evs s" and "\<not> begins_fixture ev"
  shows "\<forall>v \<in> set (challenges s). \<exists>c. v = PDict c \<and> issued E (evs @ [ev]) c"
    and "\<forall>p. pop_presenter s = Some p \<longrightarrow> proved E (evs @ [ev]) p"
proof -
  have "issued E (evs @ [ev]) c" if "issued E evs c" for c using happened_later [OF that assms(2)] .
  then show "\<forall>v \<in> set (challenges s). \<exists>c. v = PDict c \<and> issued E (evs @ [ev]) c"
    using assms(1) unfolding accounted_def by meson
  have "proved E (evs @ [ev]) p" if "proved E evs p" for p using happened_later [OF that assms(2)] .
  then show "\<forall>p. pop_presenter s = Some p \<longrightarrow> proved E (evs @ [ev]) p"
    using assms(1) unfolding accounted_def by meson
qed

lemma accounted_later:
  assumes "accounted E evs s" and "\<not> begins_fixture ev"
    and "challenges s' = challenges s" and "pop_presenter s' = pop_presenter s"
  shows "accounted E (evs @ [ev]) s'"
  using accounted_extend [OF assms(1,2)] assms(3,4) by (simp add: accounted_def)

lemma pop_answered_outstanding:
  assumes "pop_answered C (pop_input params cs) cl now p"
  shows "\<exists>c. PDict c \<in> set cs \<and> pop_answers C (get params (u ''envelope'')) cl now c p"
proof -
  have "py_iter (py_or (get (pop_input params cs) (u ''outstanding_pop_challenges'')) (PList [])) = Inr cs"
    by (cases cs) (simp_all add: pop_input_def py_or_def)
  moreover have "get (pop_input params cs) (u ''envelope'') = get params (u ''envelope'')" by (simp add: pop_input_def)
  ultimately show ?thesis using assms unfolding pop_answered_def by auto
qed

lemma accounted_step:
  assumes run: "adapter_run E evs s" and acc: "accounted E evs s"
  shows "accounted E (evs @ [ev]) (after E s ev)"
  using after_session_step [of E s ev]
proof (cases rule: session_step.cases)
  case quiet
  then show ?thesis by (intro accounted_later [OF acc]) (simp_all add: session_of_def)
next
  case fixture
  then show ?thesis by (simp add: accounted_def begin_fixture_def)
next
  case (message mid)
  then show ?thesis by (intro accounted_later [OF acc]) simp_all
next
  case (challenge nonce)
  have ev: "\<not> begins_fixture ev" using asks_unique [OF challenge(2)] by simp
  let ?c = "challenge_record (get (token_claims (params_of ev)) (u ''jti'')) nonce (clock s + POP_CHALLENGE_TTL_SECS)"
  have new: "issued E (evs @ [ev]) ?c" by (rule happened_now [OF run ev]) (use challenge in \<open>auto simp: issues_def\<close>)
  have "challenges (after E s ev) = challenges s @ [PDict ?c]" "pop_presenter (after E s ev) = pop_presenter s"
    using challenge(1) by simp_all
  then show ?thesis using new accounted_extend [OF acc ev] by (simp add: accounted_def)
next
  case (present p)
  have ev: "\<not> begins_fixture ev" using asks_unique [OF present(2)] by simp
  obtain c where c: "PDict c \<in> set (challenges s)" "answers E ev s c p"
    using pop_answered_outstanding [OF presenter_from_pop_ok [OF present(3)]] present(2) by (auto simp: answers_def)
  then have "issued E evs c" using acc by (auto simp: accounted_def)
  then have new: "proved E (evs @ [ev]) p" using c(2) by (intro happened_now [OF run ev]) blast
  have "challenges (after E s ev) = challenges s" "pop_presenter (after E s ev) = Some p" using present(1) by simp_all
  then show ?thesis using new accounted_extend [OF acc ev] by (simp add: accounted_def)
next
  case withdraw
  have ev: "\<not> begins_fixture ev" using asks_unique [OF withdraw(2)] by simp
  have "challenges (after E s ev) = challenges s" "pop_presenter (after E s ev) = None" using withdraw(1) by simp_all
  then show ?thesis using accounted_extend [OF acc ev] by (simp add: accounted_def)
next
  case owe
  have ev: "\<not> begins_fixture ev" using asks_unique [OF owe(2)] by simp
  show ?thesis by (rule accounted_later [OF acc ev]) (use owe in simp_all)
qed

lemma adapter_run_accounted: "adapter_run E evs s \<Longrightarrow> accounted E evs s"
  by (induction rule: adapter_run.induct) (simp_all add: accounted_step, simp add: accounted_def initial_def)

lemma challenge_flagged:
  "challenges s \<noteq> [] \<longrightarrow> pop_challenge_issued s \<Longrightarrow> challenges (after E s ev) \<noteq> [] \<longrightarrow> pop_challenge_issued (after E s ev)"
  using after_session_step [of E s ev]
  by (cases rule: session_step.cases) (auto simp: session_of_def begin_fixture_def)

interpretation flag: invariant_machine "after E" "\<lambda>s. challenges s \<noteq> [] \<longrightarrow> pop_challenge_issued s"
  by unfold_locales (rule challenge_flagged)

text \<open>
  C20. Who presents. Whatever requests the adapter has served, \<open>verify_pop_response\<close> names a presenter
  only if, since the last \<open>begin_fixture\<close>, one request made the adapter issue a challenge and a later
  one, less than 300 seconds after it by the adapter's clock, answered that very challenge: with a
  \<open>pop_response\<close> envelope signed by its sender, for the token the challenge was issued for, and a
  signature of the challenge's nonce under the AID named.
\<close>

theorem presenter_proved_possession:
  assumes "adapter_run E evs s" and "verify_pop_response s = (Inr (Accepted (PDict [(u ''presenter_aid'', PStr p)])), s')"
  shows "\<exists>pre issue mid answer post s0 s1 nonce. evs = pre @ issue # mid @ answer # post \<and>
    (\<forall>ev \<in> set (issue # mid @ answer # post). \<not> begins_fixture ev) \<and>
    adapter_run E pre s0 \<and> asks issue ''issue_pop_challenge'' \<and> challenge_nonce (fst issue) (params_of issue) = Inr nonce \<and>
    adapter_run E (pre @ issue # mid) s1 \<and> asks answer ''produce_pop_response'' \<and> clock s1 < clock s0 + 300 \<and>
    pop_answers (me_crypto (ae_mint E)) (get (params_of answer) (u ''envelope'')) (token_claims (params_of answer)) (clock s1)
      (challenge_record (get (token_claims (params_of issue)) (u ''jti'')) nonce (clock s0 + 300)) p"
proof -
  have "pop_presenter s = Some p" using assms(2) by (auto simp: verify_pop_response_def split: option.splits)
  then have "proved E evs p" using adapter_run_accounted [OF assms(1)] by (simp add: accounted_def)
  then obtain pre' answer post s1 c where a: "evs = pre' @ answer # post" "\<forall>x \<in> set (answer # post). \<not> begins_fixture x"
    "adapter_run E pre' s1" "issued E pre' c" "answers E answer s1 c p"
    unfolding happened_def by blast
  obtain pre issue mid s0 where i: "pre' = pre @ issue # mid" "\<forall>x \<in> set (issue # mid). \<not> begins_fixture x"
    "adapter_run E pre s0" "issues issue s0 c"
    using a(4) unfolding happened_def by blast
  obtain nonce where n: "challenge_nonce (fst issue) (params_of issue) = Inr nonce" "asks issue ''issue_pop_challenge''"
    "c = challenge_record (get (token_claims (params_of issue)) (u ''jti'')) nonce (clock s0 + 300)"
    using i(4) by (auto simp: issues_def POP_CHALLENGE_TTL_SECS_def)
  have ans: "asks answer ''produce_pop_response''"
    "pop_answers (me_crypto (ae_mint E)) (get (params_of answer) (u ''envelope'')) (token_claims (params_of answer)) (clock s1) c p"
    using a(5) by (simp_all add: answers_def)
  then have late: "clock s1 < clock s0 + 300" by (auto simp: n(3) pop_answers_def challenge_record_def)
  have quiet: "\<forall>ev \<in> set (issue # mid @ answer # post). \<not> begins_fixture ev" using a(2) i(2) by auto
  show ?thesis
    by (rule exI [of _ pre], rule exI [of _ issue], rule exI [of _ mid], rule exI [of _ answer],
        rule exI [of _ post], rule exI [of _ s0], rule exI [of _ s1], rule exI [of _ nonce])
      (use a(1,3) i(1,3) n(1,2) ans [unfolded n(3)] late quiet in simp)
qed

text \<open>A session in which a challenge is issued and answered\<close>

definition sample_env :: adapter_env where
  "sample_env =
     \<lparr>ae_mint = \<lparr>me_crypto = sample_crypto, me_signing = \<lparr>seed_key = \<lambda>s. None, scalar_key = \<lambda>n. None\<rparr>,
        me_builder = \<lambda>r k. [], me_keys = sample_keys\<rparr>,
      ae_svid = sample_svid sample_root, ae_load = Inr sample_keys, ae_version = u ''0''\<rparr>"

definition pop_token :: pyval where
  "pop_token = sample_tct (key_no 0) (key_no 1) (ed_aid (key_no 1)) [u ''read'']"

definition pop_nonce_text :: ustr where
  "pop_nonce_text = b64url_encode (replicate 16 7)"

definition session_request :: "string \<Rightarrow> dict \<Rightarrow> dict" where
  "session_request op payload =
     [(u ''op'', PStr (u op)),
      (u ''params'', PDict [(u ''tct_token'', pop_token), (u ''envelope'', PDict payload)])]"

definition pop_session :: "event list" where
  "pop_session =
     [([], session_request ''issue_pop_challenge'' [(u ''payload'', PDict [(u ''nonce'', PStr pop_nonce_text)])]),
      ([], session_request ''produce_pop_response''
             (sample_envelope ''pop_response''
                [(u ''nonce_echo'', PStr pop_nonce_text), (u ''pop_signature'', PStr sample_sig), (u ''tct_jti'', PStr sample_jti)]))]"

lemma pop_token_claims: "unverified_claims pop_token = tct_claims (key_no 0) (key_no 1) (ed_aid (key_no 1)) [u ''read'']"
proof -
  have "jws_signed sample_crypto pop_token (ed_aid (key_no 0)) (u ''aitp-tct+jwt'') (tct_claims (key_no 0) (key_no 1) (ed_aid (key_no 1)) [u ''read''])"
    unfolding pop_token_def by (intro sample_tct_verified) simp_all
  from jws_signed_parse [OF this, of "[]"] show ?thesis by (auto simp: unverified_claims_def)
qed

lemma pop_session_state:
  "pop_presenter (foldl (after sample_env) initial pop_session) = Some (ed_aid (key_no 1))"
proof -
  let ?pl = "[(u ''nonce_echo'', PStr pop_nonce_text), (u ''pop_signature'', PStr sample_sig), (u ''tct_jti'', PStr sample_jti)]"
  have "plain (PDict ?pl)" by (simp add: pop_nonce_text_def sample_jti_def)
  then obtain b where b: "envelope_signing_input (sample_envelope ''pop_response'' ?pl) = Inr b"
    using sample_signing_input [of "''pop_response''" ?pl] by auto
  have jti: "get (tct_claims k l aud gs) (u ''jti'') = PStr sample_jti" "has (tct_claims k l aud gs) (u ''jti'')"
    "get (tct_claims k l aud gs) (u ''sub'') = PStr (ed_aid l)" "has (tct_claims k l aud gs) (u ''sub'')" for k l aud gs
    by (simp_all add: tct_claims_def)
  have dec: "b64url_decode pop_nonce_text = Inr (replicate 16 7)" by (simp add: pop_nonce_text_def b64url_decode_encode)
  let ?c = "challenge_record (PStr sample_jti) pop_nonce_text (REFERENCE_CLOCK + 300)"
  let ?cl = "tct_claims (key_no 0) (key_no 1) (ed_aid (key_no 1)) [u ''read'']"
  have "presenter_from_pop sample_crypto
      [(u ''envelope'', PDict (sample_envelope ''pop_response'' ?pl)), (u ''outstanding_pop_challenges'', PList [PDict ?c])]
      ?cl REFERENCE_CLOCK = Inr (ed_aid (key_no 1))"
    by (simp add: presenter_from_pop_def has_item [OF jti(2)] has_item [OF jti(4)] jti b challenge_record_def matching_challenges_def
        py_or_def parse_aid_value_def dec)
  moreover have "after sample_env initial (pop_session ! 0) = initial\<lparr>challenges := [PDict ?c], pop_challenge_issued := True\<rparr>"
    by (simp add: after_def handle_def pop_session_def session_request_def dispatch_def replay_step_def session_op_def Let_def
        issue_pop_challenge_def challenge_nonce_def get_obj_def token_claims_def pop_token_claims jti respond_def
        challenge_record_def initial_def POP_CHALLENGE_TTL_SECS_def)
  ultimately show ?thesis
    by (simp add: pop_session_def)
      (simp add: after_def handle_def session_request_def dispatch_def replay_step_def session_op_def Let_def
        produce_pop_response_def pop_input_def token_claims_def pop_token_claims respond_def initial_def sample_env_def)
qed

lemma presenter_proved_possession_witness:
  "\<exists>pre issue mid answer post. pop_session = pre @ issue # mid @ answer # post \<and>
     asks issue ''issue_pop_challenge'' \<and> asks answer ''produce_pop_response''"
proof -
  let ?s = "foldl (after sample_env) initial pop_session"
  have run: "adapter_run sample_env pop_session ?s" by (simp add: adapter_run_iff)
  have "verify_pop_response ?s = (Inr (Accepted (PDict [(u ''presenter_aid'', PStr (ed_aid (key_no 1)))])), ?s)"
    by (simp add: verify_pop_response_def pop_session_state del: foldl.simps)
  from presenter_proved_possession [OF run this] show ?thesis by blast
qed

end
