(* ===== verification/Conformance.thy ===== *)
theory Conformance
  imports Harness
begin

text \<open>
  \<open>run_conformance.py\<close>: which fixtures run, one fixture (or one multi-step sequence) to a row,
  the pack with its claim gate and exit code, and the computed parts of the report. Reading the
  fixture files, the command line, the git calls and printing are not modelled: the fixtures are
  given as parsed values in the order of their file names, \<open>--only\<close> as the predicate its
  pattern denotes, and git as a function. The reason texts of the rows are not modelled.
\<close>

section \<open>Selection\<close>

definition SUPPORTED_FEATURES :: "ustr list" where
  "SUPPORTED_FEATURES =
     map u [''experimental-multihop-delegation'', ''experimental-session-bundle'', ''experimental-spiffe-identity'',
       ''aitp-self-attestation'']"

definition CORE_CLAIM :: ustr where
  "CORE_CLAIM = u ''AITP v0.3''"

definition CLAIMS :: "(ustr \<times> ustr option) list" where
  "CLAIMS =
     [(CORE_CLAIM, None), (u ''AITP v0.3 pinned-admission'', Some (u ''aitp-pinned-admission'')),
      (u ''AITP v0.3 self-attestation'', Some (u ''aitp-self-attestation''))]"

definition is_core :: "dict \<Rightarrow> bool" where
  "is_core fixture \<longleftrightarrow> get_or (PStr (u ''core'')) fixture (u ''status'') = PStr (u ''core'')"

definition is_required :: "dict \<Rightarrow> bool" where
  "is_required fixture \<longleftrightarrow>
     is_core fixture \<and> get_or (PBool True) fixture (u ''required_for_core'') = PBool True"

definition in_scope :: "dict \<Rightarrow> bool res" where
  "in_scope fixture =
     (let feature = get fixture (u ''feature'') in
      if feature = PNone then Inr (is_core fixture) else in_str_set feature SUPPORTED_FEATURES)"

definition gates :: "dict \<Rightarrow> ustr \<Rightarrow> bool res" where
  "gates fixture claim =
     (case map_of CLAIMS claim of
        None \<Rightarrow> Inl KeyError
      | Some None \<Rightarrow> Inr (is_required fixture)
      | Some (Some feature) \<Rightarrow> Inr (get fixture (u ''feature'') = PStr feature))"

section \<open>Sequences\<close>

record seq_state =
  sq_seen :: "ustr list"
  sq_nonce :: "ustr option"
  sq_pop_response :: "(ustr \<times> ustr) option"
  sq_challenge_issued :: bool
  sq_authorized :: bool

definition new_sequence :: seq_state where
  "new_sequence =
     \<lparr>sq_seen = [], sq_nonce = None, sq_pop_response = None, sq_challenge_issued = False, sq_authorized = False\<rparr>"

text \<open>Outcome (the code of a failure) and side effects of a step; \<open>None\<close> is an unsupported one.\<close>

type_synonym step_result = "string option \<times> (ustr \<times> bool) list"

definition success :: step_result where
  "success = (None, [])"

definition failure :: "string \<Rightarrow> step_result" where
  "failure code = (Some code, [])"

definition step_replay :: "seq_state \<Rightarrow> dict \<Rightarrow> step_result \<times> seq_state" where
  "step_replay st step =
     (let mid = py_str (get step (u ''message_id'')) in
      if mid \<in> set (sq_seen st) then (failure ''REPLAY_DETECTED'', st)
      else (success, st\<lparr>sq_seen := mid # sq_seen st\<rparr>))"

definition step_issue :: "seq_state \<Rightarrow> dict \<Rightarrow> (step_result \<times> seq_state) res" where
  "step_issue st cl =
     bindE (utf8_encode (py_str (get cl (u ''jti'')))) (\<lambda>b.
       Inr (success, st\<lparr>sq_nonce := Some (b64url_encode (take 16 (sha256 (ub ''aitp-pop:'' @ b)))), sq_challenge_issued := True\<rparr>))"

definition step_produce :: "crypto \<Rightarrow> kat_keys \<Rightarrow> seq_state \<Rightarrow> pyval \<Rightarrow> (step_result \<times> seq_state) res" where
  "step_produce C K st sub =
     (case sq_nonce st of
        None \<Rightarrow> Inl AssertionError
      | Some nonce \<Rightarrow>
          bindE (key_of K sub) (\<lambda>k.
          bindE (b64url_decode nonce) (\<lambda>n.
            Inr (success, st\<lparr>sq_pop_response := Some (nonce, b64url_encode (sign_digest C k (sha256 n)))\<rparr>))))"

definition step_verify :: "crypto \<Rightarrow> seq_state \<Rightarrow> pyval \<Rightarrow> (step_result \<times> seq_state) res" where
  "step_verify C st sub =
     (case (sq_nonce st, sq_pop_response st) of
        (Some nonce, Some (echo, sig)) \<Rightarrow>
          bindE (parse_aid C (py_str sub)) (\<lambda>a.
          bindE (if echo = nonce then
                   bindE (b64url_decode nonce) (\<lambda>n. bindE (b64url_decode sig) (\<lambda>s. verify_digest C (aid_key a) (sha256 n) s))
                 else Inr False) (\<lambda>ok.
            Inr (if ok then success else failure ''POP_RESPONSE_INVALID'', st)))
      | _ \<Rightarrow> Inl AssertionError)"

definition step_authorize :: "seq_state \<Rightarrow> dict \<Rightarrow> pyval \<Rightarrow> (step_result \<times> seq_state) res" where
  "step_authorize st inp cl =
     bindE (pop_required inp cl) (\<lambda>required. Inr (success, if required then st\<lparr>sq_challenge_issued := True\<rparr> else st))"

definition run_step ::
  "crypto \<Rightarrow> kat_keys \<Rightarrow> seq_state \<Rightarrow> pyval \<Rightarrow> dict \<Rightarrow> (step_result \<times> seq_state) option res"
where
  "run_step C K st v inp =
     bindE (dict_get v (u ''operation'')) (\<lambda>op.
     let step = the_dict v in
     if op = PNone \<or> op = PStr (u ''process_handshake_message'') then Inr (Some (step_replay st step))
     else
       bindE (get_obj (PDict inp) ''tct_token_claims'') (\<lambda>cl.
       bindE (dict_get cl (u ''sub'')) (\<lambda>sub.
       if op = PStr (u ''issue_pop_challenge'') then bindE (step_issue st (the_dict cl)) (\<lambda>r. Inr (Some r))
       else if op = PStr (u ''produce_pop_response'') then bindE (step_produce C K st sub) (\<lambda>r. Inr (Some r))
       else if op = PStr (u ''verify_pop_response'') then bindE (step_verify C st sub) (\<lambda>r. Inr (Some r))
       else if op = PStr (u ''authorize_capability_invocation'') then bindE (step_authorize st inp cl) (\<lambda>r. Inr (Some r))
       else if op = PStr (u ''expect_pop_challenge_issued'') then
         Inr (Some ((None, [(u ''pop_challenge_issued'', sq_challenge_issued st)]), st))
       else if op = PStr (u ''withhold_pop_response'') then
         Inr (Some ((Some ''POP_RESPONSE_INVALID'', [(u ''capability_authorized'', False)]), st\<lparr>sq_authorized := False\<rparr>))
       else Inr None)))"

datatype row_status = Pass | Fail | Skip

text \<open>What a step's \<open>expected\<close> member demands of its result\<close>

definition side_effect_value :: "(ustr \<times> bool) list \<Rightarrow> ustr \<Rightarrow> pyval" where
  "side_effect_value side k = (case map_of side k of None \<Rightarrow> PNone | Some b \<Rightarrow> PBool b)"

definition step_meets :: "step_result \<Rightarrow> pyval \<Rightarrow> bool res" where
  "step_meets r expected =
     bindE (dict_get expected (u ''outcome'')) (\<lambda>wanted.
     let ex = the_dict expected in
     if wanted = PStr (u ''success'') \<and> fst r \<noteq> None then Inr False
     else if wanted = PStr (u ''failure'') \<and> (case fst r of None \<Rightarrow> True | Some code \<Rightarrow> PStr (u code) \<noteq> get ex (u ''error_code'')) then Inr False
     else
       bindE (get_obj expected ''side_effects'') (\<lambda>side.
       ensure (is_dict side) (Inl AttributeError) (
         Inr (list_all (\<lambda>p. py_eq (side_effect_value (snd r) (fst p)) (snd p)) (the_dict side)))))"

fun run_steps :: "crypto \<Rightarrow> kat_keys \<Rightarrow> dict \<Rightarrow> seq_state \<Rightarrow> pyval list \<Rightarrow> row_status res" where
  "run_steps C K inp st [] = Inr Pass"
| "run_steps C K inp st (step # steps) =
     bindE (run_step C K st step inp) (\<lambda>result.
     case result of
       None \<Rightarrow> Inr Skip
     | Some (r, st) \<Rightarrow>
         bindE (get_obj step ''expected'') (\<lambda>expected.
         bindE (step_meets r expected) (\<lambda>ok. if ok then run_steps C K inp st steps else Inr Fail)))"

definition run_sequence :: "crypto \<Rightarrow> kat_keys \<Rightarrow> pyval \<Rightarrow> row_status res" where
  "run_sequence C K inp =
     bindE (subscript inp (u ''sequence'')) (\<lambda>v.
     bindE (py_iter v) (\<lambda>steps. run_steps C K (the_dict inp) new_sequence steps))"

section \<open>One fixture\<close>

text \<open>The row of an outcome against the fixture's \<open>expected\<close> member\<close>

definition judge_success :: "pyval \<Rightarrow> dict \<Rightarrow> outcome \<Rightarrow> row_status" where
  "judge_success op expected out =
     (case out of
        Refused code \<Rightarrow> Fail
      | Accepted result \<Rightarrow>
          (if op = PStr (u ''verify_tct_as_issuer'') \<and>
              list_ex (\<lambda>k. has expected k \<and> \<not> py_eq (get (the_dict result) k) (get expected k)) [u ''presenter_aid'', u ''grants'']
           then Fail else Pass))"

definition judge :: "pyval \<Rightarrow> pyval \<Rightarrow> outcome \<Rightarrow> row_status res" where
  "judge op expected out =
     bindE (get_obj expected ''side_effects'') (\<lambda>side.
     bindE (dict_get side (u ''capability_authorized'')) (\<lambda>authorized.
     let ex = the_dict expected; accepted = (case out of Accepted v \<Rightarrow> True | Refused c \<Rightarrow> False) in
     if authorized \<noteq> PNone \<and> \<not> py_eq authorized (PBool accepted) then Inr Fail
     else if get ex (u ''outcome'') = PStr (u ''success'') then Inr (judge_success op ex out)
     else
       Inr (case out of
              Refused code \<Rightarrow> if PStr (u code) = get ex (u ''error_code'') then Pass else Fail
            | Accepted v \<Rightarrow> Fail)))"

text \<open>\<open>fixture["id"].startswith("id-")\<close>, inside the \<open>try\<close> that turns any exception into a failure\<close>

definition execute :: "mint_env \<Rightarrow> svid_api \<Rightarrow> dict \<Rightarrow> ustr \<Rightarrow> dict \<Rightarrow> outcome res" where
  "execute M V fixture op minted =
     bindE (item fixture (u ''id'')) (\<lambda>i.
     bindE (str_of i) (\<lambda>i. run_operation M V op minted (strip_prefix (u ''id-'') i \<noteq> None)))"

definition run_single :: "mint_env \<Rightarrow> svid_api \<Rightarrow> dict \<Rightarrow> pyval \<Rightarrow> pyval \<Rightarrow> row_status res" where
  "run_single M V fixture inp expected =
     bindE (dict_get inp (u ''operation'')) (\<lambda>op.
     bindE (if op = PNone then Inr False else in_str_set op operation_names) (\<lambda>known.
     if \<not> known then Inr Skip
     else
       (case mint_input M (the_dict inp) REFERENCE_CLOCK of
          Inl e \<Rightarrow> if e = MinterError \<or> e = KeyError then Inr Skip else Inl e
        | Inr minted \<Rightarrow>
            (case execute M V fixture (the_str op) (put minted (u ''_feature'') (get fixture (u ''feature''))) of
               Inl e \<Rightarrow> Inr Fail
             | Inr out \<Rightarrow> judge op expected out))))"

definition run_fixture :: "mint_env \<Rightarrow> svid_api \<Rightarrow> dict \<Rightarrow> row_status res" where
  "run_fixture M V fixture =
     (let inp = get_or (PDict []) fixture (u ''input''); expected = get_or (PDict []) fixture (u ''expected'') in
      bindE (py_in (PStr (u ''sequence'')) inp) (\<lambda>sequence.
      if sequence then run_sequence (me_crypto M) (me_keys M) inp else run_single M V fixture inp expected))"

section \<open>The pack\<close>

record pack =
  pk_rows :: "(row_status \<times> pyval) list"
  pk_violations :: "pyval list"
  pk_fixtures :: "(pyval \<times> dict) list"

definition new_pack :: pack where
  "new_pack = \<lparr>pk_rows = [], pk_violations = [], pk_fixtures = []\<rparr>"

definition count_of :: "row_status \<Rightarrow> pack \<Rightarrow> nat" where
  "count_of st p = length (filter (\<lambda>r. fst r = st) (pk_rows p))"

definition exit_code :: "pack \<Rightarrow> int" where
  "exit_code p = (if count_of Fail p \<noteq> 0 \<or> pk_violations p \<noteq> [] then 1 else 0)"

type_synonym only_pattern = "(pyval \<Rightarrow> bool res) option"

text \<open>Whether the loop reaches the run of a parsed file, with its id\<close>

definition is_scenario :: "pyval \<Rightarrow> bool res" where
  "is_scenario v =
     bindE (py_in (PStr (u ''id'')) v) (\<lambda>i. if \<not> i then Inr False else py_in (PStr (u ''input'')) v)"

definition is_selected :: "only_pattern \<Rightarrow> dict \<Rightarrow> bool res" where
  "is_selected only fixture =
     (if get fixture (u ''status'') = PStr (u ''reserved'') then Inr False
      else case only of None \<Rightarrow> Inr True | Some matches \<Rightarrow> matches (get fixture (u ''id'')))"

definition pack_row :: "mint_env \<Rightarrow> svid_api \<Rightarrow> ustr \<Rightarrow> pack \<Rightarrow> dict \<Rightarrow> pack res" where
  "pack_row M V claim p fixture =
     (let fid = get fixture (u ''id'') in
      ensure (hashable fid) (Inl TypeError) (
      bindE (in_scope fixture) (\<lambda>scoped.
      bindE (if scoped then run_fixture M V fixture else Inr Skip) (\<lambda>status.
      bindE (if status = Skip then gates fixture claim else Inr False) (\<lambda>violation.
        Inr \<lparr>pk_rows = pk_rows p @ [(status, fid)],
             pk_violations = pk_violations p @ (if violation then [fid] else []),
             pk_fixtures = pk_fixtures p @ [(fid, fixture)]\<rparr>)))))"

definition pack_step :: "mint_env \<Rightarrow> svid_api \<Rightarrow> ustr \<Rightarrow> only_pattern \<Rightarrow> pack \<Rightarrow> pyval \<Rightarrow> pack res" where
  "pack_step M V claim only p v =
     bindE (is_scenario v) (\<lambda>scenario.
     if \<not> scenario then Inr p
     else
       bindE (subscript v (u ''id'')) (\<lambda>fid.
       bindE (is_selected only (the_dict v)) (\<lambda>selected.
         if selected then pack_row M V claim p (the_dict v) else Inr p)))"

definition run_pack :: "mint_env \<Rightarrow> svid_api \<Rightarrow> pyval list \<Rightarrow> ustr \<Rightarrow> only_pattern \<Rightarrow> pack res" where
  "run_pack M V files claim only = foldE (pack_step M V claim only) new_pack files"

text \<open>The end of \<open>main\<close>: \<open>--min-passed\<close>, then the pack's own code\<close>

definition main_exit :: "pack \<Rightarrow> nat option \<Rightarrow> int" where
  "main_exit p min_passed =
     (case min_passed of
        None \<Rightarrow> exit_code p
      | Some n \<Rightarrow> if count_of Pass p < n then 1 else exit_code p)"

section \<open>What exit code 0 means\<close>

definition reached :: "only_pattern \<Rightarrow> pyval \<Rightarrow> bool" where
  "reached only v \<longleftrightarrow> is_scenario v = Inr True \<and> is_selected only (the_dict v) = Inr True"

definition row_of :: "mint_env \<Rightarrow> svid_api \<Rightarrow> dict \<Rightarrow> row_status res" where
  "row_of M V fixture = bindE (in_scope fixture) (\<lambda>scoped. if scoped then run_fixture M V fixture else Inr Skip)"

text \<open>No failure, and a pass behind the claim\<close>

definition row_holds :: "mint_env \<Rightarrow> svid_api \<Rightarrow> ustr \<Rightarrow> dict \<Rightarrow> bool" where
  "row_holds M V claim fixture \<longleftrightarrow>
     (\<exists>st. row_of M V fixture = Inr st \<and> st \<noteq> Fail \<and> (gates fixture claim = Inr True \<longrightarrow> st = Pass))"

lemma exit_code_0: "exit_code p = 0 \<longleftrightarrow> Fail \<notin> fst ` set (pk_rows p) \<and> pk_violations p = []"
  by (force simp: exit_code_def count_of_def filter_empty_conv)

lemma pack_row_result:
  assumes "pack_row M V claim p fixture = Inr p'"
  obtains st violation where "row_of M V fixture = Inr st"
    and "(if st = Skip then gates fixture claim else Inr False) = Inr violation"
    and "p' = \<lparr>pk_rows = pk_rows p @ [(st, get fixture (u ''id''))],
      pk_violations = pk_violations p @ (if violation then [get fixture (u ''id'')] else []),
      pk_fixtures = pk_fixtures p @ [(get fixture (u ''id''), fixture)]\<rparr>"
  using assms by (auto simp: pack_row_def Let_def row_of_def ok_simps)

lemma pack_row_exit:
  assumes "pack_row M V claim p fixture = Inr p'"
  shows "exit_code p' = 0 \<longleftrightarrow> exit_code p = 0 \<and> row_holds M V claim fixture"
  using assms
proof (rule pack_row_result)
  fix st violation
  assume "row_of M V fixture = Inr st" "(if st = Skip then gates fixture claim else Inr False) = Inr violation"
    and p': "p' = \<lparr>pk_rows = pk_rows p @ [(st, get fixture (u ''id''))],
      pk_violations = pk_violations p @ (if violation then [get fixture (u ''id'')] else []),
      pk_fixtures = pk_fixtures p @ [(get fixture (u ''id''), fixture)]\<rparr>"
  then show ?thesis by (cases st) (auto simp: exit_code_0 p' row_holds_def)
qed

lemma pack_step_cases: "pack_step M V claim only p v = Inr q \<Longrightarrow>
    q = p \<and> \<not> reached only v \<or> reached only v \<and> pack_row M V claim p (the_dict v) = Inr q"
  by (auto simp: pack_step_def reached_def ok_simps split: if_splits)

lemma pack_step_exit:
  assumes "pack_step M V claim only p v = Inr p'"
  shows "exit_code p' = 0 \<longleftrightarrow> exit_code p = 0 \<and> (reached only v \<longrightarrow> row_holds M V claim (the_dict v))"
  using pack_step_cases [OF assms] pack_row_exit [of M V claim p "the_dict v" p'] by auto

lemma run_files_exit:
  "foldE (pack_step M V claim only) p files = Inr p' \<Longrightarrow>
   exit_code p' = 0 \<longleftrightarrow> exit_code p = 0 \<and> (\<forall>v \<in> set files. reached only v \<longrightarrow> row_holds M V claim (the_dict v))"
proof (induction files arbitrary: p)
  case (Cons v files)
  then obtain q where "pack_step M V claim only p v = Inr q" "foldE (pack_step M V claim only) q files = Inr p'"
    by (auto simp: ok_simps)
  then show ?case using Cons.IH pack_step_exit [of M V claim only p v q] by auto
qed simp

text \<open>
  C19. What exit code 0 certifies. When the pack runs to its end, the exit code is 0 exactly if no
  fixture the run reached failed and every reached fixture behind the claim passed: none of them was
  skipped, for whatever reason.
\<close>

theorem exit_zero_iff:
  assumes "run_pack M V files claim only = Inr p"
  shows "exit_code p = 0 \<longleftrightarrow>
    (\<forall>v \<in> set files. reached only v \<longrightarrow>
       (\<exists>st. row_of M V (the_dict v) = Inr st \<and> st \<noteq> Fail \<and> (gates (the_dict v) claim = Inr True \<longrightarrow> st = Pass)))"
proof -
  have "exit_code new_pack = 0" by (simp add: exit_code_0 new_pack_def)
  then show ?thesis using run_files_exit [OF assms [unfolded run_pack_def]] by (simp add: row_holds_def)
qed

text \<open>A fixture whose operation is not supported is skipped, which the core claim does not forgive.\<close>

definition skipped_fixture :: dict where
  "skipped_fixture =
     [(u ''id'', PStr (u ''x-1'')), (u ''input'', PDict [(u ''operation'', PStr (u ''verify_nothing''))])]"

lemma skipped_run: "in_scope skipped_fixture = Inr True" "run_fixture M V skipped_fixture = Inr Skip"
  by (simp_all add: skipped_fixture_def in_scope_def is_core_def run_fixture_def run_single_def py_in_def operation_names_def)

lemma skipped_row: "row_of M V skipped_fixture = Inr Skip"
  by (simp add: row_of_def skipped_run)

lemma skipped_reached: "reached None (PDict skipped_fixture)"
  by (simp add: reached_def is_scenario_def is_selected_def skipped_fixture_def py_in_def)

lemma skipped_pack: "\<exists>p. run_pack M V [PDict skipped_fixture] CORE_CLAIM None = Inr p"
proof -
  have "is_scenario (PDict skipped_fixture) = Inr True" "is_selected None skipped_fixture = Inr True"
    using skipped_reached by (simp_all add: reached_def)
  moreover have "has skipped_fixture (u ''id'')" "hashable (get skipped_fixture (u ''id''))" by (simp_all add: skipped_fixture_def hashable_def)
  moreover have "gates skipped_fixture CORE_CLAIM = Inr (is_required skipped_fixture)" by (simp add: gates_def CLAIMS_def CORE_CLAIM_def)
  ultimately show ?thesis
    using skipped_run by (simp add: run_pack_def pack_step_def pack_row_def has_item Let_def)
qed

lemma exit_zero_iff_witness:
  "\<forall>M V. \<exists>p. run_pack M V [PDict skipped_fixture] CORE_CLAIM None = Inr p \<and> exit_code p \<noteq> 0"
proof (intro allI)
  fix M V
  obtain p where p: "run_pack M V [PDict skipped_fixture] CORE_CLAIM None = Inr p" using skipped_pack by blast
  have "gates skipped_fixture CORE_CLAIM = Inr True"
    by (simp add: gates_def CLAIMS_def CORE_CLAIM_def is_required_def is_core_def skipped_fixture_def)
  then show "\<exists>p. run_pack M V [PDict skipped_fixture] CORE_CLAIM None = Inr p \<and> exit_code p \<noteq> 0"
    using exit_zero_iff [OF p] skipped_row [of M V] skipped_reached p by auto
qed

end
