(* ===== verification/Report.thy ===== *)
theory Report
  imports Conformance
begin

text \<open>
  The report of \<open>run_conformance.py\<close> (its computed parts: provenance, the digest of the
  fixture directory, rows, totals, gates and the document made of them), its \<open>main\<close>, and
  \<open>scripts/parity-diff.py\<close>, which compares two reports. Git is a function from its arguments to its
  output; the package version, the time stamp, the files and the texts of \<open>reason\<close> are
  arguments. The printed lines are not modelled.
\<close>

section \<open>Provenance\<close>

type_synonym git = "string list \<Rightarrow> ustr option"

definition spec_provenance :: "git \<Rightarrow> ustr option \<Rightarrow> ustr option \<Rightarrow> dict res" where
  "spec_provenance run_git commit spec_version =
     (let head = (if commit = None then run_git [''rev-parse'', ''HEAD''] else commit);
          newest = (\<lambda>c. run_git [''describe'', ''--tags'', ''--abbrev=0'', ''--match'', ''v[0-9]*'', map char_of c]) in
      ensure (commit \<noteq> None \<or> run_git [''status'', ''--porcelain'', ''--'', ''schemas/conformance''] = Some []) (Inl ReportError) (
      case head of
        None \<Rightarrow> Inl ReportError
      | Some c \<Rightarrow>
          ensure (length c = 40) (Inl ReportError) (
          case (if spec_version = None then newest c else spec_version) of
            None \<Rightarrow> Inl ReportError
          | Some v \<Rightarrow>
              ensure (v \<noteq> []) (Inl ReportError) (
                Inr [(u ''commit'', PStr c), (u ''version'', PStr v), (u ''protocol'', PStr PROTOCOL_VERSION)]))))"

text \<open>\<open>hexdigest\<close>, and the digest of the \<open>sha256sum\<close> listing, names in byte order\<close>

definition hex_text :: "bytes \<Rightarrow> ustr" where
  "hex_text b = concat (map (\<lambda>x. [hex_digit (unat x div 16), hex_digit (unat x mod 16)]) b)"

definition listing_line :: "ustr \<times> bytes \<Rightarrow> ustr" where
  "listing_line f = hex_text (sha256 (snd f)) @ u ''  '' @ fst f @ [10]"

definition name_key :: "ustr \<Rightarrow> nat list" where
  "name_key n = (case utf8_encode n of Inr b \<Rightarrow> map unat b | Inl e \<Rightarrow> [])"

definition fixtures_dir_digest :: "(ustr \<times> bytes) list \<Rightarrow> ustr res" where
  "fixtures_dir_digest files =
     bindE (mapE (\<lambda>f. utf8_encode (fst f)) files) (\<lambda>_.
     bindE (utf8_encode (concat (map listing_line (sort_key (\<lambda>f. name_key (fst f)) files)))) (\<lambda>b.
       Inr (u ''sha256:'' @ hex_text (sha256 b))))"

section \<open>Rows, totals, gates\<close>

record report_row =
  rr_id :: pyval
  rr_status :: pyval
  rr_feature :: pyval
  rr_required :: pyval
  rr_outcome :: row_status

text \<open>The fixture of an id: a later file with the same id replaces an earlier one.\<close>

definition fixture_of :: "pack \<Rightarrow> pyval \<Rightarrow> dict" where
  "fixture_of p fid = (case map_of (rev (pk_fixtures p)) fid of Some f \<Rightarrow> f | None \<Rightarrow> [])"

definition report_row_of :: "pack \<Rightarrow> row_status \<times> pyval \<Rightarrow> report_row res" where
  "report_row_of p row =
     (let fixture = fixture_of p (snd row) in
      bindE (item fixture (u ''status'')) (\<lambda>status.
        Inr \<lparr>rr_id = snd row, rr_status = status, rr_feature = get fixture (u ''feature''),
             rr_required = get fixture (u ''required_for_core''), rr_outcome = fst row\<rparr>))"

definition TIERS :: "ustr list" where
  "TIERS = map u [''core'', ''extension'', ''draft'']"

text \<open>\<open>totals[tier][outcome]\<close>; a row of another tier is a \<open>KeyError\<close>.\<close>

definition report_totals :: "report_row list \<Rightarrow> (ustr \<Rightarrow> row_status \<Rightarrow> nat) res" where
  "report_totals rows =
     bindE (mapE (\<lambda>r. in_str_set (rr_status r) TIERS) rows) (\<lambda>known.
     ensure (list_all (\<lambda>b. b) known) (Inl KeyError) (
       Inr (\<lambda>tier st. length (filter (\<lambda>r. rr_status r = PStr tier \<and> rr_outcome r = st) rows))))"

record report_gate =
  rg_name :: ustr
  rg_passed :: bool
  rg_blocking :: "pyval list"

definition gate_of :: "pack \<Rightarrow> report_row list \<Rightarrow> ustr \<times> ustr option \<Rightarrow> report_gate res" where
  "gate_of p rows claim =
     bindE (mapE (\<lambda>r. gates (fixture_of p (rr_id r)) (fst claim)) rows) (\<lambda>gated.
     let blocking = map (\<lambda>x. rr_id (fst x)) (filter (\<lambda>x. snd x \<and> rr_outcome (fst x) \<noteq> Pass) (zip rows gated));
         covered = (case snd claim of None \<Rightarrow> True | Some feature \<Rightarrow> list_ex (\<lambda>r. rr_feature r = PStr feature) rows) in
     Inr \<lparr>rg_name = fst claim, rg_passed = (covered \<and> blocking = []), rg_blocking = blocking\<rparr>)"

definition claim_evaluated :: "ustr list \<Rightarrow> ustr \<times> ustr option \<Rightarrow> bool" where
  "claim_evaluated features_enabled claim \<longleftrightarrow> (case snd claim of None \<Rightarrow> True | Some f \<Rightarrow> f \<in> set features_enabled)"

definition build_report ::
  "pack \<Rightarrow> ustr list \<Rightarrow> (report_row list \<times> (ustr \<Rightarrow> row_status \<Rightarrow> nat) \<times> report_gate list) res"
where
  "build_report p features_enabled =
     bindE (mapE (report_row_of p) (pk_rows p)) (\<lambda>rows.
     bindE (report_totals rows) (\<lambda>totals.
     bindE (mapE (gate_of p rows) (filter (claim_evaluated features_enabled) CLAIMS)) (\<lambda>gate_list.
       Inr (rows, totals, gate_list))))"

section \<open>The document\<close>

text \<open>
  The explanation a row carries is a text, which the model of the runner leaves out; here the texts
  are an argument, \<open>detail\<close>, and a row carries its text exactly when it did not pass.
\<close>

definition implementation_info :: "git \<Rightarrow> ustr option \<Rightarrow> dict" where
  "implementation_info run_git pkg_version =
     (let impl = [(u ''name'', PStr (u ''aitp-verifier-py'')),
                  (u ''version'', PStr (case pkg_version of None \<Rightarrow> u ''unknown'' | Some v \<Rightarrow> v)),
                  (u ''repository'', PStr (u ''https://github.com/agentidentitytrustprotocol/aitp-verifier-py''))] in
      case run_git [''rev-parse'', ''HEAD''] of
        None \<Rightarrow> impl
      | Some c \<Rightarrow>
          (if c \<noteq> [] \<and> run_git [''status'', ''--porcelain'', ''--'', ''aitp_verifier''] = Some []
           then impl @ [(u ''commit'', PStr c)] else impl))"

fun outcome_name :: "row_status \<Rightarrow> ustr" where
  "outcome_name Pass = u ''pass''"
| "outcome_name Fail = u ''fail''"
| "outcome_name Skip = u ''skip''"

definition row_value :: "(report_row \<Rightarrow> ustr) \<Rightarrow> report_row \<Rightarrow> pyval" where
  "row_value detail r =
     PDict ([(u ''id'', rr_id r), (u ''status'', rr_status r), (u ''feature'', rr_feature r),
             (u ''required_for_core'', rr_required r), (u ''outcome'', PStr (outcome_name (rr_outcome r)))] @
            (if rr_outcome r \<noteq> Pass then [(u ''reason'', PStr (detail r))] else []))"

definition totals_value :: "(ustr \<Rightarrow> row_status \<Rightarrow> nat) \<Rightarrow> pyval" where
  "totals_value totals =
     PDict (map (\<lambda>tier. (tier, PDict (map (\<lambda>st. (outcome_name st, PInt (int (totals tier st)))) [Pass, Fail, Skip] @
       [(u ''excluded_by_role'', PInt 0)]))) TIERS)"

definition gate_value :: "ustr \<times> ustr option \<Rightarrow> report_gate \<Rightarrow> pyval" where
  "gate_value claim g =
     PDict ([(u ''name'', PStr (rg_name g)), (u ''passed'', PBool (rg_passed g)),
             (u ''criteria'', PStr (u (if snd claim = None then ''core-required-all-pass'' else ''feature-all-pass'')))] @
            (if rg_blocking g = [] then [] else [(u ''blocking'', PList (rg_blocking g))]))"

definition report_doc ::
  "pack \<Rightarrow> (report_row \<Rightarrow> ustr) \<Rightarrow> dict \<Rightarrow> (ustr \<times> bytes) list \<Rightarrow> dict \<Rightarrow> ustr list \<Rightarrow> ustr \<Rightarrow> ustr option \<Rightarrow> dict res"
where
  "report_doc p detail impl files spec features_enabled generated_at ci_run_url =
     bindE (build_report p features_enabled) (\<lambda>(rows, totals, gate_list).
     bindE (fixtures_dir_digest files) (\<lambda>digest.
       Inr ([(u ''report_version'', PStr (u ''1'')), (u ''implementation'', PDict impl), (u ''spec'', PDict spec),
             (u ''fixtures_dir_digest'', PStr digest), (u ''features_enabled'', PList (map PStr features_enabled)),
             (u ''results'', PList (map (row_value detail) rows)), (u ''totals'', totals_value totals),
             (u ''gates'', PList (map2 gate_value (filter (claim_evaluated features_enabled) CLAIMS) gate_list)),
             (u ''generated_at'', PStr generated_at)] @
            (case ci_run_url of None \<Rightarrow> []
             | Some url \<Rightarrow> if url = [] then [] else [(u ''provenance'', PDict [(u ''ci_run_url'', PStr url)])]))))"

text \<open>The options of the command line, and what the run finds outside: directory, git, files, clock\<close>

record run_args =
  ra_claim :: ustr
  ra_only :: only_pattern
  ra_report :: bool
  ra_spec_commit :: "ustr option"
  ra_spec_version :: "ustr option"
  ra_ci_run_url :: "ustr option"
  ra_min_passed :: "nat option"

record run_world =
  rw_conf_dir :: "(ustr \<times> bytes \<times> pyval) list option"
  rw_spec_git :: git
  rw_here_git :: git
  rw_pkg_version :: "ustr option"
  rw_generated_at :: ustr
  rw_detail :: "report_row \<Rightarrow> ustr"

text \<open>
  \<open>main\<close>: the exit code and the report written, if any. A directory that is missing, provenance that
  cannot be established, a pattern that matches nothing and a report of a partial pack exit with 2.
\<close>

definition run_main :: "mint_env \<Rightarrow> svid_api \<Rightarrow> run_world \<Rightarrow> run_args \<Rightarrow> (int \<times> dict option) res" where
  "run_main M V W A =
     (if ra_only A \<noteq> None \<and> ra_report A then Inr (2, None)
      else
        (case rw_conf_dir W of
           None \<Rightarrow> Inr (2, None)
         | Some files \<Rightarrow>
             (case (if ra_report A then spec_provenance (rw_spec_git W) (ra_spec_commit A) (ra_spec_version A) else Inr []) of
                Inl e \<Rightarrow> (if e = ReportError then Inr (2, None) else Inl e)
              | Inr spec \<Rightarrow>
                  bindE (run_pack M V (map (\<lambda>f. snd (snd f)) files) (ra_claim A) (ra_only A)) (\<lambda>p.
                  if ra_only A \<noteq> None \<and> pk_rows p = [] then Inr (2, None)
                  else
                    bindE (if ra_report A then
                             bindE (report_doc p (rw_detail W) (implementation_info (rw_here_git W) (rw_pkg_version W))
                                      (map (\<lambda>f. (fst f, fst (snd f))) files) spec (sort SUPPORTED_FEATURES)
                                      (rw_generated_at W) (ra_ci_run_url A)) (\<lambda>d. Inr (Some d))
                           else Inr None) (\<lambda>doc.
                      Inr (main_exit p (ra_min_passed A), doc))))))"

section \<open>Comparing two reports\<close>

definition RUNNER_POLICY :: "ustr list" where
  "RUNNER_POLICY = map u [''del-007'', ''del-004'']"

definition KNOWN_RUNNER_GAPS :: "ustr list" where
  "KNOWN_RUNNER_GAPS = []"

text \<open>The outcomes of a report by fixture id, and the problem one fixture raises\<close>

type_synonym outcomes = "ustr \<rightharpoonup> ustr"

definition parity_problem :: "ustr list \<Rightarrow> outcomes \<Rightarrow> outcomes \<Rightarrow> ustr \<Rightarrow> bool" where
  "parity_problem gaps native adapter fid \<longleftrightarrow>
     (case (native fid, adapter fid) of
        (Some a, Some b) \<Rightarrow>
          if fid \<in> set gaps then a = b
          else if a = b then False
          else \<not> ((a = u ''skip'' \<or> b = u ''skip'') \<and> fid \<in> set RUNNER_POLICY)
      | _ \<Rightarrow> True)"

definition parity_exit :: "outcomes \<Rightarrow> outcomes \<Rightarrow> ustr list \<Rightarrow> int" where
  "parity_exit native adapter fids = (if list_ex (parity_problem KNOWN_RUNNER_GAPS native adapter) fids then 1 else 0)"

section \<open>The report agrees with the exit code\<close>

lemma mapE_ok_nth: "mapE f xs = Inr ys \<Longrightarrow> i < length xs \<Longrightarrow> f (xs ! i) = Inr (ys ! i)"
  by (induction xs arbitrary: ys i) (auto simp: ok_simps nth_Cons split: nat.splits)

text \<open>Every row is the row of a fixture the pack recorded under its id, and is no violation of the claim.\<close>

definition pack_sound :: "mint_env \<Rightarrow> svid_api \<Rightarrow> ustr \<Rightarrow> pack \<Rightarrow> bool" where
  "pack_sound M V claim p \<longleftrightarrow>
     (\<forall>r \<in> set (pk_rows p). \<exists>f. (snd r, f) \<in> set (pk_fixtures p) \<and>
        (fst r = Skip \<and> gates f claim = Inr True \<longrightarrow> pk_violations p \<noteq> []))"

lemma pack_step_sound: "pack_step M V claim only p v = Inr q \<Longrightarrow> pack_sound M V claim p \<Longrightarrow> pack_sound M V claim q"
proof (drule pack_step_cases, elim disjE conjE)
  assume row: "pack_row M V claim p (the_dict v) = Inr q" and p: "pack_sound M V claim p"
  from row show ?thesis by (rule pack_row_result) (use p in \<open>fastforce simp: pack_sound_def\<close>)
qed simp

lemma new_pack_sound: "pack_sound M V claim new_pack"
  by (simp add: pack_sound_def new_pack_def)

lemma run_pack_sound: "run_pack M V files claim only = Inr p \<Longrightarrow> pack_sound M V claim p"
  unfolding run_pack_def by (erule foldE_invariant) (simp_all add: new_pack_sound pack_step_sound)

text \<open>
  With distinct fixture ids, exit code 0 for the core claim means that the report's core gate passes.
\<close>

lemma exit_zero_core_gate:
  assumes "run_pack M V files CORE_CLAIM only = Inr p" and "exit_code p = 0" and "distinct (map fst (pk_fixtures p))"
    and "build_report p features_enabled = Inr (rows, totals, gate_list)" and "g \<in> set gate_list" and "rg_name g = CORE_CLAIM"
  shows "rg_passed g \<and> rg_blocking g = []"
proof -
  obtain claim where g: "gate_of p rows claim = Inr g" and claim: "claim \<in> set CLAIMS"
    using assms(4,5) by (auto simp: build_report_def ok_simps dest: mapE_ok_set)
  then have "fst claim = CORE_CLAIM" using assms(6) by (auto simp: gate_of_def Let_def ok_simps)
  then have core: "claim = (CORE_CLAIM, None)" using claim by (auto simp: CLAIMS_def CORE_CLAIM_def)
  have rows: "mapE (report_row_of p) (pk_rows p) = Inr rows" using assms(4) by (auto simp: build_report_def ok_simps)
  have ok: "rr_outcome r = Pass \<or> gates (fixture_of p (rr_id r)) CORE_CLAIM = Inr False" if r: "r \<in> set rows" for r
  proof -
    obtain row where row: "row \<in> set (pk_rows p)" "rr_id r = snd row" "rr_outcome r = fst row"
      using mapE_ok_set [OF rows r] by (auto simp: report_row_of_def Let_def ok_simps)
    then obtain f where f: "(snd row, f) \<in> set (pk_fixtures p)" "fst row = Skip \<longrightarrow> gates f CORE_CLAIM \<noteq> Inr True"
      using run_pack_sound [OF assms(1)] assms(2) by (auto simp: pack_sound_def exit_code_0)
    then have "fixture_of p (snd row) = f"
      using assms(3) by (auto simp: fixture_of_def rev_map [symmetric] split: option.splits)
    moreover have "fst row \<noteq> Fail" using assms(2) row(1) by (force simp: exit_code_0)
    moreover have "gates f CORE_CLAIM = Inr (is_required f)" by (simp add: gates_def CLAIMS_def CORE_CLAIM_def)
    ultimately show ?thesis using f(2) row(2,3) by (cases "fst row") auto
  qed
  obtain gated where gated: "mapE (\<lambda>r. gates (fixture_of p (rr_id r)) CORE_CLAIM) rows = Inr gated"
    and b: "rg_blocking g = map (\<lambda>x. rr_id (fst x)) (filter (\<lambda>x. snd x \<and> rr_outcome (fst x) \<noteq> Pass) (zip rows gated))"
      "rg_passed g = (rg_blocking g = [])"
    using g by (auto simp: gate_of_def Let_def ok_simps core)
  have "rr_outcome (fst x) = Pass \<or> \<not> snd x" if x: "x \<in> set (zip rows gated)" for x
  proof -
    obtain i where i: "i < length rows" "x = (rows ! i, gated ! i)" using x mapE_ok_length [OF gated] by (auto simp: set_zip)
    have "gates (fixture_of p (rr_id (rows ! i))) CORE_CLAIM = Inr (gated ! i)"
      using mapE_ok_nth [OF gated i(1)] .
    then show ?thesis using ok [of "rows ! i"] i by auto
  qed
  then have "rg_blocking g = []" unfolding b(1) by (auto simp: filter_empty_conv)
  then show ?thesis using b(2) by simp
qed

text \<open>
  Exit code 0 of the whole program is the exit code 0 of a pack that ran, with the passes asked for;
  the report is written exactly when one was asked for, and it is the one of that pack.
\<close>

lemma main_zero:
  assumes "run_main M V W A = Inr (0, doc)"
  shows "\<exists>files p. rw_conf_dir W = Some files \<and>
    run_pack M V (map (\<lambda>f. snd (snd f)) files) (ra_claim A) (ra_only A) = Inr p \<and> exit_code p = 0 \<and>
    (\<forall>n. ra_min_passed A = Some n \<longrightarrow> n \<le> count_of Pass p) \<and> (ra_only A \<noteq> None \<longrightarrow> pk_rows p \<noteq> []) \<and>
    (doc \<noteq> None \<longleftrightarrow> ra_report A)"
proof -
  have "main_exit p m = 0 \<Longrightarrow> exit_code p = 0 \<and> (\<forall>n. m = Some n \<longrightarrow> n \<le> count_of Pass p)" for p m
    by (auto simp: main_exit_def split: option.splits if_splits)
  then show ?thesis
    using assms unfolding run_main_def by (auto simp: ok_simps split: if_splits option.splits sum.splits)
qed

text \<open>
  The comparison script reports a listed runner gap that has closed, but not a listed policy
  difference that no longer exists.
\<close>

lemma stale_policy_entry_unreported:
  "parity_exit (\<lambda>f. if f = u ''del-007'' then Some (u ''pass'') else None) (\<lambda>f. if f = u ''del-007'' then Some (u ''pass'') else None)
     [u ''del-007''] = 0 \<and> u ''del-007'' \<in> set RUNNER_POLICY"
  by (simp add: parity_exit_def parity_problem_def KNOWN_RUNNER_GAPS_def RUNNER_POLICY_def)

end
