(* ===== verification/Kat_Keys.thy ===== *)
theory Kat_Keys
  imports Minter
begin

text \<open>
  \<open>aitp_verifier/keys.py\<close> and the key loading of \<open>aitp_verifier/adapter.py\<close>: the
  known-answer vectors to signing keys. The files are given as parsed values; \<open>AITP_SPEC\<close> and the
  presence of the checkout's files are arguments. Hexadecimal texts are plain digits here (Python
  also reads a sign, a prefix, underscores and spaces). Identifiers that are not strings, which no
  lookup of the minter can name, are not recorded.
\<close>

section \<open>Hexadecimal texts\<close>

definition hex_digits :: "ustr \<Rightarrow> nat list res" where
  "hex_digits s = mapE (\<lambda>c. case hex_val c of Some d \<Rightarrow> Inr d | None \<Rightarrow> Inl ValueError) s"

fun pair_bytes :: "nat list \<Rightarrow> bytes res" where
  "pair_bytes [] = Inr []"
| "pair_bytes [x] = Inl ValueError"
| "pair_bytes (x # y # xs) = bindE (pair_bytes xs) (\<lambda>bs. Inr (of_nat (16 * x + y) # bs))"

text \<open>\<open>int(v, 16)\<close> and \<open>bytes.fromhex(v)\<close>\<close>

definition int_of_hex :: "pyval \<Rightarrow> int res" where
  "int_of_hex v =
     ensure (is_str v) (Inl TypeError) (
     bindE (hex_digits (the_str v)) (\<lambda>ds. ensure (ds \<noteq> []) (Inl ValueError) (Inr (int (foldl (\<lambda>n d. 16 * n + d) 0 ds)))))"

definition bytes_fromhex :: "pyval \<Rightarrow> bytes res" where
  "bytes_fromhex v = ensure (is_str v) (Inl TypeError) (bindE (hex_digits (the_str v)) pair_bytes)"

section \<open>Vectors\<close>

definition record_key :: "kat_keys \<Rightarrow> pyval \<Rightarrow> private_key \<Rightarrow> kat_keys res" where
  "record_key K v k = ensure (hashable v) (Inl TypeError) (Inr (if is_str v then K(the_str v \<mapsto> k) else K))"

definition add_keypair :: "signing_api \<Rightarrow> kat_keys \<Rightarrow> pyval \<Rightarrow> kat_keys res" where
  "add_keypair S K vec =
     bindE (dict_get vec (u ''algorithm'')) (\<lambda>alg.
     bindE (if alg = PStr (u ''p256'') then
              bindE (subscript vec (u ''private_scalar_hex'')) (\<lambda>h. bindE (int_of_hex h) (p256_from_scalar S))
            else bindE (subscript vec (u ''seed_hex'')) (\<lambda>h. bindE (bytes_fromhex h) (ed25519_from_seed S))) (\<lambda>k.
     bindE (subscript vec (u ''aid'')) (\<lambda>a. record_key K a k)))"

definition add_issuer :: "signing_api \<Rightarrow> kat_keys \<Rightarrow> pyval \<Rightarrow> kat_keys res" where
  "add_issuer S K vec =
     bindE (subscript vec (u ''seed_hex'')) (\<lambda>h.
     bindE (bytes_fromhex h) (\<lambda>seed.
     bindE (ed25519_from_seed S seed) (\<lambda>k.
     bindE (subscript vec (u ''pubkey_b64url'')) (\<lambda>pub.
     ensure (pub = PStr (b64url_encode (raw_public k))) (Inl ValueError) (
     bindE (subscript vec (u ''id'')) (\<lambda>i. record_key K i k))))))"

definition keys_from :: "signing_api \<Rightarrow> pyval \<Rightarrow> pyval \<Rightarrow> kat_keys res" where
  "keys_from S data issuers =
     bindE (subscript data (u ''vectors'')) (\<lambda>v. bindE (py_iter v) (\<lambda>vecs.
     bindE (foldE (add_keypair S) Map.empty vecs) (\<lambda>K.
     bindE (subscript issuers (u ''vectors'')) (\<lambda>w. bindE (py_iter w) (\<lambda>vecs.
       foldE (add_issuer S) K vecs)))))"

text \<open>
  \<open>_load_keys\<close>: \<open>spec\<close> is the value of \<open>AITP_SPEC\<close>, \<open>missing\<close> whether one of the two files is not
  there, \<open>packaged\<close> and \<open>checkout\<close> the two files of each source.
\<close>

definition load_keys ::
  "signing_api \<Rightarrow> ustr option \<Rightarrow> bool \<Rightarrow> pyval \<times> pyval \<Rightarrow> pyval \<times> pyval \<Rightarrow> kat_keys res"
where
  "load_keys S spec missing packaged checkout =
     (case spec of
        None \<Rightarrow> keys_from S (fst packaged) (snd packaged)
      | Some path \<Rightarrow>
          if path = [] then keys_from S (fst packaged) (snd packaged)
          else
            ensure (\<not> missing) (Inl KatKeysError) (
              catchE (\<lambda>e. is_value_error e \<or> e = KeyError \<or> e = TypeError) (keys_from S (fst checkout) (snd checkout))
                (\<lambda>_. Inl KatKeysError)))"

section \<open>What a loaded key is\<close>

text \<open>Every key loaded from the issuer vectors is the key whose public half the vector pins.\<close>

lemma add_issuer_ok:
  assumes "add_issuer S K vec = Inr K'"
  shows "\<exists>k d. vec = PDict d \<and> get d (u ''pubkey_b64url'') = PStr (b64url_encode (raw_public k)) \<and>
    (K' = K \<or> (\<exists>i. get d (u ''id'') = PStr i \<and> K' = K(i \<mapsto> k)))"
  using assms
  by (cases vec) (auto simp: add_issuer_def subscript_def record_key_def ok_simps is_str_iff split: if_splits)

lemma add_issuers_pinned:
  "foldE (add_issuer S) K vecs = Inr K' \<Longrightarrow> K' i = Some k \<Longrightarrow>
   K i = Some k \<or> (\<exists>d. PDict d \<in> set vecs \<and> get d (u ''id'') = PStr i \<and> get d (u ''pubkey_b64url'') = PStr (b64url_encode (raw_public k)))"
proof (induction vecs arbitrary: K)
  case (Cons vec vecs)
  then obtain L where L: "add_issuer S K vec = Inr L" "foldE (add_issuer S) L vecs = Inr K'" by (auto simp: ok_simps)
  then show ?case using Cons.IH [OF L(2) Cons.prems(2)] add_issuer_ok [OF L(1)] by (auto split: if_splits)
qed simp

end
