(* ===== verification/Spec2Isabelle.thy ===== *)
theory Spec2Isabelle
  imports Adapter Report Kat_Keys
begin

text \<open>
  \<^bold>\<open>The AITP verifier.\<close> This development models the Python package
  \<open>aitp_verifier\<close> (the verification core of the Agent Identity Trust Protocol v0.3) together with
  the tools beside it: the fixture minter, the conformance adapter, \<open>run_conformance.py\<close> and
  \<open>scripts/parity-diff.py\<close>. A verifier operation takes a JSON-like input and a clock and either
  returns a verdict or raises; here it is a function into \<open>exn + value\<close>, and every raise, early
  return and uncaught Python exception of the source is a branch of it.

  \<^bold>\<open>Parts and theories.\<close> Paths are under \<open>src/aitp_verifier/\<close>
  unless a longer one is given.

  \<^item> \<open>Prelude\<close>: exceptions (\<open>errors.py\<close>), the result combinators \<open>bindE\<close>, \<open>ensure\<close>, \<open>catchE\<close>,
    \<open>mapE\<close>, \<open>foldE\<close>, code-point strings and bytes, and the locales \<open>codec\<close>, \<open>attenuation\<close> and
    \<open>invariant_machine\<close>. \<open>Py_Float\<close>, \<open>Py_Value\<close>, \<open>Utf\<close>: the Python values, their equality, truth
    and conversions, and the text encodings.
  \<^item> \<open>Json\<close>, \<open>Jcs\<close>, \<open>Jcs_Numbers\<close>, \<open>Jcs_Roundtrip\<close>, \<open>Strict_Json\<close>: the JSON parser of the
    standard library and \<open>jcs.py\<close>; canonical bytes parse back, so they are injective; strict
    parsing is total and its values have no duplicate names.
  \<^item> \<open>B64\<close>, \<open>Field_Gates\<close>, \<open>Sha256\<close>, \<open>Crypto\<close>, \<open>Aid\<close>, \<open>Sigfield\<close>, \<open>Jwk\<close>, \<open>Jws\<close>, \<open>Signing\<close>:
    \<open>b64.py\<close>, \<open>fields.py\<close>, \<open>crypto.py\<close>, \<open>aid.py\<close>, \<open>sigfield.py\<close>, \<open>proofinput.py\<close>, \<open>jwk.py\<close>,
    \<open>jws.py\<close>. \<open>jws_signed\<close> of \<open>Jws\<close> is the meaning the higher theories give to an accepted token.
  \<^item> \<open>Envelope\<close>, \<open>Revocation\<close>, \<open>Tct\<close> (with \<open>voucher.py\<close>), \<open>Delegation\<close>, \<open>Uri\<close> and \<open>Manifest\<close>,
    \<open>Spiffe\<close>, \<open>Identity\<close>, \<open>Handshake\<close>, \<open>Session_Bundle\<close>: one module of the core each. Each states
    what an accepted input guarantees as one soundness theorem, from a lemma that reads a successful
    run as the list of its intermediate results, and what a rejected one can raise.
  \<^item> \<open>Mint_Tokens\<close>, \<open>Minter\<close>: \<open>minter.py\<close>. \<open>Kat_Keys\<close>: \<open>keys.py\<close>. \<open>Verify\<close>, \<open>Harness\<close>,
    \<open>Adapter\<close>: \<open>verify.py\<close>, \<open>harness.py\<close>, \<open>adapter.py\<close>. \<open>Conformance\<close>, \<open>Report\<close>:
    \<open>src/run_conformance.py\<close> and \<open>src/scripts/parity-diff.py\<close>.
  \<^item> \<open>Samples\<close>: keys, tokens and envelopes on which the examples of the theorems run.

  \<^bold>\<open>How the parts interact.\<close> \<open>adapter.serve\<close> reads a line, \<open>handle\<close> updates the
  adapter's state (clock, features, message ids seen, challenges, presenter) and answers; a
  verification operation passes the argument gate, then \<open>harness.run_operation\<close>, which maps the
  fixture's conventions (minting the snapshots of uncovered issuers with \<open>mint_input\<close>) and calls the
  operation of the registry. \<open>run_conformance.py\<close> mints and runs a fixture through the same
  \<open>run_operation\<close> and turns the outcome into a row, a gate and an exit code.

  \<^bold>\<open>What the lemmas show.\<close> For tokens, delegation chains, manifests, identities,
  handshakes and bundles: acceptance implies every condition of the protocol the code checks, on the
  bytes that were signed. Delegation's two paths refine one contract (\<open>grants\<close> within one live
  voucher) by an interpretation of \<open>attenuation\<close>. Revocation: the decision under each fail mode;
  \<open>fail_mode\<close> is a \<open>linorder\<close> by permissiveness, and every token verifier is monotone in it.
  Canonical JSON, base64url and wire signatures: round trips. Minting: the fuelled recursion is the
  source's, and what is minted verifies. The adapter: \<open>session_step\<close> is the inductive step relation
  of its session (quiet, new fixture, message, challenge, present, withdraw, owe), every request
  \<open>handle\<close> serves is one of its steps (\<open>after_session_step\<close>), and \<open>adapter_run\<close> is a run from the
  initial state. By rule induction on runs a presenter named goes back to a challenge issued and
  answered in the trace; \<open>invariant_machine\<close>, interpreted on \<open>handle\<close>, gives replay detection;
  every line gets one answer. The runner: what exit code 0 certifies, for the pack and for \<open>main\<close>.

  \<^bold>\<open>Correspondence.\<close> A \<open>dict\<close> is an association list in insertion order. A function
  that updates a dictionary in place returns it. \<open>fun\<close> is used where the source recurses on its data
  and fuel in two places: the JSON parser, whose fuel \<open>2 * length + 1\<close> is enough because every
  production consumes input (\<open>json_loads_err\<close>), and \<open>mint_token\<close>, whose fuel is the nesting depth
  of the claims (shown in \<open>Mint_Tokens\<close>). The code's own bounds (depth 256 and 200000 nodes of the
  serializer, the JWK walk, three delegation hops, eight certificates) are the code's constants.

  \<^bold>\<open>Parameters.\<close> The \<open>cryptography\<close> package is the records \<open>crypto\<close> (curve
  membership, Ed25519, ECDSA and RSA verification, DER of signatures), \<open>svid_api\<close> (certificates),
  \<open>key_ops\<close>, \<open>signing_api\<close> and \<open>cert_builder\<close> (signing). \<open>honest_signer\<close> is the documented
  behaviour of a key pair that the minting theorems assume. The adapter's environment supplies the
  loaded keys, the version and random bytes; the runner's git is a function.

  \<^bold>\<open>Not modelled.\<close> The texts of error messages and log lines; recursion
  limits of the Python stack (the depth bounds that replace them are); reading files, parsing the
  command line, starting git and printing: what they deliver (file contents, options, outputs, the
  time stamp of the report and its texts) are arguments of \<open>run_main\<close> and \<open>report_doc\<close>. Integers
  printed by \<open>json.dumps\<close> and \<open>str\<close>, also inside message texts, are taken to have at most 4300
  digits; the limit is modelled where a text is converted to an integer.
\<close>

end
